(* ===== verification/Vaid_Prelude.thy ===== *)
theory Vaid_Prelude
  imports
    Main
    "HOL-Library.Word"
    "HOL-Library.Char_ord"
    "HOL-Library.List_Lexorder"
    "HOL-Library.Sublist"
    "HOL-Library.Monad_Syntax"
begin

text \<open>
  The shared vocabulary of the development.

  \<^item> Machine types: \<open>u8\<close> and \<open>bytes\<close> for \<^verbatim>\<open>Vec<u8>\<close>, \<open>uuid\<close> for the 128-bit
    \<^verbatim>\<open>uuid::Uuid\<close>, \<open>instant\<close> for \<^verbatim>\<open>chrono::DateTime<Utc>\<close> as nanoseconds since the Unix epoch.
  \<^item> Rust's \<^verbatim>\<open>&str\<close> is its UTF-8 byte sequence: an Isabelle \<^typ>\<open>string\<close>, whose characters
    are bytes.  The \<^verbatim>\<open>str\<close> methods the crates call (\<^verbatim>\<open>starts_with\<close>, \<^verbatim>\<open>ends_with\<close> of an ASCII
    character, \<^verbatim>\<open>split\<close>) are defined here on bytes, which is what Rust computes.
  \<^item> Ordered maps: \<^verbatim>\<open>BTreeMap<String, V>\<close> is a strictly key-sorted association list, a
    canonical form, so that equality of maps is equality of lists.
  \<^item> The locale \<open>containment_order\<close>, the interface every per-hop containment check of a
    delegation chain meets, and the collections of simplification rules.
\<close>

named_theorems vaid_defs \<open>definitions that component proofs unfold\<close>
named_theorems str_simps \<open>evaluation of the string operations on literals\<close>

type_synonym u8 = "8 word"
type_synonym bytes = "u8 list"
type_synonym uuid = "128 word"
type_synonym instant = int

section \<open>Instants\<close>

definition nanos_per_sec :: int where
  "nanos_per_sec = 1000000000"

text \<open>\<^verbatim>\<open>trunc_subsecs(0)\<close>: the instant with its sub-second part dropped.\<close>

definition trunc_secs :: "instant \<Rightarrow> instant" where
  "trunc_secs t = (t div nanos_per_sec) * nanos_per_sec"

text \<open>\<^verbatim>\<open>Duration::num_seconds\<close>: whole seconds, truncated towards zero.\<close>

definition num_seconds :: "int \<Rightarrow> int" where
  "num_seconds d = sgn d * (\<bar>d\<bar> div nanos_per_sec)"

lemma trunc_secs_le: "trunc_secs t \<le> t"
  using pos_mod_sign [of nanos_per_sec t] div_mult_mod_eq [of t nanos_per_sec]
  by (simp add: trunc_secs_def nanos_per_sec_def)

lemma trunc_secs_gt: "t < trunc_secs t + nanos_per_sec"
  using pos_mod_bound [of nanos_per_sec t] div_mult_mod_eq [of t nanos_per_sec]
  by (simp add: trunc_secs_def nanos_per_sec_def)

lemma trunc_secs_mono: "s \<le> t \<Longrightarrow> trunc_secs s \<le> trunc_secs t"
  by (simp add: trunc_secs_def nanos_per_sec_def zdiv_mono1)

lemma trunc_secs_idem [simp]: "trunc_secs (trunc_secs t) = trunc_secs t"
  by (simp add: trunc_secs_def nanos_per_sec_def)

lemma trunc_secs_add_secs: "trunc_secs (t + k * nanos_per_sec) = trunc_secs t + k * nanos_per_sec"
  by (simp add: trunc_secs_def nanos_per_sec_def algebra_simps)

lemma abs_num_seconds: "\<bar>num_seconds d\<bar> = \<bar>d\<bar> div nanos_per_sec"
proof -
  have "0 \<le> \<bar>d\<bar> div nanos_per_sec"
    by (simp add: nanos_per_sec_def pos_imp_zdiv_nonneg_iff)
  then show ?thesis
    by (cases "d = 0") (simp_all add: num_seconds_def abs_mult del: abs_sgn_eq)
qed

section \<open>Strings\<close>

definition starts_with :: "string \<Rightarrow> string \<Rightarrow> bool" where
  "starts_with s p = prefix p s"

definition ends_with_char :: "string \<Rightarrow> char \<Rightarrow> bool" where
  "ends_with_char s c = (s \<noteq> [] \<and> last s = c)"

definition starts_with_char :: "string \<Rightarrow> char \<Rightarrow> bool" where
  "starts_with_char s c = (s \<noteq> [] \<and> hd s = c)"

text \<open>\<^verbatim>\<open>str::split(c)\<close>: the pieces between separators, never the empty list.\<close>

fun str_split :: "char \<Rightarrow> string \<Rightarrow> string list" where
  "str_split c [] = [[]]"
| "str_split c (x # xs) =
     (if x = c then [] # str_split c xs
      else (case str_split c xs of [] \<Rightarrow> [[x]] | p # ps \<Rightarrow> (x # p) # ps))"

definition is_ascii_digit :: "char \<Rightarrow> bool" where
  "is_ascii_digit c = (CHR ''0'' \<le> c \<and> c \<le> CHR ''9'')"

definition is_ascii_lowercase :: "char \<Rightarrow> bool" where
  "is_ascii_lowercase c = (CHR ''a'' \<le> c \<and> c \<le> CHR ''z'')"

definition bytes_of_string :: "string \<Rightarrow> bytes" where
  "bytes_of_string s = map (\<lambda>c. word_of_nat (of_char c)) s"

lemma starts_with_refl [simp]: "starts_with s s"
  by (simp add: starts_with_def)

lemma starts_with_Nil [simp]: "starts_with s []"
  by (simp add: starts_with_def)

lemma Nil_starts_with [simp]: "starts_with [] p \<longleftrightarrow> p = []"
  by (simp add: starts_with_def)

lemma starts_with_Cons [simp]: "starts_with (x # s) (y # p) \<longleftrightarrow> x = y \<and> starts_with s p"
  by (auto simp: starts_with_def)

lemma starts_with_trans: "starts_with r c \<Longrightarrow> starts_with c p \<Longrightarrow> starts_with r p"
  by (auto simp: starts_with_def intro: prefix_order.trans)

lemma starts_with_appendD: "starts_with s (p @ q) \<Longrightarrow> starts_with s p"
  by (auto simp: starts_with_def dest: append_prefixD)

lemma str_split_nonempty [simp]: "str_split c s \<noteq> []"
  by (induction s) (auto split: list.splits)

text \<open>Joining the pieces with the separator gives the string back.\<close>

fun str_join :: "char \<Rightarrow> string list \<Rightarrow> string" where
  "str_join c [] = []"
| "str_join c [p] = p"
| "str_join c (p # q # ps) = p @ c # str_join c (q # ps)"

lemma str_join_Cons: "ps \<noteq> [] \<Longrightarrow> str_join c (p # ps) = p @ c # str_join c ps"
  by (cases ps) simp_all

lemma str_join_split: "str_join c (str_split c s) = s"
proof (induction s)
  case Nil
  then show ?case by simp
next
  case (Cons x xs)
  obtain p ps where split: "str_split c xs = p # ps"
    by (meson neq_Nil_conv str_split_nonempty)
  show ?case
  proof (cases "x = c")
    case True
    with Cons split show ?thesis by simp
  next
    case False
    with Cons.IH split show ?thesis by (cases ps) auto
  qed
qed

lemma str_split_no_sep: "p \<in> set (str_split c s) \<Longrightarrow> c \<notin> set p"
  by (induction s arbitrary: p) (auto split: if_splits list.splits)

lemma set_str_join: "set (str_join c ps) \<subseteq> insert c (\<Union> (set ` set ps))"
  by (induction c ps rule: str_join.induct) auto

lemma set_str_split: "x \<in> set s \<Longrightarrow> x \<noteq> c \<Longrightarrow> \<exists>p \<in> set (str_split c s). x \<in> set p"
  using set_str_join [of c "str_split c s"] by (auto simp: str_join_split)

section \<open>Lowercase hexadecimal\<close>

definition hex_digit :: "nat \<Rightarrow> char" where
  "hex_digit n = ''0123456789abcdef'' ! n"

definition to_hex :: "bytes \<Rightarrow> string" where
  "to_hex bs = concat (map (\<lambda>b. [hex_digit (unat b div 16), hex_digit (unat b mod 16)]) bs)"

lemma length_to_hex: "length (to_hex bs) = 2 * length bs"
  by (induction bs) (simp_all add: to_hex_def)

lemma hex_digit_inj: "m < 16 \<Longrightarrow> n < 16 \<Longrightarrow> hex_digit m = hex_digit n \<longleftrightarrow> m = n"
  unfolding hex_digit_def by (rule nth_eq_iff_index_eq) simp_all

lemma to_hex_inj: "to_hex a = to_hex b \<longleftrightarrow> a = b"
proof (induction a b rule: list_induct2')
  case (4 x xs y ys)
  have "unat x div 16 < 16" "unat y div 16 < 16"
    using unsigned_less [of x, where ?'a = nat] unsigned_less [of y, where ?'a = nat] by simp_all
  then have "hex_digit (unat x div 16) = hex_digit (unat y div 16) \<and>
      hex_digit (unat x mod 16) = hex_digit (unat y mod 16) \<longleftrightarrow> x = y"
    by (auto simp: hex_digit_inj word_unat_eq_iff) (metis div_mult_mod_eq)
  with 4 show ?case by (auto simp: to_hex_def)
qed (simp_all add: to_hex_def)

section \<open>Ordered maps\<close>

text \<open>\<^verbatim>\<open>BTreeMap::insert\<close> on the sorted association list: the value of a present key is replaced.\<close>

fun map_insert :: "'k::linorder \<Rightarrow> 'v \<Rightarrow> ('k \<times> 'v) list \<Rightarrow> ('k \<times> 'v) list" where
  "map_insert k v [] = [(k, v)]"
| "map_insert k v ((k', v') # m) =
     (if k < k' then (k, v) # (k', v') # m
      else if k = k' then (k, v) # m
      else (k', v') # map_insert k v m)"

text \<open>Collecting a sequence of pairs into a map: later pairs replace earlier ones.\<close>

definition map_collect :: "('k::linorder \<times> 'v) list \<Rightarrow> ('k \<times> 'v) list" where
  "map_collect kvs = fold (\<lambda>(k, v) m. map_insert k v m) kvs []"

definition map_ok :: "('k::linorder \<times> 'v) list \<Rightarrow> bool" where
  "map_ok m = sorted_wrt (<) (map fst m)"

lemma set_map_insert_keys: "fst ` set (map_insert k v m) = insert k (fst ` set m)"
  by (induction k v m rule: map_insert.induct) auto

lemma map_ok_Cons: "map_ok ((k, v) # m) \<longleftrightarrow> (\<forall>k' \<in> fst ` set m. k < k') \<and> map_ok m"
  by (simp add: map_ok_def)

lemma map_ok_Nil [simp]: "map_ok []"
  by (simp add: map_ok_def)

lemma map_ok_insert [simp]: "map_ok m \<Longrightarrow> map_ok (map_insert k v m)"
proof (induction k v m rule: map_insert.induct)
  case (1 k v)
  then show ?case by (simp add: map_ok_def)
next
  case (2 k v k' v' m)
  then show ?case
    by (auto simp: map_ok_Cons set_map_insert_keys dest: less_trans)
qed

lemma map_of_map_insert: "map_of (map_insert k v m) = (map_of m)(k \<mapsto> v)"
  by (induction k v m rule: map_insert.induct) auto

lemma fold_map_insert_ok:
  "map_ok m \<Longrightarrow> map_ok (fold (\<lambda>(k, v) m. map_insert k v m) kvs m)"
  by (induction kvs arbitrary: m) auto

lemma map_ok_collect [simp]: "map_ok (map_collect kvs)"
  by (simp add: map_collect_def fold_map_insert_ok)

lemma map_of_fold_insert:
  "map_of (fold (\<lambda>(k, v) m. map_insert k v m) kvs m) = map_of m ++ map_of (rev kvs)"
  by (induction kvs arbitrary: m)
     (auto simp: map_of_map_insert fun_eq_iff map_add_def split: option.splits)

lemma map_of_collect: "map_of (map_collect kvs) = map_of (rev kvs)"
  by (simp add: map_collect_def map_of_fold_insert)

lemma map_of_rev_distinct: "distinct (map fst kvs) \<Longrightarrow> map_of (rev kvs) = map_of kvs"
  by (rule map_of_inject_set [THEN iffD2]) (auto simp: rev_map [symmetric])

lemma map_of_collect_distinct:
  "distinct (map fst kvs) \<Longrightarrow> map_of (map_collect kvs) = map_of kvs"
  by (simp add: map_of_collect map_of_rev_distinct)

lemma map_ok_distinct: "map_ok m \<Longrightarrow> distinct (map fst m)"
  by (simp add: map_ok_def strict_sorted_iff)

lemma map_ok_filter: "map_ok m \<Longrightarrow> map_ok (filter P m)"
  by (simp add: map_ok_def sorted_wrt_map sorted_wrt_filter)

lemma map_of_filter_keys: "map_of (filter (\<lambda>(k, v). Q k) m) k = (if Q k then map_of m k else None)"
  by (induction m) auto

text \<open>The sorted form is canonical: two maps with the same lookups are the same list.\<close>

lemma map_ok_eqI:
  assumes "map_ok m" and "map_ok n" and "map_of m = map_of n"
  shows "m = n"
proof -
  have keys: "map fst m = map fst n"
  proof (rule sorted_distinct_set_unique)
    show "set (map fst m) = set (map fst n)"
      using assms(3) by (metis dom_map_of_conv_image_fst list.set_map)
  qed (use assms in \<open>auto simp: map_ok_def strict_sorted_iff\<close>)
  have "set m = set n"
    using assms by (simp add: map_ok_distinct map_of_inject_set [symmetric])
  then show ?thesis
    using keys map_ok_distinct [OF assms(1)]
    by (metis distinct_map inj_on_map_eq_map sup.idem)
qed

section \<open>Containment along a chain\<close>

text \<open>
  A containment check of one delegation hop: \<open>within p c\<close> says that the child's value \<open>c\<close>
  stays inside the parent's value \<open>p\<close>.  The law a check owes its clients is transitivity;
  a chain whose every hop passes the check is then contained end to end, between any two of
  its members and not only between neighbours.
\<close>

locale containment_order =
  fixes within :: "'a \<Rightarrow> 'a \<Rightarrow> bool"
  assumes within_trans: "within p c \<Longrightarrow> within c g \<Longrightarrow> within p g"
begin

lemma chain_sorted: "successively within xs \<Longrightarrow> sorted_wrt within xs"
proof -
  have "transp within" by (rule transpI) (rule within_trans)
  then show "successively within xs \<Longrightarrow> sorted_wrt within xs"
    by (simp add: successively_conv_sorted_wrt)
qed

lemma chain_within:
  "successively within xs \<Longrightarrow> i < j \<Longrightarrow> j < length xs \<Longrightarrow> within (xs ! i) (xs ! j)"
  by (blast dest: chain_sorted intro: sorted_wrt_nth_less)

lemma root_contains_leaf:
  assumes "successively within xs" and "2 \<le> length xs"
  shows "within (hd xs) (last xs)"
proof -
  from assms(2) have "xs \<noteq> []" by auto
  then have "hd xs = xs ! 0" and "last xs = xs ! (length xs - 1)"
    by (auto simp: hd_conv_nth last_conv_nth)
  with assms show ?thesis
    using chain_within [of xs 0 "length xs - 1"] by simp
qed

end

end
