(* ===== verification/Vaid_Json.thy ===== *)
theory Vaid_Json
  imports Vaid_Prelude
begin

text \<open>
  JSON values as \<^verbatim>\<open>serde_json::Value\<close> has them, the accessors the crates call on them, and
  the serde data model the derived \<^verbatim>\<open>Serialize\<close> and \<^verbatim>\<open>Deserialize\<close> implementations go through.

  A \<^verbatim>\<open>Value::Object\<close> is a \<^verbatim>\<open>BTreeMap\<close> (the workspace does not enable \<^verbatim>\<open>preserve_order\<close>): its
  members are sorted and unique, the invariant \<open>value_ok\<close>.  The text of a document is read as
  a tree that still has the members in presented order with duplicates; \<open>value_norm\<close> is
  what building a \<^verbatim>\<open>Value\<close> from such a tree does (last occurrence wins).
\<close>

datatype number = PosInt "64 word" | NegInt "64 word" | Float "64 word"

datatype json =
    Null
  | JBool bool
  | JNumber number
  | JString string
  | JArray "json list"
  | JObject "(string \<times> json) list"

section \<open>Accessors\<close>

fun as_str :: "json \<Rightarrow> string option" where
  "as_str (JString s) = Some s"
| "as_str _ = None"

fun is_string :: "json \<Rightarrow> bool" where
  "is_string (JString s) = True"
| "is_string _ = False"

fun as_bool :: "json \<Rightarrow> bool option" where
  "as_bool (JBool b) = Some b"
| "as_bool _ = None"

fun as_array :: "json \<Rightarrow> json list option" where
  "as_array (JArray vs) = Some vs"
| "as_array _ = None"

text \<open>\<^verbatim>\<open>Value::get\<close> and the indexing operator \<^verbatim>\<open>v["k"]\<close>, which gives \<^verbatim>\<open>Null\<close> for a missing member.\<close>

fun get_member :: "json \<Rightarrow> string \<Rightarrow> json option" where
  "get_member (JObject ms) k = map_of ms k"
| "get_member _ k = None"

definition index_member :: "json \<Rightarrow> string \<Rightarrow> json" where
  "index_member v k = (case get_member v k of Some w \<Rightarrow> w | None \<Rightarrow> Null)"

definition str_or_default :: "json \<Rightarrow> string" where
  "str_or_default v = (case as_str v of Some s \<Rightarrow> s | None \<Rightarrow> [])"

lemma is_string_iff: "is_string v \<longleftrightarrow> (\<exists>s. as_str v = Some s)"
  by (cases v) auto

lemma as_str_eq_Some [simp]: "as_str v = Some s \<longleftrightarrow> v = JString s"
  by (cases v) auto

lemma str_or_default_JString [simp]: "str_or_default (JString s) = s"
  by (simp add: str_or_default_def)

section \<open>Building a value from a presented tree\<close>

primrec value_norm :: "json \<Rightarrow> json" where
  "value_norm Null = Null"
| "value_norm (JBool b) = JBool b"
| "value_norm (JNumber n) = JNumber n"
| "value_norm (JString s) = JString s"
| "value_norm (JArray vs) = JArray (map value_norm vs)"
| "value_norm (JObject ms) = JObject (map_collect (map (map_prod id value_norm) ms))"

primrec value_ok :: "json \<Rightarrow> bool" where
  "value_ok Null = True"
| "value_ok (JBool b) = True"
| "value_ok (JNumber n) = True"
| "value_ok (JString s) = True"
| "value_ok (JArray vs) = list_all id (map value_ok vs)"
| "value_ok (JObject ms) = (map_ok ms \<and> list_all (\<lambda>m. snd m) (map (map_prod id value_ok) ms))"

lemma value_ok_JArray [simp]: "value_ok (JArray vs) \<longleftrightarrow> (\<forall>v \<in> set vs. value_ok v)"
  by (auto simp: list_all_iff)

lemma value_ok_JObject [simp]:
  "value_ok (JObject ms) \<longleftrightarrow> map_ok ms \<and> (\<forall>(k, v) \<in> set ms. value_ok v)"
  by (force simp: list_all_iff)

lemmas value_ok_nested = value_ok.simps(5,6)
declare value_ok_nested [simp del]

lemma map_collect_id: "map_ok m \<Longrightarrow> map_collect m = m"
  by (rule map_ok_eqI) (simp_all add: map_of_collect_distinct map_ok_distinct)

lemma value_norm_id: "value_ok v \<Longrightarrow> value_norm v = v"
proof (induction v)
  case (JArray vs)
  then show ?case by (simp add: list_all_iff map_idI)
next
  case (JObject ms)
  have "map (map_prod id value_norm) ms = ms"
    using JObject by (intro map_idI) (fastforce simp: list_all_iff)
  with JObject.prems show ?case by (simp add: map_collect_id)
qed simp_all

lemma set_map_collect: "set (map_collect kvs) \<subseteq> set kvs"
proof
  fix x assume "x \<in> set (map_collect kvs)"
  then have "map_of (map_collect kvs) (fst x) = Some (snd x)"
    by (simp add: map_ok_distinct)
  then show "x \<in> set kvs"
    by (metis map_of_SomeD map_of_collect prod.collapse set_rev)
qed

text \<open>Whatever the presented tree, the value built from it meets the map invariant.\<close>

lemma value_ok_norm [simp]: "value_ok (value_norm v)"
proof (induction v)
  case (JArray vs)
  then show ?case by (auto simp: list_all_iff)
next
  case (JObject ms)
  have "\<forall>x \<in> set (map_collect (map (map_prod id value_norm) ms)). value_ok (snd x)"
    using JObject set_map_collect [of "map (map_prod id value_norm) ms"] by fastforce
  then show ?case by (auto simp: list_all_iff)
qed simp_all

section \<open>Serde: leaf encodings and decodings\<close>

text \<open>\<^verbatim>\<open>u8\<close> is a non-negative integer; decoding refuses anything outside \<open>0..255\<close> and every float.\<close>

definition ser_u8 :: "u8 \<Rightarrow> json" where
  "ser_u8 b = JNumber (PosInt (ucast b))"

definition ser_bytes :: "bytes \<Rightarrow> json" where
  "ser_bytes bs = JArray (map ser_u8 bs)"

definition ser_strings :: "string list \<Rightarrow> json" where
  "ser_strings ss = JArray (map JString ss)"

fun de_u8 :: "json \<Rightarrow> u8 option" where
  "de_u8 (JNumber (PosInt n)) = (if n \<le> 255 then Some (ucast n) else None)"
| "de_u8 _ = None"

fun those :: "'a option list \<Rightarrow> 'a list option" where
  "those [] = Some []"
| "those (None # xs) = None"
| "those (Some x # xs) = map_option (Cons x) (those xs)"

definition de_vec :: "(json \<Rightarrow> 'a option) \<Rightarrow> json \<Rightarrow> 'a list option" where
  "de_vec de v = (case v of JArray vs \<Rightarrow> those (map de vs) | _ \<Rightarrow> None)"

text \<open>
  The derived visitor of a struct with the named fields: an object with unknown members ignored
  and a repeated field refused, or an array of exactly the fields in order.
\<close>

definition struct_fields :: "string list \<Rightarrow> json \<Rightarrow> (string \<Rightarrow> json option) option" where
  "struct_fields names v = (case v of
      JObject ms \<Rightarrow> if distinct (filter (\<lambda>k. k \<in> set names) (map fst ms)) then Some (map_of ms) else None
    | JArray vs \<Rightarrow> if length vs = length names then Some (map_of (zip names vs)) else None
    | _ \<Rightarrow> None)"

text \<open>An object collected from distinct fields is read back field by field.\<close>

lemma struct_fields_collect:
  assumes "map fst kvs = names" and "distinct names"
  shows "struct_fields names (JObject (map_collect kvs)) = Some (map_of kvs)"
  using assms by (auto simp: struct_fields_def map_of_collect_distinct map_ok_distinct intro: distinct_filter)

lemma those_eq_Some: "those xs = Some ys \<longleftrightarrow> xs = map Some ys"
  by (induction xs arbitrary: ys rule: those.induct) (auto simp: Cons_eq_map_conv)

lemma those_eq_None: "those xs = None \<longleftrightarrow> None \<in> set xs"
  by (induction xs rule: those.induct) auto

lemma unat_u8_lt: "unat (b :: u8) < 256"
  using unsigned_less [of b, where ?'a = nat] by simp

lemma unat_ucast_u8: "unat (ucast (b :: u8) :: 64 word) = unat b"
  using unat_u8_lt [of b] by (simp add: unsigned_ucast_eq take_bit_nat_eq_self)

lemma de_u8_ser [simp]: "de_u8 (ser_u8 b) = Some b"
proof -
  have "(ucast b :: 64 word) \<le> 255"
    using unat_u8_lt [of b] by (simp add: word_le_nat_alt unat_ucast_u8)
  moreover have "ucast (ucast b :: 64 word) = b"
    using unat_u8_lt [of b]
    by (intro word_unat_eq_iff [THEN iffD2])
       (simp add: unsigned_ucast_eq [where ?'a = nat] unat_ucast_u8 take_bit_nat_eq_self)
  ultimately show ?thesis by (simp add: ser_u8_def)
qed

lemma ser_de_u8: "de_u8 v = Some b \<Longrightarrow> ser_u8 b = v"
proof (induction v rule: de_u8.induct)
  case (1 n)
  then have n: "n \<le> 255" and b: "b = ucast n" by (auto split: if_splits)
  from n have "unat n < 256" by (simp add: word_le_nat_alt)
  then have "(ucast (ucast n :: u8) :: 64 word) = n"
    by (intro word_unat_eq_iff [THEN iffD2])
       (simp add: unsigned_ucast_eq [where ?'a = nat] take_bit_nat_eq_self)
  with b show ?case by (simp add: ser_u8_def)
qed simp_all

lemma de_vec_map:
  assumes "\<And>x. de (ser x) = Some x"
  shows "de_vec de (JArray (map ser xs)) = Some xs"
  using assms by (simp add: de_vec_def those_eq_Some comp_def)

lemma ser_de_vec:
  assumes "de_vec de v = Some xs" and "\<And>w x. w \<in> set (case v of JArray vs \<Rightarrow> vs | _ \<Rightarrow> []) \<Longrightarrow> de w = Some x \<Longrightarrow> ser x = w"
  shows "JArray (map ser xs) = v"
proof -
  from assms(1) obtain vs where v: "v = JArray vs" and vs: "map de vs = map Some xs"
    by (auto simp: de_vec_def those_eq_Some split: json.splits)
  have "map ser xs = vs"
  proof (rule nth_equalityI)
    show len: "length (map ser xs) = length vs" using vs by (metis length_map)
    fix i assume "i < length (map ser xs)"
    then have i: "i < length vs" "i < length xs" using len by auto
    with vs have "de (vs ! i) = Some (xs ! i)" by (metis nth_map)
    with i v show "map ser xs ! i = vs ! i" using assms(2) by simp
  qed
  with v show ?thesis by simp
qed

lemma de_bytes_ser [simp]: "de_vec de_u8 (ser_bytes bs) = Some bs"
  unfolding ser_bytes_def by (rule de_vec_map) simp

lemma ser_de_bytes: "de_vec de_u8 v = Some bs \<Longrightarrow> ser_bytes bs = v"
  unfolding ser_bytes_def by (erule ser_de_vec) (rule ser_de_u8)

lemma de_strings_ser [simp]: "de_vec as_str (ser_strings ss) = Some ss"
  unfolding ser_strings_def by (rule de_vec_map) simp

lemma ser_de_strings: "de_vec as_str v = Some ss \<Longrightarrow> ser_strings ss = v"
  unfolding ser_strings_def by (erule ser_de_vec) simp

lemma inj_ser_u8: "ser_u8 a = ser_u8 b \<longleftrightarrow> a = b"
  by (metis de_u8_ser option.inject)

lemma inj_ser_bytes [simp]: "ser_bytes a = ser_bytes b \<longleftrightarrow> a = b"
  by (metis de_bytes_ser option.inject)

lemma inj_ser_strings [simp]: "ser_strings a = ser_strings b \<longleftrightarrow> a = b"
  by (metis de_strings_ser option.inject)

lemma value_ok_ser_u8 [simp]: "value_ok (ser_u8 b)"
  by (simp add: ser_u8_def)

lemma value_ok_ser_bytes [simp]: "value_ok (ser_bytes bs)"
  by (simp add: ser_bytes_def list_all_iff)

lemma value_ok_ser_strings [simp]: "value_ok (ser_strings ss)"
  by (simp add: ser_strings_def list_all_iff)

end
