(* ===== verification/Vaid_External.thy ===== *)
theory Vaid_External
  imports Vaid_Json
begin

text \<open>
  The third-party crates the program calls, as one record of parameters that every definition
  depending on them takes as an argument: \<^verbatim>\<open>sha2\<close> (and \<^verbatim>\<open>ring::digest\<close>), \<^verbatim>\<open>serde_jcs\<close>,
  \<^verbatim>\<open>ring::signature\<close> (Ed25519), \<^verbatim>\<open>base64\<close>, \<^verbatim>\<open>uuid\<close>, \<^verbatim>\<open>chrono\<close> and the text parser of
  \<^verbatim>\<open>serde_json\<close>, with the Unicode case tables of the standard library.  None of them is defined here.  What the program relies on is stated as named
  predicates on the record (\<open>ed25519_correct\<close>, \<open>uuid_text_ok\<close>, \<open>rfc3339_ok\<close>, \<open>datetime_json_ok\<close>,
  \<open>datetime_text_ok\<close>), the documented behaviour of those crates, and \<open>demo_ext\<close> is a concrete record that satisfies
  all of them, used to evaluate the definitions on concrete inputs.

  An Ed25519 key pair is represented by the seed bytes it was loaded from.
\<close>

type_synonym keypair = bytes

record ext =
  ext_sha256 :: "bytes \<Rightarrow> bytes"
  ext_jcs :: "json \<Rightarrow> bytes"
  ext_from_seed :: "bytes \<Rightarrow> keypair option"
  ext_from_pkcs8 :: "bytes \<Rightarrow> keypair option"
  ext_public_key :: "keypair \<Rightarrow> bytes"
  ext_sign :: "keypair \<Rightarrow> bytes \<Rightarrow> bytes"
  ext_verify :: "bytes \<Rightarrow> bytes \<Rightarrow> bytes \<Rightarrow> bool"
  ext_base64url :: "bytes \<Rightarrow> string"
  ext_base64 :: "bytes \<Rightarrow> string"
  ext_uuid_parse :: "string \<Rightarrow> uuid option"
  ext_uuid_to_string :: "uuid \<Rightarrow> string"
  ext_parse_rfc3339 :: "string \<Rightarrow> instant option"
  ext_format_e6 :: "instant \<Rightarrow> string"
  ext_datetime_json :: "instant \<Rightarrow> string"
  ext_rfc3339_secs :: "instant \<Rightarrow> string"
  ext_to_uppercase :: "string \<Rightarrow> string"
  ext_parse_json :: "string \<Rightarrow> json option"
  ext_parse_datetime :: "string \<Rightarrow> instant option"

section \<open>What the program relies on\<close>

text \<open>A signature made with a key pair verifies under its public key (RFC 8032).\<close>

definition ed25519_correct :: "ext \<Rightarrow> bool" where
  "ed25519_correct E \<longleftrightarrow> (\<forall>kp m. ext_verify E (ext_public_key E kp) m (ext_sign E kp m))"

text \<open>\<^verbatim>\<open>Uuid::parse_str\<close> reads back what \<^verbatim>\<open>Uuid::to_string\<close> prints.\<close>

definition uuid_text_ok :: "ext \<Rightarrow> bool" where
  "uuid_text_ok E \<longleftrightarrow> (\<forall>u. ext_uuid_parse E (ext_uuid_to_string E u) = Some u)"

text \<open>
  \<^verbatim>\<open>%Y-%m-%dT%H:%M:%SZ\<close> prints whole seconds in twenty characters, and the result is RFC 3339
  for the years 0 to 9999 (outside them \<^verbatim>\<open>%Y\<close> prints a sign).
\<close>

definition e6_shape :: "string \<Rightarrow> bool" where
  "e6_shape s \<longleftrightarrow>
     list_all2 (\<lambda>c p. if p = CHR ''d'' then is_ascii_digit c else c = p) s ''dddd-dd-ddTdd:dd:ddZ''"

definition e6_range :: "instant \<Rightarrow> bool" where
  "e6_range t \<longleftrightarrow> - 62167219200 * nanos_per_sec \<le> t \<and> t < 253402300800 * nanos_per_sec"

definition rfc3339_ok :: "ext \<Rightarrow> bool" where
  "rfc3339_ok E \<longleftrightarrow>
     (\<forall>t. e6_range t \<longrightarrow>
        e6_shape (ext_format_e6 E t) \<and> ext_parse_rfc3339 E (ext_format_e6 E t) = Some (trunc_secs t))"

text \<open>
  \<^verbatim>\<open>DateTime<Utc>\<close> serializes with exactly the sub-second digits it carries: distinct instants print
  differently, and a whole second prints as \<^verbatim>\<open>to_rfc3339_opts(Secs, true)\<close> does and reads back.
\<close>

definition datetime_json_ok :: "ext \<Rightarrow> bool" where
  "datetime_json_ok E \<longleftrightarrow>
     inj_on (ext_datetime_json E) {t. e6_range t} \<and>
     (\<forall>t. e6_range t \<and> trunc_secs t = t \<longrightarrow>
        ext_rfc3339_secs E t = ext_datetime_json E t \<and> ext_parse_rfc3339 E (ext_rfc3339_secs E t) = Some t)"

text \<open>The serialized form of an instant is read back to it, sub-second digits included.\<close>

definition datetime_text_ok :: "ext \<Rightarrow> bool" where
  "datetime_text_ok E \<longleftrightarrow> (\<forall>t. e6_range t \<longrightarrow> ext_parse_datetime E (ext_datetime_json E t) = Some t)"

text \<open>Two values are told apart by their canonical digest.\<close>

definition no_collision :: "ext \<Rightarrow> json \<Rightarrow> json \<Rightarrow> bool" where
  "no_collision E v w \<longleftrightarrow> (ext_sha256 E (ext_jcs E v) = ext_sha256 E (ext_jcs E w) \<longrightarrow> v = w)"

lemma ed25519_correctD: "ed25519_correct E \<Longrightarrow> ext_verify E (ext_public_key E kp) m (ext_sign E kp m)"
  by (simp add: ed25519_correct_def)

lemma uuid_text_okD: "uuid_text_ok E \<Longrightarrow> ext_uuid_parse E (ext_uuid_to_string E u) = Some u"
  by (simp add: uuid_text_ok_def)

lemma uuid_text_inj: "uuid_text_ok E \<Longrightarrow> ext_uuid_to_string E u = ext_uuid_to_string E v \<longleftrightarrow> u = v"
  by (metis uuid_text_okD option.inject)

lemma rfc3339_okD:
  "rfc3339_ok E \<Longrightarrow> e6_range t \<Longrightarrow> ext_parse_rfc3339 E (ext_format_e6 E t) = Some (trunc_secs t)"
  by (simp add: rfc3339_ok_def)

lemma rfc3339_ok_shapeD: "rfc3339_ok E \<Longrightarrow> e6_range t \<Longrightarrow> e6_shape (ext_format_e6 E t)"
  by (simp add: rfc3339_ok_def)

section \<open>Serialized identifiers and instants\<close>

definition ser_uuid :: "ext \<Rightarrow> uuid \<Rightarrow> json" where
  "ser_uuid E u = JString (ext_uuid_to_string E u)"

definition de_uuid :: "ext \<Rightarrow> json \<Rightarrow> uuid option" where
  "de_uuid E v = as_str v \<bind> ext_uuid_parse E"

definition ser_datetime :: "ext \<Rightarrow> instant \<Rightarrow> json" where
  "ser_datetime E t = JString (ext_datetime_json E t)"

text \<open>\<^verbatim>\<open>DateTime<Utc>\<close> is read back by chrono's own, more lenient, text parser.\<close>

definition de_datetime :: "ext \<Rightarrow> json \<Rightarrow> instant option" where
  "de_datetime E v = as_str v \<bind> ext_parse_datetime E"

lemma de_ser_uuid [simp]: "uuid_text_ok E \<Longrightarrow> de_uuid E (ser_uuid E u) = Some u"
  by (simp add: de_uuid_def ser_uuid_def uuid_text_ok_def)

lemma de_ser_datetime [simp]: "datetime_text_ok E \<Longrightarrow> e6_range t \<Longrightarrow> de_datetime E (ser_datetime E t) = Some t"
  by (simp add: de_datetime_def ser_datetime_def datetime_text_ok_def)

lemma ser_uuid_inj: "uuid_text_ok E \<Longrightarrow> ser_uuid E u = ser_uuid E v \<longleftrightarrow> u = v"
  by (simp add: ser_uuid_def uuid_text_inj)

lemma ser_datetime_inj:
  "datetime_json_ok E \<Longrightarrow> e6_range s \<Longrightarrow> e6_range t \<Longrightarrow> ser_datetime E s = ser_datetime E t \<longleftrightarrow> s = t"
  by (auto simp: ser_datetime_def datetime_json_ok_def dest: inj_onD)

section \<open>A concrete instance\<close>

text \<open>Fixed-width decimal numbers, for the timestamps of the instance.\<close>

fun dec_digits :: "nat \<Rightarrow> nat \<Rightarrow> string" where
  "dec_digits 0 n = []"
| "dec_digits (Suc w) n = dec_digits w (n div 10) @ [char_of (48 + n mod 10)]"

definition dec_value :: "string \<Rightarrow> nat" where
  "dec_value s = foldl (\<lambda>a c. 10 * a + (of_char c - 48)) 0 s"

lemma dec_value_digits: "n < 10 ^ w \<Longrightarrow> dec_value (dec_digits w n) = n"
proof (induction w arbitrary: n)
  case 0
  then show ?case by (simp add: dec_value_def)
next
  case (Suc w)
  then have "n div 10 < 10 ^ w" by (simp add: less_mult_imp_div_less)
  with Suc.IH have "dec_value (dec_digits w (n div 10)) = n div 10" by blast
  moreover have "(of_char (char_of (48 + n mod 10)) :: nat) = 48 + n mod 10"
    by (simp add: of_char_of)
  ultimately show ?case by (simp add: dec_value_def)
qed

text \<open>The fourteen digits of a second count, laid out in the E.6 shape.\<close>

definition demo_layout :: "string \<Rightarrow> string" where
  "demo_layout b = take 4 b @ ''-'' @ take 2 (drop 4 b) @ ''-'' @ take 2 (drop 6 b) @ ''T'' @
     take 2 (drop 8 b) @ '':'' @ take 2 (drop 10 b) @ '':'' @ drop 12 b @ ''Z''"

definition demo_digits :: "string \<Rightarrow> string" where
  "demo_digits s = take 4 s @ take 2 (drop 5 s) @ take 2 (drop 8 s) @ take 2 (drop 11 s) @
     take 2 (drop 14 s) @ take 2 (drop 17 s)"

definition demo_format :: "instant \<Rightarrow> string" where
  "demo_format t = demo_layout (dec_digits 14 (nat (t div nanos_per_sec + 62167219200)))"

text \<open>The serialized form: the nine digits of the nanoseconds follow when there are any.\<close>

definition demo_datetime :: "instant \<Rightarrow> string" where
  "demo_datetime t = demo_format t @
     (if t mod nanos_per_sec = 0 then [] else CHR ''.'' # dec_digits 9 (nat (t mod nanos_per_sec)))"

definition ascii_upper :: "char \<Rightarrow> char" where
  "ascii_upper c = (if is_ascii_lowercase c then char_of (of_char c - 32 :: nat) else c)"

definition demo_parse :: "string \<Rightarrow> instant option" where
  "demo_parse s = (if length s = 20
     then Some ((int (dec_value (demo_digits s)) - 62167219200) * nanos_per_sec) else None)"

definition demo_parse_datetime :: "string \<Rightarrow> instant option" where
  "demo_parse_datetime s = map_option (\<lambda>t. t + int (dec_value (drop 21 s))) (demo_parse (take 20 s))"

definition string_of_bytes :: "bytes \<Rightarrow> string" where
  "string_of_bytes bs = map (\<lambda>b. char_of (unat b)) bs"

text \<open>A tagged prefix encoding of values, which tells values apart by their structure.\<close>

fun demo_number :: "number \<Rightarrow> bytes" where
  "demo_number (PosInt w) = [1, ucast w]"
| "demo_number (NegInt w) = [2, ucast w]"
| "demo_number (Float w) = [3, ucast w]"

primrec demo_jcs :: "json \<Rightarrow> bytes" where
  "demo_jcs Null = [0]"
| "demo_jcs (JBool b) = [1, if b then 1 else 0]"
| "demo_jcs (JNumber n) = 2 # demo_number n"
| "demo_jcs (JString s) = 3 # word_of_nat (length s) # bytes_of_string s"
| "demo_jcs (JArray vs) = 4 # word_of_nat (length vs) # concat (map demo_jcs vs)"
| "demo_jcs (JObject ms) = 5 # word_of_nat (length ms) #
     concat (map (\<lambda>(k, b). word_of_nat (length k) # bytes_of_string k @ b)
       (map (map_prod id demo_jcs) ms))"

definition demo_ext :: ext where
  "demo_ext = \<lparr>
     ext_sha256 = id,
     ext_jcs = demo_jcs,
     ext_from_seed = (\<lambda>s. if length s = 32 then Some s else None),
     ext_from_pkcs8 = (\<lambda>s. if s \<noteq> [] then Some s else None),
     ext_public_key = (\<lambda>kp. 80 # kp),
     ext_sign = (\<lambda>kp m. 80 # kp @ m),
     ext_verify = (\<lambda>pk m sig. sig = pk @ m),
     ext_base64url = string_of_bytes,
     ext_base64 = string_of_bytes,
     ext_uuid_parse = (\<lambda>s. if s \<noteq> [] \<and> list_all (\<lambda>c. c = CHR ''u'') (tl s)
                            then Some (word_of_nat (length s - 1)) else None),
     ext_uuid_to_string = (\<lambda>u. CHR ''U'' # replicate (unat u) CHR ''u''),
     ext_parse_rfc3339 = demo_parse,
     ext_format_e6 = demo_format,
     ext_datetime_json = demo_datetime,
     ext_rfc3339_secs = demo_format,
     ext_to_uppercase = map ascii_upper,
     ext_parse_json = (\<lambda>s. None),
     ext_parse_datetime = demo_parse_datetime\<rparr>"

lemma demo_ed25519_correct: "ed25519_correct demo_ext"
  by (simp add: ed25519_correct_def demo_ext_def)

lemma demo_uuid_text_ok: "uuid_text_ok demo_ext"
  by (simp add: uuid_text_ok_def demo_ext_def list_all_iff)

lemma length_dec_digits [simp]: "length (dec_digits w n) = w"
  by (induction w arbitrary: n) simp_all

lemma dec_digits_digit: "c \<in> set (dec_digits w n) \<Longrightarrow> is_ascii_digit c"
proof (induction w arbitrary: n)
  case (Suc w)
  have "is_ascii_digit (char_of (48 + k))" if "k < 10" for k :: nat
    using that by (simp add: is_ascii_digit_def less_eq_char_def of_char_of)
  with Suc show ?case by auto
qed simp

lemma list_14:
  "length b = 14 \<Longrightarrow> \<exists>b0 b1 b2 b3 b4 b5 b6 b7 b8 b9 b10 b11 b12 b13.
     b = [b0, b1, b2, b3, b4, b5, b6, b7, b8, b9, b10, b11, b12, b13]"
  by (auto simp: numeral_eq_Suc length_Suc_conv)

lemma demo_layout_inverse:
  assumes "length b = 14" and "\<forall>c \<in> set b. is_ascii_digit c"
  shows "length (demo_layout b) = 20 \<and> demo_digits (demo_layout b) = b \<and> e6_shape (demo_layout b)"
  using list_14 [OF assms(1)] assms(2)
  by (auto simp: demo_layout_def demo_digits_def e6_shape_def)

lemma demo_format_facts:
  assumes "e6_range t"
  shows "length (demo_format t) = 20 \<and> e6_shape (demo_format t) \<and>
     demo_parse (demo_format t) = Some (trunc_secs t)"
proof -
  let ?s = "t div nanos_per_sec"
  let ?b = "dec_digits 14 (nat (?s + 62167219200))"
  have lo: "- 62167219200 \<le> ?s" and hi: "?s < 253402300800"
    using assms by (simp_all add: e6_range_def nanos_per_sec_def div_int_pos_iff) linarith+
  then have "dec_value ?b = nat (?s + 62167219200)"
    by (intro dec_value_digits) simp
  moreover have "length (demo_layout ?b) = 20 \<and> demo_digits (demo_layout ?b) = ?b \<and>
      e6_shape (demo_layout ?b)"
    by (rule demo_layout_inverse) (auto intro: dec_digits_digit)
  ultimately show ?thesis
    using lo by (simp add: demo_parse_def demo_format_def trunc_secs_def)
qed

lemma demo_rfc3339_ok: "rfc3339_ok demo_ext"
  using demo_format_facts by (simp add: rfc3339_ok_def demo_ext_def)

lemma demo_datetime_nanos:
  "e6_range t \<Longrightarrow> nat (t mod nanos_per_sec) = dec_value (drop 21 (demo_datetime t))"
proof -
  assume t: "e6_range t"
  have "0 \<le> t mod nanos_per_sec" and "t mod nanos_per_sec < 1000000000"
    using pos_mod_sign [of nanos_per_sec t] pos_mod_bound [of nanos_per_sec t]
    by (simp_all add: nanos_per_sec_def)
  then have "dec_value (dec_digits 9 (nat (t mod nanos_per_sec))) = nat (t mod nanos_per_sec)"
    by (intro dec_value_digits) simp
  with demo_format_facts [OF t] show ?thesis
    by (auto simp: demo_datetime_def dec_value_def)
qed

lemma demo_datetime_inj: "inj_on demo_datetime {t. e6_range t}"
proof (rule inj_onI)
  fix s t assume s: "s \<in> {t. e6_range t}" and t: "t \<in> {t. e6_range t}"
    and eq: "demo_datetime s = demo_datetime t"
  have "take 20 (demo_datetime s) = demo_format s" and "take 20 (demo_datetime t) = demo_format t"
    using s t demo_format_facts by (simp_all add: demo_datetime_def)
  with eq have "demo_format s = demo_format t" by metis
  with s t demo_format_facts have "trunc_secs s = trunc_secs t" by (metis mem_Collect_eq option.inject)
  moreover have "nat (s mod nanos_per_sec) = nat (t mod nanos_per_sec)"
    using s t eq by (simp add: demo_datetime_nanos)
  then have "s mod nanos_per_sec = t mod nanos_per_sec"
    using pos_mod_sign [of nanos_per_sec s] pos_mod_sign [of nanos_per_sec t]
    by (simp add: nanos_per_sec_def)
  ultimately show "s = t"
    unfolding trunc_secs_def by (metis div_mult_mod_eq)
qed

lemma demo_datetime_json_ok: "datetime_json_ok demo_ext"
proof -
  have "demo_datetime t = demo_format t" if "trunc_secs t = t" for t
  proof -
    have "t mod nanos_per_sec = 0" using that unfolding trunc_secs_def by (metis mod_mult_self2_is_0)
    then show ?thesis by (simp add: demo_datetime_def)
  qed
  with demo_format_facts demo_datetime_inj show ?thesis
    by (auto simp: datetime_json_ok_def demo_ext_def)
qed

lemma demo_datetime_text_ok: "datetime_text_ok demo_ext"
proof -
  have "demo_parse_datetime (demo_datetime t) = Some t" if t: "e6_range t" for t
  proof -
    have "take 20 (demo_datetime t) = demo_format t"
      using demo_format_facts [OF t] by (simp add: demo_datetime_def)
    moreover have "int (dec_value (drop 21 (demo_datetime t))) = t mod nanos_per_sec"
      using demo_datetime_nanos [OF t] pos_mod_sign [of nanos_per_sec t] by (simp add: nanos_per_sec_def)
    ultimately show ?thesis
      using demo_format_facts [OF t] by (simp add: demo_parse_datetime_def trunc_secs_def)
  qed
  then show ?thesis by (simp add: datetime_text_ok_def demo_ext_def)
qed

lemmas demo_laws = demo_ed25519_correct demo_uuid_text_ok demo_rfc3339_ok demo_datetime_json_ok
  demo_datetime_text_ok

end
