(* ===== verification/Vaid_Scope.thy ===== *)
theory Vaid_Scope
  imports Vaid_External
begin

text \<open>
  Scope boundaries and capability sets (\<^verbatim>\<open>crates/vaid-mint/src/document.rs\<close>, the part from
  \<^verbatim>\<open>SCOPE_SEPARATORS\<close> to \<^verbatim>\<open>caps_contain\<close>): the typed boundary entry, its shape rule and its
  \<^verbatim>\<open>Deserialize\<close>, the one matcher \<^verbatim>\<open>scope_contains\<close> and the exact-membership matcher of
  capabilities.  The lemmas say what a boundary grants: the matcher refuses a boundary it
  cannot read as a whole, containment is cut at a separator, and it is transitive.
\<close>

section \<open>Entries\<close>

definition SCOPE_SEPARATORS :: "char list" where
  "SCOPE_SEPARATORS = [CHR ''/'', CHR ''.'']"

definition SCOPE_KIND_PREFIX :: string where
  "SCOPE_KIND_PREFIX = ''prefix''"

definition RECOGNISED_SCOPE_KINDS :: "string list" where
  "RECOGNISED_SCOPE_KINDS = [SCOPE_KIND_PREFIX]"

record scope_entry =
  se_kind :: string
  se_value :: json

text \<open>\<^verbatim>\<open>ScopeBoundaryEntry::prefix\<close>, also the conversions from \<^verbatim>\<open>&str\<close> and \<^verbatim>\<open>String\<close>.\<close>

definition prefix_entry :: "string \<Rightarrow> scope_entry" where
  "prefix_entry v = \<lparr>se_kind = SCOPE_KIND_PREFIX, se_value = JString v\<rparr>"

datatype shape_error = EmptyKind | PrefixValueNotString

definition validate_scope_entry :: "string \<Rightarrow> json \<Rightarrow> shape_error + unit" where
  "validate_scope_entry kind val =
     (if kind = [] then Inl EmptyKind
      else if kind = SCOPE_KIND_PREFIX \<and> \<not> is_string val then Inl PrefixValueNotString
      else Inr ())"

definition scope_entry_new :: "string \<Rightarrow> json \<Rightarrow> shape_error + scope_entry" where
  "scope_entry_new kind val =
     (case validate_scope_entry kind val of
        Inl e \<Rightarrow> Inl e
      | Inr _ \<Rightarrow> Inr \<lparr>se_kind = kind, se_value = val\<rparr>)"

text \<open>Comparison of an entry with a bare string.\<close>

definition entry_eq_str :: "scope_entry \<Rightarrow> string \<Rightarrow> bool" where
  "entry_eq_str e s = (se_kind e = SCOPE_KIND_PREFIX \<and> as_str (se_value e) = Some s)"

text \<open>
  \<^verbatim>\<open>Serialize\<close> and \<^verbatim>\<open>Deserialize\<close>.  The private struct \<^verbatim>\<open>Raw\<close> denies unknown members and a
  repeated one; like every derived struct visitor of serde it is offered the elements of a JSON
  array too, in field order, which is the second equation.
\<close>

definition ser_scope_entry :: "scope_entry \<Rightarrow> json" where
  "ser_scope_entry e = JObject (map_collect [(''kind'', JString (se_kind e)), (''value'', se_value e)])"

definition raw_entry :: "json \<Rightarrow> (string \<times> json) option" where
  "raw_entry v = (case v of
      JObject ms \<Rightarrow>
        (if distinct (map fst ms) \<and> list_all (\<lambda>m. fst m = ''kind'' \<or> fst m = ''value'') ms
         then do { k \<leftarrow> map_of ms ''kind''; kind \<leftarrow> as_str k; val \<leftarrow> map_of ms ''value'';
                   Some (kind, value_norm val) }
         else None)
    | JArray [k, val] \<Rightarrow> do { kind \<leftarrow> as_str k; Some (kind, value_norm val) }
    | _ \<Rightarrow> None)"

definition de_scope_entry :: "json \<Rightarrow> scope_entry option" where
  "de_scope_entry v =
     do { (kind, val) \<leftarrow> raw_entry v;
          (case validate_scope_entry kind val of
             Inl _ \<Rightarrow> None
           | Inr _ \<Rightarrow> Some \<lparr>se_kind = kind, se_value = val\<rparr>) }"

section \<open>Matching\<close>

definition prefix_contains :: "string \<Rightarrow> string \<Rightarrow> bool" where
  "prefix_contains pre resource =
     (if pre = [] then True
      else if resource = pre then True
      else if list_ex (\<lambda>sep. ends_with_char pre sep) SCOPE_SEPARATORS then starts_with resource pre
      else list_ex (\<lambda>sep. starts_with resource (pre @ [sep])) SCOPE_SEPARATORS)"

definition entry_contains :: "scope_entry \<Rightarrow> string \<Rightarrow> bool option" where
  "entry_contains e resource =
     (if se_kind e = SCOPE_KIND_PREFIX
      then map_option (\<lambda>p. prefix_contains p resource) (as_str (se_value e))
      else None)"

definition entry_claimed_resource :: "scope_entry \<Rightarrow> string option" where
  "entry_claimed_resource e = (if se_kind e = SCOPE_KIND_PREFIX then as_str (se_value e) else None)"

definition entry_is_evaluable :: "scope_entry \<Rightarrow> bool" where
  "entry_is_evaluable e = (entry_contains e [] \<noteq> None)"

definition boundary_is_evaluable :: "scope_entry list \<Rightarrow> bool" where
  "boundary_is_evaluable b = list_all entry_is_evaluable b"

text \<open>The loop of \<^verbatim>\<open>scope_contains\<close>: \<^term>\<open>None\<close> is its early \<^verbatim>\<open>return false\<close>.\<close>

fun scope_walk :: "bool \<Rightarrow> scope_entry list \<Rightarrow> string \<Rightarrow> bool option" where
  "scope_walk found [] resource = Some found"
| "scope_walk found (e # es) resource =
     (case entry_contains e resource of
        None \<Rightarrow> None
      | Some True \<Rightarrow> scope_walk True es resource
      | Some False \<Rightarrow> scope_walk found es resource)"

definition scope_contains :: "scope_entry list \<Rightarrow> string \<Rightarrow> bool" where
  "scope_contains b resource =
     (case scope_walk False b resource of
        None \<Rightarrow> False
      | Some found \<Rightarrow> b = [] \<or> found)"

definition caps_contain :: "string list \<Rightarrow> string \<Rightarrow> bool" where
  "caps_contain caps cap = list_ex (\<lambda>c. c = cap) caps"

lemmas scope_eval = SCOPE_SEPARATORS_def SCOPE_KIND_PREFIX_def RECOGNISED_SCOPE_KINDS_def
  prefix_entry_def prefix_contains_def entry_contains_def entry_claimed_resource_def
  entry_is_evaluable_def boundary_is_evaluable_def scope_contains_def caps_contain_def
  ends_with_char_def

section \<open>Lemmas\<close>

definition is_separator :: "char \<Rightarrow> bool" where
  "is_separator c = (c \<in> set SCOPE_SEPARATORS)"

text \<open>
  The rule in one formula: a non-empty prefix contains itself and every extension cut next to
  a separator, either the last character of the prefix or the first character after it.
\<close>

lemma prefix_contains_iff:
  "prefix_contains p r \<longleftrightarrow>
     p = [] \<or> r = p \<or> (\<exists>q. q \<noteq> [] \<and> r = p @ q \<and> (is_separator (last p) \<or> is_separator (hd q)))"
    (is "_ \<longleftrightarrow> _ \<or> _ \<or> ?ext")
proof (cases "p = [] \<or> r = p")
  case True
  then show ?thesis by (auto simp: prefix_contains_def)
next
  case False
  have cut: "(\<exists>q. q \<noteq> [] \<and> r = p @ q \<and> is_separator (hd q)) \<longleftrightarrow>
      list_ex (\<lambda>sep. starts_with r (p @ [sep])) SCOPE_SEPARATORS"
    by (auto simp: list_ex_iff starts_with_def prefix_def is_separator_def neq_Nil_conv)
  have trail: "list_ex (ends_with_char p) SCOPE_SEPARATORS \<longleftrightarrow> is_separator (last p)"
    using False by (auto simp: list_ex_iff ends_with_char_def is_separator_def)
  show ?thesis
  proof (cases "is_separator (last p)")
    case True
    with False trail show ?thesis
      by (auto simp: prefix_contains_def starts_with_def prefix_def)
  next
    case nosep: False
    with False cut trail show ?thesis by (simp add: prefix_contains_def)
  qed
qed

lemma prefix_contains_refl [simp]: "prefix_contains p p"
  by (simp add: prefix_contains_iff)

lemma prefix_contains_starts: "prefix_contains p r \<Longrightarrow> starts_with r p"
  by (auto simp: prefix_contains_iff starts_with_def prefix_def)

lemma prefix_contains_trans:
  assumes "prefix_contains p c" and "prefix_contains c r"
  shows "prefix_contains p r"
proof -
  from prefix_contains_starts [OF assms(2)] obtain t where r: "r = c @ t"
    by (auto simp: starts_with_def prefix_def)
  from assms(1) consider "p = []" | "c = p"
    | q where "q \<noteq> []" "c = p @ q" "is_separator (last p) \<or> is_separator (hd q)"
    by (auto simp: prefix_contains_iff)
  then show ?thesis
  proof cases
    case 1
    then show ?thesis by (simp add: prefix_contains_iff)
  next
    case 2
    with assms(2) show ?thesis by simp
  next
    case 3
    with r have "r = p @ (q @ t)" and "q @ t \<noteq> []" and "hd (q @ t) = hd q" by auto
    with 3 show ?thesis by (metis prefix_contains_iff)
  qed
qed

lemma prefix_contains_Nil: "prefix_contains p [] \<longleftrightarrow> p = []"
  by (auto simp: prefix_contains_iff)

text \<open>Whether an entry can be evaluated depends on the entry alone, never on the resource.\<close>

lemma entry_contains_None: "entry_contains e r = None \<longleftrightarrow> \<not> entry_is_evaluable e"
  by (auto simp: entry_contains_def entry_is_evaluable_def)

lemma entry_is_evaluable_iff:
  "entry_is_evaluable e \<longleftrightarrow> (\<exists>p. e = prefix_entry p)"
  by (cases e) (auto simp: entry_is_evaluable_def entry_contains_def prefix_entry_def)

lemma entry_contains_prefix [simp]: "entry_contains (prefix_entry p) r = Some (prefix_contains p r)"
  by (simp add: entry_contains_def prefix_entry_def)

lemma entry_claimed_prefix [simp]: "entry_claimed_resource (prefix_entry p) = Some p"
  by (simp add: entry_claimed_resource_def prefix_entry_def)

lemma entry_claimed_Some: "entry_claimed_resource e = Some p \<longleftrightarrow> e = prefix_entry p"
  by (cases e) (auto simp: entry_claimed_resource_def prefix_entry_def)

lemma prefix_entry_inject [simp]: "prefix_entry p = prefix_entry q \<longleftrightarrow> p = q"
  by (simp add: prefix_entry_def)

lemma boundary_evaluable_prefixes:
  "boundary_is_evaluable b \<longleftrightarrow> (\<exists>ps. b = map prefix_entry ps)"
proof
  assume "boundary_is_evaluable b"
  then have "\<forall>e \<in> set b. e \<in> range prefix_entry"
    by (auto simp: boundary_is_evaluable_def list_all_iff entry_is_evaluable_iff)
  then show "\<exists>ps. b = map prefix_entry ps" by (simp add: subset_image_iff ex_map_conv image_iff)
next
  assume "\<exists>ps. b = map prefix_entry ps"
  then show "boundary_is_evaluable b"
    by (auto simp: boundary_is_evaluable_def list_all_iff entry_is_evaluable_iff)
qed

lemma scope_walk_prefixes:
  "scope_walk c (map prefix_entry ps) r = Some (c \<or> (\<exists>p \<in> set ps. prefix_contains p r))"
  by (induction ps arbitrary: c) (auto split: bool.splits)

lemma scope_walk_None: "scope_walk c b r = None \<longleftrightarrow> \<not> boundary_is_evaluable b"
proof (induction b arbitrary: c)
  case (Cons e es)
  then show ?case
    using entry_contains_None [of e r]
    by (cases "entry_contains e r") (auto simp: boundary_is_evaluable_def split: bool.splits)
qed (simp add: boundary_is_evaluable_def)

text \<open>
  The whole behaviour of the matcher: an unreadable entry refuses every resource, an empty
  boundary admits every resource, and otherwise some entry must contain the resource.
\<close>

lemma scope_contains_prefixes:
  "scope_contains (map prefix_entry ps) r \<longleftrightarrow> ps = [] \<or> (\<exists>p \<in> set ps. prefix_contains p r)"
  by (simp add: scope_contains_def scope_walk_prefixes)

lemma scope_contains_empty [simp]: "scope_contains [] r"
  by (simp add: scope_contains_def)

lemma scope_contains_iff:
  "scope_contains b r \<longleftrightarrow>
     boundary_is_evaluable b \<and> (b = [] \<or> (\<exists>e \<in> set b. entry_contains e r = Some True))"
proof (cases "boundary_is_evaluable b")
  case True
  then obtain ps where "b = map prefix_entry ps" by (auto simp: boundary_evaluable_prefixes)
  with True show ?thesis by (auto simp: scope_contains_prefixes)
next
  case False
  then have "scope_walk False b r = None" by (simp add: scope_walk_None)
  with False show ?thesis by (simp add: scope_contains_def)
qed

lemma caps_contain_iff [simp]: "caps_contain caps c \<longleftrightarrow> c \<in> set caps"
  by (auto simp: caps_contain_def list_ex_iff)

section \<open>The entry codec\<close>

definition entry_ok :: "scope_entry \<Rightarrow> bool" where
  "entry_ok e \<longleftrightarrow> validate_scope_entry (se_kind e) (se_value e) = Inr () \<and> value_ok (se_value e)"

lemma ser_scope_entry_members:
  "ser_scope_entry e = JObject [(''kind'', JString (se_kind e)), (''value'', se_value e)]"
  by (simp add: ser_scope_entry_def map_collect_def)

lemma de_ser_scope_entry: "entry_ok e \<Longrightarrow> de_scope_entry (ser_scope_entry e) = Some e"
  by (simp add: de_scope_entry_def raw_entry_def ser_scope_entry_members entry_ok_def value_norm_id
        Option.bind_eq_Some_conv)

lemma de_scope_entry_Some:
  "de_scope_entry v = Some e \<longleftrightarrow>
     raw_entry v = Some (se_kind e, se_value e) \<and> validate_scope_entry (se_kind e) (se_value e) = Inr ()"
  by (cases e; cases "raw_entry v")
     (auto simp: de_scope_entry_def split: sum.split unit.split prod.split)

lemma raw_entry_JObject:
  "raw_entry (JObject ms) = Some (k, val) \<longleftrightarrow>
     distinct (map fst ms) \<and> (\<forall>m \<in> set ms. fst m = ''kind'' \<or> fst m = ''value'') \<and>
     map_of ms ''kind'' = Some (JString k) \<and>
     (\<exists>w. map_of ms ''value'' = Some w \<and> val = value_norm w)"
  by (auto simp: raw_entry_def list_all_iff Option.bind_eq_Some_conv)

lemma raw_entry_value_ok: "raw_entry v = Some (k, val) \<Longrightarrow> value_ok val"
  by (auto simp: raw_entry_def Option.bind_eq_Some_conv split: json.splits list.splits if_splits)

lemma de_scope_entry_ok: "de_scope_entry v = Some e \<Longrightarrow> entry_ok e"
  by (auto simp: de_scope_entry_Some entry_ok_def dest: raw_entry_value_ok)

lemma scope_entry_new_ok: "scope_entry_new k v = Inr e \<Longrightarrow> value_ok v \<Longrightarrow> entry_ok e"
  by (auto simp: scope_entry_new_def entry_ok_def split: sum.splits)

lemma prefix_entry_ok [simp]: "entry_ok (prefix_entry p)"
  by (simp add: entry_ok_def prefix_entry_def validate_scope_entry_def SCOPE_KIND_PREFIX_def)

lemma value_ok_ser_entry: "entry_ok e \<Longrightarrow> value_ok (ser_scope_entry e)"
  by (simp add: ser_scope_entry_members entry_ok_def value_ok_JObject map_ok_def)

lemma inj_ser_scope_entry [simp]: "ser_scope_entry a = ser_scope_entry b \<longleftrightarrow> a = b"
  by (cases a; cases b) (auto simp: ser_scope_entry_members)

text \<open>An entry presented as an object is reproduced exactly by parsing and re-serializing.\<close>

definition is_object :: "json \<Rightarrow> bool" where
  "is_object v = (case v of JObject ms \<Rightarrow> True | _ \<Rightarrow> False)"

lemma ser_de_scope_entry:
  assumes de: "de_scope_entry v = Some e" and ok: "value_ok v" and obj: "is_object v"
  shows "ser_scope_entry e = v"
proof -
  from obj obtain ms where v: "v = JObject ms" by (auto simp: is_object_def split: json.splits)
  with de obtain val where
      keys: "\<forall>m \<in> set ms. fst m = ''kind'' \<or> fst m = ''value''"
    and kind: "map_of ms ''kind'' = Some (JString (se_kind e))"
    and val: "map_of ms ''value'' = Some val" and norm: "se_value e = value_norm val"
    by (auto simp: de_scope_entry_Some raw_entry_JObject)
  from ok v have ms: "map_ok ms" and "\<forall>(k, w) \<in> set ms. value_ok w"
    by (auto simp: value_ok_JObject)
  with val have "value_norm val = val" by (intro value_norm_id) (auto dest: map_of_SomeD)
  with norm val have val': "map_of ms ''value'' = Some (se_value e)" by simp
  have "ms = [(''kind'', JString (se_kind e)), (''value'', se_value e)]"
  proof (rule map_ok_eqI [OF ms])
    show "map_ok [(''kind'', JString (se_kind e)), (''value'', se_value e)]"
      by (simp add: map_ok_def)
    show "map_of ms = map_of [(''kind'', JString (se_kind e)), (''value'', se_value e)]"
    proof
      fix k show "map_of ms k = map_of [(''kind'', JString (se_kind e)), (''value'', se_value e)] k"
        using keys kind val' by (auto simp: map_of_eq_None_iff)
    qed
  qed
  with v show ?thesis by (simp add: ser_scope_entry_members)
qed

section \<open>Properties\<close>

text \<open>
  C9.  The prefix rule is cut at a separator: a non-empty prefix contains itself and exactly those
  longer resources that extend it next to a \<^verbatim>\<open>/\<close> or a \<^verbatim>\<open>.\<close>, either the last character of the prefix
  or the first one after it; the empty prefix contains everything.
\<close>

theorem prefix_cut_at_separator:
  "prefix_contains p r \<longleftrightarrow>
     p = [] \<or> r = p \<or>
     (\<exists>q. q \<noteq> [] \<and> r = p @ q \<and>
        (last p \<in> {CHR ''/'', CHR ''.''} \<or> hd q \<in> {CHR ''/'', CHR ''.''}))"
  by (simp add: prefix_contains_iff is_separator_def SCOPE_SEPARATORS_def)

text \<open>
  C10.  The matcher, exactly: a boundary admits a resource if and only if every entry of it can be
  evaluated and it is empty or some entry is a prefix that contains the resource.  One entry of an
  unknown kind refuses every resource, wherever in the list it stands.
\<close>

theorem scope_contains_exact:
  "scope_contains b r \<longleftrightarrow>
     (\<exists>ps. b = map prefix_entry ps \<and> (ps = [] \<or> list_ex (\<lambda>p. prefix_contains p r) ps))"
proof -
  have "inj prefix_entry" by (simp add: inj_def)
  then show ?thesis
    by (auto simp: scope_contains_iff boundary_evaluable_prefixes list_ex_iff inj_map_eq_map)
qed

text \<open>
  An entry written as a two-element array is accepted by the entry's \<^verbatim>\<open>Deserialize\<close>, gives the
  same entry as the object form, and serializes as the object: the presented form is not
  reproduced.
\<close>

lemma array_entry_not_reproduced:
  "de_scope_entry (JArray [JString ''prefix'', JString p]) = Some (prefix_entry p) \<and>
   de_scope_entry (JObject [(''kind'', JString ''prefix''), (''value'', JString p)]) = Some (prefix_entry p) \<and>
   ser_scope_entry (prefix_entry p) \<noteq> JArray [JString ''prefix'', JString p]"
  by (simp add: de_scope_entry_def raw_entry_def validate_scope_entry_def prefix_entry_def
        SCOPE_KIND_PREFIX_def ser_scope_entry_members)

end
