(* ===== verification/Vaid_Document.thy ===== *)
theory Vaid_Document
  imports Vaid_Scope
begin

text \<open>
  The VAID document (\<^verbatim>\<open>crates/vaid-mint/src/document.rs\<close>): timestamps of the E.6 profile, the
  UUID member kept as presented, the document itself with its serde shape, its constructor and
  accessors, the lineage hash and the canonical signing bytes.  The lemmas are the codec's:
  parsing what was serialized gives the document back, serializing what was parsed gives the
  presented object back, and every field except the signature is under the signing digest.
\<close>

definition VAID_SIG_VERSION_V4 :: u8 where
  "VAID_SIG_VERSION_V4 = 4"

section \<open>Timestamps\<close>

definition format_e6 :: "ext \<Rightarrow> instant \<Rightarrow> string" where
  "format_e6 E t = ext_format_e6 E t"

definition parse_rfc3339 :: "ext \<Rightarrow> string \<Rightarrow> instant option" where
  "parse_rfc3339 E s = ext_parse_rfc3339 E s"

definition is_e6_timestamp :: "ext \<Rightarrow> string \<Rightarrow> bool" where
  "is_e6_timestamp E b =
     (length b = 20
      \<and> b ! 4 = CHR ''-''
      \<and> b ! 7 = CHR ''-''
      \<and> b ! 10 = CHR ''T''
      \<and> b ! 13 = CHR '':''
      \<and> b ! 16 = CHR '':''
      \<and> b ! 19 = CHR ''Z''
      \<and> list_all (\<lambda>i. is_ascii_digit (b ! i)) [0, 1, 2, 3, 5, 6, 8, 9, 11, 12, 14, 15, 17, 18]
      \<and> parse_rfc3339 E b \<noteq> None)"

section \<open>The presented UUID\<close>

record presented_uuid =
  pu_raw :: string
  pu_uuid :: uuid

definition pu_is_canonical :: "ext \<Rightarrow> presented_uuid \<Rightarrow> bool" where
  "pu_is_canonical E p = (pu_raw p = ext_uuid_to_string E (pu_uuid p))"

definition presented_of_uuid :: "ext \<Rightarrow> uuid \<Rightarrow> presented_uuid" where
  "presented_of_uuid E u = \<lparr>pu_raw = ext_uuid_to_string E u, pu_uuid = u\<rparr>"

definition ser_presented :: "presented_uuid \<Rightarrow> json" where
  "ser_presented p = JString (pu_raw p)"

definition de_presented :: "ext \<Rightarrow> json \<Rightarrow> presented_uuid option" where
  "de_presented E v =
     do { raw \<leftarrow> as_str v; u \<leftarrow> ext_uuid_parse E raw; Some \<lparr>pu_raw = raw, pu_uuid = u\<rparr> }"

text \<open>\<^verbatim>\<open>deserialize_present\<close>: the outer \<^verbatim>\<open>Some\<close> is presence, a JSON null is the inner \<^verbatim>\<open>None\<close>.\<close>

definition deserialize_present :: "ext \<Rightarrow> json \<Rightarrow> presented_uuid option option option" where
  "deserialize_present E v =
     (if v = Null then Some (Some None) else map_option (\<lambda>p. Some (Some p)) (de_presented E v))"

section \<open>The document\<close>

record vaid =
  vd_sig_version :: u8
  vd_vaid_id :: presented_uuid
  vd_agent_id :: presented_uuid
  vd_agent_class :: string
  vd_version :: string
  vd_tenant_id :: string
  vd_issued_at :: string
  vd_expires_at :: string
  vd_public_key_der :: bytes
  vd_kernel_signature :: bytes
  vd_parent_vaid :: "presented_uuid option option"
  vd_scope_boundary :: "scope_entry list"
  vd_lineage_hash :: string
  vd_capability_set :: "string list"
  vd_trust_domain :: string
  vd_kernel_key_thumbprint :: string
  vd_unknown_fields :: "(string \<times> json) list"

definition with_lineage ::
  "ext \<Rightarrow> uuid \<Rightarrow> string \<Rightarrow> string \<Rightarrow> string \<Rightarrow> instant \<Rightarrow> instant \<Rightarrow> bytes \<Rightarrow> bytes \<Rightarrow> uuid option \<Rightarrow>
   scope_entry list \<Rightarrow> string \<Rightarrow> string list \<Rightarrow> string \<Rightarrow> string \<Rightarrow> vaid" where
  "with_lineage E agent_id agent_class version tenant_id issued_at expires_at public_key_der
     kernel_signature parent_vaid scope_boundary lineage_hash capability_set trust_domain
     kernel_key_thumbprint =
   \<lparr>vd_sig_version = VAID_SIG_VERSION_V4,
    vd_vaid_id = presented_of_uuid E agent_id,
    vd_agent_id = presented_of_uuid E agent_id,
    vd_agent_class = agent_class,
    vd_version = version,
    vd_tenant_id = tenant_id,
    vd_issued_at = format_e6 E issued_at,
    vd_expires_at = format_e6 E expires_at,
    vd_public_key_der = public_key_der,
    vd_kernel_signature = kernel_signature,
    vd_parent_vaid = Some (map_option (presented_of_uuid E) parent_vaid),
    vd_scope_boundary = scope_boundary,
    vd_lineage_hash = lineage_hash,
    vd_capability_set = capability_set,
    vd_trust_domain = trust_domain,
    vd_kernel_key_thumbprint = kernel_key_thumbprint,
    vd_unknown_fields = []\<rparr>"

definition with_kernel_signature :: "vaid \<Rightarrow> bytes \<Rightarrow> vaid" where
  "with_kernel_signature d sig = d\<lparr>vd_kernel_signature := sig\<rparr>"

definition vaid_id :: "vaid \<Rightarrow> uuid" where
  "vaid_id d = pu_uuid (vd_vaid_id d)"

definition agent_id :: "vaid \<Rightarrow> uuid" where
  "agent_id d = pu_uuid (vd_agent_id d)"

definition issued_at :: "ext \<Rightarrow> vaid \<Rightarrow> instant option" where
  "issued_at E d = parse_rfc3339 E (vd_issued_at d)"

definition expires_at :: "ext \<Rightarrow> vaid \<Rightarrow> instant option" where
  "expires_at E d = parse_rfc3339 E (vd_expires_at d)"

definition parent_vaid :: "vaid \<Rightarrow> uuid option" where
  "parent_vaid d = (case vd_parent_vaid d of Some (Some p) \<Rightarrow> Some (pu_uuid p) | _ \<Rightarrow> None)"

definition is_expired_at :: "ext \<Rightarrow> vaid \<Rightarrow> instant \<Rightarrow> bool" where
  "is_expired_at E d now = (case expires_at E d of Some e \<Rightarrow> now > e | None \<Rightarrow> True)"

definition has_conforming_timestamps :: "ext \<Rightarrow> vaid \<Rightarrow> bool" where
  "has_conforming_timestamps E d =
     (is_e6_timestamp E (vd_issued_at d) \<and> is_e6_timestamp E (vd_expires_at d))"

definition is_in_scope :: "vaid \<Rightarrow> string \<Rightarrow> bool" where
  "is_in_scope d resource = scope_contains (vd_scope_boundary d) resource"

definition has_capability :: "vaid \<Rightarrow> string \<Rightarrow> bool" where
  "has_capability d cap = caps_contain (vd_capability_set d) cap"

section \<open>The serde shape\<close>

definition vaid_member_names :: "string list" where
  "vaid_member_names = [''sig_version'', ''vaid_id'', ''agent_id'', ''agent_class'', ''version'',
     ''tenant_id'', ''issued_at'', ''expires_at'', ''public_key_der'', ''kernel_signature'',
     ''parent_vaid'', ''scope_boundary'', ''lineage_hash'', ''capability_set'', ''trust_domain'',
     ''kernel_key_thumbprint'']"

definition ser_parent :: "presented_uuid option \<Rightarrow> json" where
  "ser_parent p = (case p of None \<Rightarrow> Null | Some q \<Rightarrow> ser_presented q)"

definition vaid_members :: "vaid \<Rightarrow> (string \<times> json) list" where
  "vaid_members d =
     [(''sig_version'', ser_u8 (vd_sig_version d)),
      (''vaid_id'', ser_presented (vd_vaid_id d)),
      (''agent_id'', ser_presented (vd_agent_id d)),
      (''agent_class'', JString (vd_agent_class d)),
      (''version'', JString (vd_version d)),
      (''tenant_id'', JString (vd_tenant_id d)),
      (''issued_at'', JString (vd_issued_at d)),
      (''expires_at'', JString (vd_expires_at d)),
      (''public_key_der'', ser_bytes (vd_public_key_der d)),
      (''kernel_signature'', ser_bytes (vd_kernel_signature d))] @
     (case vd_parent_vaid d of None \<Rightarrow> [] | Some p \<Rightarrow> [(''parent_vaid'', ser_parent p)]) @
     [(''scope_boundary'', JArray (map ser_scope_entry (vd_scope_boundary d))),
      (''lineage_hash'', JString (vd_lineage_hash d)),
      (''capability_set'', ser_strings (vd_capability_set d)),
      (''trust_domain'', JString (vd_trust_domain d)),
      (''kernel_key_thumbprint'', JString (vd_kernel_key_thumbprint d))]"

definition vaid_all_members :: "vaid \<Rightarrow> (string \<times> json) list" where
  "vaid_all_members d = vaid_members d @ vd_unknown_fields d"

text \<open>\<^verbatim>\<open>serde_json::to_value\<close>: the named members, then the flattened unknown ones.\<close>

definition ser_vaid :: "vaid \<Rightarrow> json" where
  "ser_vaid d = JObject (map_collect (vaid_all_members d))"

text \<open>
  The derived visitor.  A named member given twice is refused; \<^verbatim>\<open>sig_version\<close> defaults to 0 and
  \<^verbatim>\<open>parent_vaid\<close> to absent; every member that is not named is kept.
\<close>

definition de_vaid_map :: "ext \<Rightarrow> (string \<times> json) list \<Rightarrow> vaid option" where
  "de_vaid_map E ms =
     (if \<not> distinct (filter (\<lambda>k. k \<in> set vaid_member_names) (map fst ms)) then None
      else do {
        sig_version \<leftarrow> (case map_of ms ''sig_version'' of None \<Rightarrow> Some 0 | Some v \<Rightarrow> de_u8 v);
        vid \<leftarrow> map_of ms ''vaid_id'' \<bind> de_presented E;
        aid \<leftarrow> map_of ms ''agent_id'' \<bind> de_presented E;
        agent_class \<leftarrow> map_of ms ''agent_class'' \<bind> as_str;
        version \<leftarrow> map_of ms ''version'' \<bind> as_str;
        tenant_id \<leftarrow> map_of ms ''tenant_id'' \<bind> as_str;
        iat \<leftarrow> map_of ms ''issued_at'' \<bind> as_str;
        eat \<leftarrow> map_of ms ''expires_at'' \<bind> as_str;
        public_key_der \<leftarrow> map_of ms ''public_key_der'' \<bind> de_vec de_u8;
        kernel_signature \<leftarrow> map_of ms ''kernel_signature'' \<bind> de_vec de_u8;
        parent \<leftarrow> (case map_of ms ''parent_vaid'' of None \<Rightarrow> Some None
                   | Some v \<Rightarrow> deserialize_present E v);
        scope_boundary \<leftarrow> map_of ms ''scope_boundary'' \<bind> de_vec de_scope_entry;
        lineage_hash \<leftarrow> map_of ms ''lineage_hash'' \<bind> as_str;
        capability_set \<leftarrow> map_of ms ''capability_set'' \<bind> de_vec as_str;
        trust_domain \<leftarrow> map_of ms ''trust_domain'' \<bind> as_str;
        thumbprint \<leftarrow> map_of ms ''kernel_key_thumbprint'' \<bind> as_str;
        Some \<lparr>vd_sig_version = sig_version, vd_vaid_id = vid, vd_agent_id = aid,
          vd_agent_class = agent_class, vd_version = version, vd_tenant_id = tenant_id,
          vd_issued_at = iat, vd_expires_at = eat, vd_public_key_der = public_key_der,
          vd_kernel_signature = kernel_signature, vd_parent_vaid = parent,
          vd_scope_boundary = scope_boundary, vd_lineage_hash = lineage_hash,
          vd_capability_set = capability_set, vd_trust_domain = trust_domain,
          vd_kernel_key_thumbprint = thumbprint,
          vd_unknown_fields = map_collect (map (map_prod id value_norm)
            (filter (\<lambda>(k, v). k \<notin> set vaid_member_names) ms))\<rparr> })"

text \<open>\<^verbatim>\<open>from_value\<close> over a value, and the typed half of \<^verbatim>\<open>from_str\<close> over a presented tree.\<close>

definition de_vaid :: "ext \<Rightarrow> json \<Rightarrow> vaid option" where
  "de_vaid E v = (case v of JObject ms \<Rightarrow> de_vaid_map E ms | _ \<Rightarrow> None)"

definition vaid_from_str :: "ext \<Rightarrow> string \<Rightarrow> vaid option" where
  "vaid_from_str E t = ext_parse_json E t \<bind> de_vaid E"

section \<open>Hashes\<close>

definition compute_lineage_hash :: "ext \<Rightarrow> uuid option \<Rightarrow> uuid \<Rightarrow> string" where
  "compute_lineage_hash E parent agent =
     to_hex (ext_sha256 E (bytes_of_string
       (case parent of
          Some p \<Rightarrow> ext_uuid_to_string E p @ '':'' @ ext_uuid_to_string E agent
        | None \<Rightarrow> ''GENESIS:'' @ ext_uuid_to_string E agent)))"

text \<open>\<^verbatim>\<open>map.insert\<close> on an object value.\<close>

definition object_insert :: "string \<Rightarrow> json \<Rightarrow> json \<Rightarrow> json" where
  "object_insert k w v = (case v of JObject ms \<Rightarrow> JObject (map_insert k w ms) | _ \<Rightarrow> v)"

definition vaid_signing_value :: "vaid \<Rightarrow> json" where
  "vaid_signing_value d = object_insert ''kernel_signature'' Null (ser_vaid d)"

definition canonical_vaid_signing_bytes :: "ext \<Rightarrow> vaid \<Rightarrow> bytes" where
  "canonical_vaid_signing_bytes E d = ext_sha256 E (ext_jcs E (vaid_signing_value d))"

section \<open>Timestamp lemmas\<close>

lemma list_20:
  "length s = 20 \<Longrightarrow> \<exists>s0 s1 s2 s3 s4 s5 s6 s7 s8 s9 s10 s11 s12 s13 s14 s15 s16 s17 s18 s19.
     s = [s0, s1, s2, s3, s4, s5, s6, s7, s8, s9, s10, s11, s12, s13, s14, s15, s16, s17, s18, s19]"
  by (auto simp: numeral_eq_Suc length_Suc_conv)

lemma is_e6_timestamp_iff:
  "is_e6_timestamp E s \<longleftrightarrow> e6_shape s \<and> parse_rfc3339 E s \<noteq> None"
proof (cases "length s = 20")
  case True
  from list_20 [OF this] show ?thesis
    by (elim exE) (simp add: e6_shape_def is_e6_timestamp_def, blast)
next
  case False
  then show ?thesis
    by (auto simp: e6_shape_def is_e6_timestamp_def dest: list_all2_lengthD)
qed

lemma format_e6_conforms: "rfc3339_ok E \<Longrightarrow> e6_range t \<Longrightarrow> is_e6_timestamp E (format_e6 E t)"
  by (simp add: is_e6_timestamp_iff format_e6_def parse_rfc3339_def rfc3339_okD rfc3339_ok_shapeD)

lemma parse_format_e6:
  "rfc3339_ok E \<Longrightarrow> e6_range t \<Longrightarrow> parse_rfc3339 E (format_e6 E t) = Some (trunc_secs t)"
  by (simp add: format_e6_def parse_rfc3339_def rfc3339_okD)

section \<open>Codec lemmas\<close>

definition presented_ok :: "ext \<Rightarrow> presented_uuid \<Rightarrow> bool" where
  "presented_ok E p \<longleftrightarrow> ext_uuid_parse E (pu_raw p) = Some (pu_uuid p)"

definition vaid_ok :: "ext \<Rightarrow> vaid \<Rightarrow> bool" where
  "vaid_ok E d \<longleftrightarrow>
     presented_ok E (vd_vaid_id d) \<and> presented_ok E (vd_agent_id d)
     \<and> (case vd_parent_vaid d of Some (Some p) \<Rightarrow> presented_ok E p | _ \<Rightarrow> True)
     \<and> list_all entry_ok (vd_scope_boundary d)
     \<and> map_ok (vd_unknown_fields d)
     \<and> list_all (\<lambda>(k, v). k \<notin> set vaid_member_names \<and> value_ok v) (vd_unknown_fields d)"

lemma de_ser_presented: "presented_ok E p \<Longrightarrow> de_presented E (ser_presented p) = Some p"
  by (simp add: presented_ok_def de_presented_def ser_presented_def)

lemma de_presented_Some:
  "de_presented E v = Some p \<longleftrightarrow> v = ser_presented p \<and> presented_ok E p"
  by (cases p; cases v)
     (auto simp: de_presented_def ser_presented_def presented_ok_def Option.bind_eq_Some_conv)

lemma deserialize_present_Some:
  "deserialize_present E v = Some q \<longleftrightarrow>
     (\<exists>p. q = Some p \<and> v = ser_parent p \<and> (\<forall>u. p = Some u \<longrightarrow> presented_ok E u))"
  by (cases "v = Null")
     (auto simp: deserialize_present_def de_presented_Some ser_parent_def ser_presented_def
           split: option.splits)

lemma presented_of_uuid_ok: "uuid_text_ok E \<Longrightarrow> presented_ok E (presented_of_uuid E u)"
  by (simp add: presented_ok_def presented_of_uuid_def uuid_text_okD)

lemma distinct_member_names: "distinct vaid_member_names"
  by (simp add: vaid_member_names_def)

lemma vaid_member_keys:
  "map fst (vaid_members d) =
     filter (\<lambda>k. k = ''parent_vaid'' \<longrightarrow> vd_parent_vaid d \<noteq> None) vaid_member_names"
  by (auto simp: vaid_members_def vaid_member_names_def split: option.splits)

lemma unknown_keys:
  "vaid_ok E d \<Longrightarrow> k \<in> set vaid_member_names \<Longrightarrow> map_of (vd_unknown_fields d) k = None"
  by (auto simp: vaid_ok_def list_all_iff map_of_eq_None_iff)

lemma distinct_all_members:
  assumes "vaid_ok E d"
  shows "distinct (map fst (vaid_all_members d))"
  using assms map_ok_distinct [of "vd_unknown_fields d"]
  by (auto simp: vaid_all_members_def vaid_member_keys distinct_member_names vaid_ok_def list_all_iff)

lemma map_of_ser_vaid:
  assumes "vaid_ok E d"
  shows "map_of (map_collect (vaid_all_members d)) =
      map_of (vaid_all_members d)"
  using distinct_all_members [OF assms] by (rule map_of_collect_distinct)

text \<open>The lookups of a serialized document, one per member, in one bundle.\<close>

lemma vaid_lookups:
  assumes "vaid_ok E d"
  shows "map_of (vaid_all_members d) ''sig_version'' = Some (ser_u8 (vd_sig_version d))"
    and "map_of (vaid_all_members d) ''vaid_id'' = Some (ser_presented (vd_vaid_id d))"
    and "map_of (vaid_all_members d) ''agent_id'' = Some (ser_presented (vd_agent_id d))"
    and "map_of (vaid_all_members d) ''agent_class'' = Some (JString (vd_agent_class d))"
    and "map_of (vaid_all_members d) ''version'' = Some (JString (vd_version d))"
    and "map_of (vaid_all_members d) ''tenant_id'' = Some (JString (vd_tenant_id d))"
    and "map_of (vaid_all_members d) ''issued_at'' = Some (JString (vd_issued_at d))"
    and "map_of (vaid_all_members d) ''expires_at'' = Some (JString (vd_expires_at d))"
    and "map_of (vaid_all_members d) ''public_key_der'' = Some (ser_bytes (vd_public_key_der d))"
    and "map_of (vaid_all_members d) ''kernel_signature'' = Some (ser_bytes (vd_kernel_signature d))"
    and "map_of (vaid_all_members d) ''parent_vaid'' = map_option ser_parent (vd_parent_vaid d)"
    and "map_of (vaid_all_members d) ''scope_boundary'' =
      Some (JArray (map ser_scope_entry (vd_scope_boundary d)))"
    and "map_of (vaid_all_members d) ''lineage_hash'' = Some (JString (vd_lineage_hash d))"
    and "map_of (vaid_all_members d) ''capability_set'' = Some (ser_strings (vd_capability_set d))"
    and "map_of (vaid_all_members d) ''trust_domain'' = Some (JString (vd_trust_domain d))"
    and "map_of (vaid_all_members d) ''kernel_key_thumbprint'' =
      Some (JString (vd_kernel_key_thumbprint d))"
  using unknown_keys [OF assms, of "''parent_vaid''"]
  by (simp_all add: vaid_all_members_def vaid_members_def vaid_member_names_def map_add_def split: option.splits)

lemma map_of_members_other:
  assumes "k \<notin> set vaid_member_names"
  shows "map_of (vaid_all_members d) k = map_of (vd_unknown_fields d) k"
proof -
  have "k \<notin> fst ` set (vaid_members d)"
    unfolding list.set_map [symmetric] vaid_member_keys using assms by simp
  then have "map_of (vaid_members d) k = None" by (simp add: map_of_eq_None_iff)
  then show ?thesis by (simp add: vaid_all_members_def map_add_def)
qed

lemma unknown_of_ser:
  assumes "vaid_ok E d"
  shows "filter (\<lambda>(k, v). k \<notin> set vaid_member_names)
      (map_collect (vaid_all_members d)) = vd_unknown_fields d"
proof (rule map_ok_eqI)
  show "map_ok (filter (\<lambda>(k, v). k \<notin> set vaid_member_names)
      (map_collect (vaid_all_members d)))"
    by (intro map_ok_filter map_ok_collect)
  show "map_ok (vd_unknown_fields d)" using assms by (simp add: vaid_ok_def)
  show "map_of (filter (\<lambda>(k, v). k \<notin> set vaid_member_names)
      (map_collect (vaid_all_members d))) = map_of (vd_unknown_fields d)"
  proof
    fix k
    show "map_of (filter (\<lambda>(k, v). k \<notin> set vaid_member_names)
        (map_collect (vaid_all_members d))) k = map_of (vd_unknown_fields d) k"
      using unknown_keys [OF assms, of k] map_of_members_other [of k d]
      by (simp add: map_of_filter_keys map_of_ser_vaid [OF assms])
  qed
qed

lemma unknown_norm_id:
  assumes "vaid_ok E d"
  shows "map_collect (map (map_prod id value_norm) (vd_unknown_fields d)) = vd_unknown_fields d"
proof -
  have "map (map_prod id value_norm) (vd_unknown_fields d) = vd_unknown_fields d"
    using assms by (intro map_idI) (force simp: vaid_ok_def list_all_iff value_norm_id)
  with assms show ?thesis by (simp add: vaid_ok_def map_collect_id)
qed

lemma de_boundary_ser:
  "list_all entry_ok b \<Longrightarrow> de_vec de_scope_entry (JArray (map ser_scope_entry b)) = Some b"
  by (auto simp: de_vec_def those_eq_Some list_all_iff de_ser_scope_entry)

lemma de_ser_vaid:
  assumes ok: "vaid_ok E d"
  shows "de_vaid E (ser_vaid d) = Some d"
proof -
  have dist: "distinct (filter (\<lambda>k. k \<in> set vaid_member_names)
      (map fst (map_collect (vaid_all_members d))))"
    by (rule distinct_filter) (rule map_ok_distinct, simp)
  have parent: "(case map_option ser_parent (vd_parent_vaid d) of None \<Rightarrow> Some None
      | Some v \<Rightarrow> deserialize_present E v) = Some (vd_parent_vaid d)"
    using ok by (auto simp: vaid_ok_def deserialize_present_Some split: option.splits)
  show ?thesis
    using ok dist parent
    by (simp add: de_vaid_def ser_vaid_def de_vaid_map_def map_of_ser_vaid [OF ok] vaid_lookups [OF ok]
          unknown_of_ser [OF ok] unknown_norm_id [OF ok] de_ser_presented de_boundary_ser vaid_ok_def)
qed

lemma de_vaid_map_Some:
  assumes "de_vaid_map E ms = Some d"
  shows "(case map_of ms ''sig_version'' of None \<Rightarrow> Some 0 | Some v \<Rightarrow> de_u8 v) = Some (vd_sig_version d)"
    and "\<exists>v. map_of ms ''vaid_id'' = Some v \<and> de_presented E v = Some (vd_vaid_id d)"
    and "\<exists>v. map_of ms ''agent_id'' = Some v \<and> de_presented E v = Some (vd_agent_id d)"
    and "map_of ms ''agent_class'' = Some (JString (vd_agent_class d))"
    and "map_of ms ''version'' = Some (JString (vd_version d))"
    and "map_of ms ''tenant_id'' = Some (JString (vd_tenant_id d))"
    and "map_of ms ''issued_at'' = Some (JString (vd_issued_at d))"
    and "map_of ms ''expires_at'' = Some (JString (vd_expires_at d))"
    and "\<exists>v. map_of ms ''public_key_der'' = Some v \<and> de_vec de_u8 v = Some (vd_public_key_der d)"
    and "\<exists>v. map_of ms ''kernel_signature'' = Some v \<and> de_vec de_u8 v = Some (vd_kernel_signature d)"
    and "(case map_of ms ''parent_vaid'' of None \<Rightarrow> Some None
          | Some v \<Rightarrow> deserialize_present E v) = Some (vd_parent_vaid d)"
    and "\<exists>v. map_of ms ''scope_boundary'' = Some v \<and> de_vec de_scope_entry v = Some (vd_scope_boundary d)"
    and "map_of ms ''lineage_hash'' = Some (JString (vd_lineage_hash d))"
    and "\<exists>v. map_of ms ''capability_set'' = Some v \<and> de_vec as_str v = Some (vd_capability_set d)"
    and "map_of ms ''trust_domain'' = Some (JString (vd_trust_domain d))"
    and "map_of ms ''kernel_key_thumbprint'' = Some (JString (vd_kernel_key_thumbprint d))"
    and "vd_unknown_fields d = map_collect (map (map_prod id value_norm)
          (filter (\<lambda>(k, v). k \<notin> set vaid_member_names) ms))"
  using assms unfolding de_vaid_map_def by (auto simp: Option.bind_eq_Some_conv split: if_splits)

lemma de_vaid_Some_object:
  "de_vaid E v = Some d \<Longrightarrow> \<exists>ms. v = JObject ms \<and> de_vaid_map E ms = Some d"
  by (auto simp: de_vaid_def split: json.splits)

lemma de_boundary_ok: "de_vec de_scope_entry v = Some b \<Longrightarrow> list_all entry_ok b"
proof -
  assume "de_vec de_scope_entry v = Some b"
  then obtain vs where "map de_scope_entry vs = map Some b"
    by (auto simp: de_vec_def those_eq_Some split: json.splits)
  then have "\<forall>e \<in> set b. \<exists>w. de_scope_entry w = Some e"
    by (metis (mono_tags, lifting) imageE imageI list.set_map)
  then show ?thesis by (auto simp: list_all_iff dest: de_scope_entry_ok)
qed

text \<open>Whatever is presented, what parsing accepts is a well-formed document.\<close>

lemma de_vaid_ok:
  assumes "de_vaid E v = Some d"
  shows "vaid_ok E d"
proof -
  from de_vaid_Some_object [OF assms] obtain ms where de: "de_vaid_map E ms = Some d" by blast
  note f = de_vaid_map_Some [OF de]
  have unk: "set (vd_unknown_fields d) \<subseteq>
      map_prod id value_norm ` set (filter (\<lambda>(k, v). k \<notin> set vaid_member_names) ms)"
    using set_map_collect f(17) by (metis list.set_map)
  have "case vd_parent_vaid d of Some (Some p) \<Rightarrow> presented_ok E p | _ \<Rightarrow> True"
    using f(11) by (auto simp: deserialize_present_Some split: option.splits)
  moreover have "list_all (\<lambda>(k, v). k \<notin> set vaid_member_names \<and> value_ok v) (vd_unknown_fields d)"
    using unk by (fastforce simp: list_all_iff)
  moreover have "map_ok (vd_unknown_fields d)" by (simp add: f(17))
  ultimately show ?thesis
    using f(2,3,12) by (auto simp: vaid_ok_def de_presented_Some dest: de_boundary_ok)
qed

text \<open>
  The canonical presented form: a value with \<^verbatim>\<open>sig_version\<close> present and every scope entry
  written as an object.
\<close>

definition presented_canonically :: "json \<Rightarrow> bool" where
  "presented_canonically v =
     (value_ok v \<and> get_member v ''sig_version'' \<noteq> None
      \<and> (case get_member v ''scope_boundary'' of
            Some (JArray es) \<Rightarrow> list_all is_object es
          | _ \<Rightarrow> True))"

lemma ser_de_boundary:
  assumes "de_vec de_scope_entry v = Some b" and "value_ok v"
    and "case v of JArray es \<Rightarrow> list_all is_object es | _ \<Rightarrow> True"
  shows "JArray (map ser_scope_entry b) = v"
  using assms by (intro ser_de_vec) (auto intro: ser_de_scope_entry simp: list_all_iff split: json.splits)

lemma map_of_unknown:
  assumes de: "de_vaid_map E ms = Some d" and ok: "value_ok (JObject ms)"
  shows "map_of (vd_unknown_fields d) k = (if k \<in> set vaid_member_names then None else map_of ms k)"
proof -
  let ?f = "filter (\<lambda>(k, v). k \<notin> set vaid_member_names) ms"
  from ok have "map (map_prod id value_norm) ?f = ?f"
    by (intro map_idI) (force simp: value_norm_id)
  moreover from ok have "map_ok ?f" by (simp add: map_ok_filter)
  ultimately have "vd_unknown_fields d = ?f"
    using de_vaid_map_Some(17) [OF de] by (simp add: map_collect_id)
  then show ?thesis by (simp add: map_of_filter_keys)
qed

lemma ser_de_vaid:
  assumes dv: "de_vaid E v = Some d" and canon: "presented_canonically v"
  shows "ser_vaid d = v"
proof -
  from de_vaid_Some_object [OF dv] obtain ms where v: "v = JObject ms"
    and de: "de_vaid_map E ms = Some d" by blast
  note ok = de_vaid_ok [OF dv]
  note f = de_vaid_map_Some [OF de]
  from canon v have vok: "value_ok (JObject ms)" and sv: "map_of ms ''sig_version'' \<noteq> None"
    by (auto simp: presented_canonically_def)
  obtain bv where bv: "map_of ms ''scope_boundary'' = Some bv"
    and bde: "de_vec de_scope_entry bv = Some (vd_scope_boundary d)" using f(12) by blast
  have boundary: "JArray (map ser_scope_entry (vd_scope_boundary d)) = bv"
  proof (rule ser_de_boundary [OF bde])
    show "value_ok bv" using vok map_of_SomeD [OF bv] by auto
    show "case bv of JArray es \<Rightarrow> list_all is_object es | _ \<Rightarrow> True"
      using canon v bv by (simp add: presented_canonically_def)
  qed
  have parent: "map_option ser_parent (vd_parent_vaid d) = map_of ms ''parent_vaid''"
    using f(11) by (auto simp: deserialize_present_Some split: option.splits)
  have "map_of (vaid_all_members d) k = map_of ms k" for k
  proof (cases "k \<in> set vaid_member_names")
    case True
    show ?thesis
      using True f(1-10,13-16) bv boundary parent sv
      by (auto simp: vaid_member_names_def vaid_lookups [OF ok] de_presented_Some ser_de_u8
            ser_de_bytes ser_de_strings)
  next
    case False
    then show ?thesis
      by (simp add: map_of_members_other map_of_unknown [OF de vok])
  qed
  then have "map_of (map_collect (vaid_all_members d)) = map_of ms"
    by (simp add: map_of_ser_vaid [OF ok] fun_eq_iff)
  with vok have "map_collect (vaid_all_members d) = ms"
    by (intro map_ok_eqI) simp_all
  with v show ?thesis by (simp add: ser_vaid_def)
qed

section \<open>What the signature covers\<close>

lemma vaid_ok_signature [simp]: "vaid_ok E (with_kernel_signature d sig) = vaid_ok E d"
  by (simp add: vaid_ok_def with_kernel_signature_def)

lemma map_of_members_signature:
  "map_of (vaid_all_members (with_kernel_signature d sig)) =
      (map_of (vaid_all_members d))(''kernel_signature'' \<mapsto> ser_bytes sig)"
  by (rule ext)
     (auto simp: vaid_all_members_def vaid_members_def with_kernel_signature_def map_add_def
        split: option.splits)

lemma member_keys_signature:
  "map fst (vaid_all_members (with_kernel_signature d sig)) = map fst (vaid_all_members d)"
  by (simp add: vaid_all_members_def vaid_members_def with_kernel_signature_def)

lemma insert_signature:
  assumes "distinct (map fst (vaid_all_members d))"
  shows "object_insert ''kernel_signature'' (ser_bytes sig) (vaid_signing_value d) =
      ser_vaid (with_kernel_signature d sig)"
proof -
  have "map_insert ''kernel_signature'' (ser_bytes sig)
      (map_insert ''kernel_signature'' Null (map_collect (vaid_all_members d))) =
      map_collect (vaid_all_members (with_kernel_signature d sig))"
    using assms
    by (intro map_ok_eqI)
       (simp_all add: map_of_map_insert map_of_collect_distinct member_keys_signature map_of_members_signature)
  then show ?thesis by (simp add: vaid_signing_value_def ser_vaid_def object_insert_def)
qed

lemma signing_value_unsigned:
  assumes "distinct (map fst (vaid_all_members d))"
  shows "vaid_signing_value (with_kernel_signature d sig) = vaid_signing_value d"
proof -
  have "map_insert ''kernel_signature'' Null
      (map_collect (vaid_all_members (with_kernel_signature d sig))) =
      map_insert ''kernel_signature'' Null (map_collect (vaid_all_members d))"
    using assms
    by (intro map_ok_eqI)
       (simp_all add: map_of_map_insert map_of_collect_distinct member_keys_signature map_of_members_signature)
  then show ?thesis by (simp add: vaid_signing_value_def ser_vaid_def object_insert_def)
qed

lemma signing_bytes_unsigned:
  "vaid_ok E d \<Longrightarrow>
     canonical_vaid_signing_bytes E (with_kernel_signature d sig) = canonical_vaid_signing_bytes E d"
  by (simp add: canonical_vaid_signing_bytes_def signing_value_unsigned distinct_all_members)

lemma constructed_signing_bytes:
  "vd_unknown_fields d = [] \<Longrightarrow>
     canonical_vaid_signing_bytes E (with_kernel_signature d sig) = canonical_vaid_signing_bytes E d"
  by (simp add: canonical_vaid_signing_bytes_def signing_value_unsigned vaid_all_members_def
        vaid_member_keys distinct_member_names)

lemma signing_value_inj:
  assumes "vaid_ok E d" and "vaid_ok E d'" and "vaid_signing_value d = vaid_signing_value d'"
  shows "with_kernel_signature d sig = with_kernel_signature d' sig"
proof -
  have "ser_vaid (with_kernel_signature d sig) = ser_vaid (with_kernel_signature d' sig)"
    using insert_signature [of d] insert_signature [of d'] distinct_all_members assms by metis
  then show ?thesis
    using de_ser_vaid [of E] assms(1,2) by (metis option.inject vaid_ok_signature)
qed

section \<open>Constructed documents\<close>

lemma with_lineage_ok:
  assumes "uuid_text_ok E" and "list_all entry_ok b"
  shows "vaid_ok E (with_lineage E a cls ver ten iat eat pk sig p b lh caps td tp)"
  using assms
  by (auto simp: vaid_ok_def with_lineage_def presented_of_uuid_ok split: option.splits)

lemma presented_of_uuid_simps [simp]:
  "pu_uuid (presented_of_uuid E u) = u"
  "pu_raw (presented_of_uuid E u) = ext_uuid_to_string E u"
  "pu_is_canonical E (presented_of_uuid E u)"
  by (simp_all add: presented_of_uuid_def pu_is_canonical_def)

lemma value_ok_members:
  assumes "vaid_ok E d" and "(k, v) \<in> set (vaid_all_members d)"
  shows "value_ok v"
  using assms
  by (auto simp: vaid_all_members_def vaid_members_def vaid_ok_def list_all_iff ser_presented_def ser_parent_def
        value_ok_ser_entry split: option.splits)

lemma presented_canonically_ser:
  assumes ok: "vaid_ok E d"
  shows "presented_canonically (ser_vaid d)"
proof -
  have "value_ok (ser_vaid d)"
    using value_ok_members [OF ok] set_map_collect [of "vaid_all_members d"] by (auto simp: ser_vaid_def)
  moreover have "list_all is_object (map ser_scope_entry (vd_scope_boundary d))"
    by (simp add: list_all_iff is_object_def ser_scope_entry_def)
  ultimately show ?thesis
    by (simp add: presented_canonically_def ser_vaid_def map_of_ser_vaid [OF ok] vaid_lookups [OF ok])
qed

section \<open>Properties\<close>

text \<open>
  C14.  Serializing and parsing gives the document back, for every well-formed document: unknown
  members, a parent given as null and a parent left out included.
\<close>

theorem document_round_trip:
  assumes "vaid_ok E d"
  shows "de_vaid E (ser_vaid d) = Some d"
  using assms by (rule de_ser_vaid)

definition demo_document :: "uuid \<Rightarrow> vaid" where
  "demo_document a = with_lineage demo_ext a ''planner'' ''1'' ''acme'' 0 nanos_per_sec [1, 2] [] None
     [prefix_entry ''data/''] ''h'' [''read''] ''vaid.example'' ''t''"

lemma demo_document_ok: "vaid_ok demo_ext (demo_document a)"
  unfolding demo_document_def by (rule with_lineage_ok) (simp_all add: demo_uuid_text_ok)

theorem document_round_trip_witness:
  "de_vaid demo_ext (ser_vaid ((demo_document 1)\<lparr>vd_unknown_fields := [(''x'', Null)], vd_parent_vaid := None\<rparr>)) =
     Some ((demo_document 1)\<lparr>vd_unknown_fields := [(''x'', Null)], vd_parent_vaid := None\<rparr>)"
proof -
  have "vaid_ok demo_ext ((demo_document 1)\<lparr>vd_unknown_fields := [(''x'', Null)], vd_parent_vaid := None\<rparr>)"
    using demo_document_ok [of 1]
    by (simp add: vaid_ok_def vaid_member_names_def map_ok_def)
  then show ?thesis by (rule document_round_trip)
qed

text \<open>
  C15.  What was presented is reproduced: a value that parses as a document, in canonical presented
  form, is exactly what the parsed document serializes to, so the signing bytes are computed over
  the presented members, the unknown ones and the presented spelling of identifiers and
  timestamps included.
\<close>

theorem presented_form_reproduced:
  assumes "de_vaid E v = Some d" and "presented_canonically v"
  shows "ser_vaid d = v \<and> vaid_ok E d \<and>
    canonical_vaid_signing_bytes E d = ext_sha256 E (ext_jcs E (object_insert ''kernel_signature'' Null v))"
  using ser_de_vaid [OF assms] de_vaid_ok [OF assms(1)]
  by (simp add: canonical_vaid_signing_bytes_def vaid_signing_value_def)

theorem presented_form_reproduced_witness:
  "\<exists>d. de_vaid demo_ext (ser_vaid (demo_document 3)) = Some d \<and> ser_vaid d = ser_vaid (demo_document 3)"
  using presented_form_reproduced [OF de_ser_vaid [OF demo_document_ok]
      presented_canonically_ser [OF demo_document_ok], of 3]
    de_ser_vaid [OF demo_document_ok, of 3] by blast

text \<open>
  C16.  The signing digest covers every field and nothing but the signature is left out: two
  well-formed documents whose canonical values the digest tells apart have the same signing bytes
  if and only if they agree on every field except \<^verbatim>\<open>kernel_signature\<close>.
\<close>

theorem signature_covers_every_field:
  assumes "vaid_ok E d" and "vaid_ok E d'" and "no_collision E (vaid_signing_value d) (vaid_signing_value d')"
  shows "canonical_vaid_signing_bytes E d = canonical_vaid_signing_bytes E d' \<longleftrightarrow>
    with_kernel_signature d [] = with_kernel_signature d' []"
proof
  assume "canonical_vaid_signing_bytes E d = canonical_vaid_signing_bytes E d'"
  with assms(3) have "vaid_signing_value d = vaid_signing_value d'"
    by (simp add: canonical_vaid_signing_bytes_def no_collision_def)
  with assms(1,2) show "with_kernel_signature d [] = with_kernel_signature d' []" by (rule signing_value_inj)
next
  assume "with_kernel_signature d [] = with_kernel_signature d' []"
  then show "canonical_vaid_signing_bytes E d = canonical_vaid_signing_bytes E d'"
    using signing_bytes_unsigned [OF assms(1)] signing_bytes_unsigned [OF assms(2)] by metis
qed

theorem signature_covers_every_field_witness:
  "canonical_vaid_signing_bytes demo_ext (with_kernel_signature (demo_document 1) [9]) =
   canonical_vaid_signing_bytes demo_ext (demo_document 1)"
proof -
  have ok: "vaid_ok demo_ext (with_kernel_signature (demo_document 1) [9])" by (simp add: demo_document_ok)
  have "no_collision demo_ext (vaid_signing_value (with_kernel_signature (demo_document 1) [9]))
      (vaid_signing_value (demo_document 1))"
    by (simp add: no_collision_def signing_value_unsigned distinct_all_members [OF demo_document_ok])
  from signature_covers_every_field [OF ok demo_document_ok this] show ?thesis
    by (simp add: with_kernel_signature_def)
qed

end
