(* ===== verification/Vaid_Revocation.thy ===== *)
theory Vaid_Revocation
  imports Vaid_Document
begin

text \<open>
  Lineage assembly and revocation (\<^verbatim>\<open>crates/vaid-mint/src/revocation.rs\<close>).  The walk from a leaf
  to its root is proved to end, to return a complete duplicate-free ancestry or nothing, and to
  find it whenever one exists within the depth bound.  The two stores of the module meet two
  interfaces, the locales \<open>lineage_store\<close> and \<open>revocation_store\<close>, in which the facts the
  issuer and the mint rely on are proved.
\<close>

definition MAX_LINEAGE_DEPTH :: nat where
  "MAX_LINEAGE_DEPTH = 1024"

datatype RevocationStatus = NotRevoked | Revoked | Unavailable

datatype ParentResolution = Root | Parent uuid | Unknown

datatype LineageAssembly = Complete "uuid list" | Incomplete

type_synonym lineage_resolver = "uuid \<Rightarrow> ParentResolution"

section \<open>Assembling a lineage\<close>

text \<open>The \<^verbatim>\<open>while\<close> loop of \<^verbatim>\<open>assemble_lineage\<close>; \<open>chain\<close> is built leaf first.\<close>

function assemble_walk :: "lineage_resolver \<Rightarrow> uuid list \<Rightarrow> uuid option \<Rightarrow> LineageAssembly" where
  "assemble_walk resolver chain None = Complete (rev chain)"
| "assemble_walk resolver chain (Some pid) =
     (if pid \<in> set chain \<or> length chain \<ge> MAX_LINEAGE_DEPTH then Incomplete
      else (case resolver pid of
              Root \<Rightarrow> assemble_walk resolver (chain @ [pid]) None
            | Parent grandparent \<Rightarrow> assemble_walk resolver (chain @ [pid]) (Some grandparent)
            | Unknown \<Rightarrow> Incomplete))"
  by pat_completeness auto
termination
  by (relation "measure (\<lambda>(r, chain, next). Suc MAX_LINEAGE_DEPTH - length chain)") auto

definition assemble_lineage :: "vaid \<Rightarrow> lineage_resolver \<Rightarrow> LineageAssembly" where
  "assemble_lineage leaf resolver = assemble_walk resolver [vaid_id leaf] (parent_vaid leaf)"

section \<open>The revocation list\<close>

record revocation_list =
  rl_state :: "uuid set option"

definition rl_new :: revocation_list where
  "rl_new = \<lparr>rl_state = None\<rparr>"

definition rl_assume_nothing_revoked :: revocation_list where
  "rl_assume_nothing_revoked = \<lparr>rl_state = Some {}\<rparr>"

definition rl_unavailable :: revocation_list where
  "rl_unavailable = rl_new"

definition rl_revoke :: "revocation_list \<Rightarrow> uuid \<Rightarrow> revocation_list" where
  "rl_revoke s vid =
     (let revoked = (case rl_state s of None \<Rightarrow> {} | Some r \<Rightarrow> r)
      in s\<lparr>rl_state := Some (insert vid revoked)\<rparr>)"

definition rl_mark_unavailable :: "revocation_list \<Rightarrow> revocation_list" where
  "rl_mark_unavailable s = s\<lparr>rl_state := None\<rparr>"

definition rl_is_available :: "revocation_list \<Rightarrow> bool" where
  "rl_is_available s = (rl_state s \<noteq> None)"

definition rl_check_lineage :: "revocation_list \<Rightarrow> uuid list \<Rightarrow> RevocationStatus" where
  "rl_check_lineage s lineage =
     (case rl_state s of
        None \<Rightarrow> Unavailable
      | Some revoked \<Rightarrow> if list_ex (\<lambda>id. id \<in> revoked) lineage then Revoked else NotRevoked)"

section \<open>The lineage store\<close>

type_synonym LineageWriteError = string

text \<open>
  The trait \<^verbatim>\<open>LineageStore\<close> as a dictionary over the store's state.  A write returns the state it
  leaves behind together with its result.
\<close>

record 's lineage_ops =
  lo_resolve_parent :: "'s \<Rightarrow> uuid \<Rightarrow> ParentResolution"
  lo_try_record :: "'s \<Rightarrow> uuid \<Rightarrow> uuid option \<Rightarrow> 's \<times> (LineageWriteError + unit)"

text \<open>The default methods: \<^verbatim>\<open>record\<close> through \<^verbatim>\<open>try_record\<close> (\<^term>\<open>None\<close> is the panic) and back.\<close>

definition record_default ::
  "('s \<Rightarrow> uuid \<Rightarrow> uuid option \<Rightarrow> 's \<times> (LineageWriteError + unit)) \<Rightarrow> 's \<Rightarrow> uuid \<Rightarrow> uuid option \<Rightarrow> 's option" where
  "record_default try_record s vid parent =
     (case try_record s vid parent of
        (s', Inl e) \<Rightarrow> None
      | (s', Inr _) \<Rightarrow> Some s')"

definition try_record_default ::
  "('s \<Rightarrow> uuid \<Rightarrow> uuid option \<Rightarrow> 's) \<Rightarrow> 's \<Rightarrow> uuid \<Rightarrow> uuid option \<Rightarrow> 's \<times> (LineageWriteError + unit)" where
  "try_record_default record_fn s vid parent = (record_fn s vid parent, Inr ())"

record memory_lineage =
  ml_entries :: "(uuid \<times> uuid option) list"

definition ml_new :: memory_lineage where
  "ml_new = \<lparr>ml_entries = []\<rparr>"

definition ml_clear :: "memory_lineage \<Rightarrow> memory_lineage" where
  "ml_clear s = s\<lparr>ml_entries := []\<rparr>"

definition ml_len :: "memory_lineage \<Rightarrow> nat" where
  "ml_len s = length (ml_entries s)"

definition ml_is_empty :: "memory_lineage \<Rightarrow> bool" where
  "ml_is_empty s = (ml_len s = 0)"

definition ml_resolve_parent :: "memory_lineage \<Rightarrow> uuid \<Rightarrow> ParentResolution" where
  "ml_resolve_parent s vid =
     (case map_of (ml_entries s) vid of
        Some (Some parent) \<Rightarrow> Parent parent
      | Some None \<Rightarrow> Root
      | None \<Rightarrow> Unknown)"

definition ml_record :: "memory_lineage \<Rightarrow> uuid \<Rightarrow> uuid option \<Rightarrow> memory_lineage" where
  "ml_record s vid parent = s\<lparr>ml_entries := map_insert vid parent (ml_entries s)\<rparr>"

definition ml_try_record ::
  "memory_lineage \<Rightarrow> uuid \<Rightarrow> uuid option \<Rightarrow> memory_lineage \<times> (LineageWriteError + unit)" where
  "ml_try_record = try_record_default ml_record"

definition memory_lineage_ops :: "memory_lineage lineage_ops" where
  "memory_lineage_ops = \<lparr>lo_resolve_parent = ml_resolve_parent, lo_try_record = ml_try_record\<rparr>"

text \<open>Both halves of a durable backend: the check, and a lineage store with its state.\<close>

record 's revocation_backend =
  rb_check :: "uuid list \<Rightarrow> RevocationStatus"
  rb_ops :: "'s lineage_ops"
  rb_lineage :: 's

definition backend_new ::
  "(uuid list \<Rightarrow> RevocationStatus) \<Rightarrow> 's lineage_ops \<Rightarrow> 's \<Rightarrow> 's revocation_backend" where
  "backend_new check ops lineage = \<lparr>rb_check = check, rb_ops = ops, rb_lineage = lineage\<rparr>"

section \<open>The walk finds the ancestry or nothing\<close>

text \<open>\<open>up\<close> is the ancestry above a document, nearest ancestor first, that a resolver gives.\<close>

fun ancestry :: "lineage_resolver \<Rightarrow> uuid option \<Rightarrow> uuid list \<Rightarrow> bool" where
  "ancestry resolver None up = (up = [])"
| "ancestry resolver (Some pid) [] = False"
| "ancestry resolver (Some pid) (x # up) =
     (x = pid \<and> (case resolver pid of
                   Root \<Rightarrow> up = []
                 | Parent g \<Rightarrow> ancestry resolver (Some g) up
                 | Unknown \<Rightarrow> False))"

lemma ancestry_None_iff [simp]: "ancestry resolver nxt [] \<longleftrightarrow> nxt = None"
  by (cases nxt) simp_all

lemma ancestry_cong:
  "ancestry r nxt up \<Longrightarrow> (\<And>x. x \<in> set up \<Longrightarrow> r x = r' x) \<Longrightarrow> ancestry r' nxt up"
  by (induction r nxt up rule: ancestry.induct) (auto split: ParentResolution.splits)

lemma ancestry_unique: "ancestry r nxt up \<Longrightarrow> ancestry r nxt up' \<Longrightarrow> up = up'"
proof (induction r nxt up arbitrary: up' rule: ancestry.induct)
  case (3 r pid x up)
  then show ?case by (cases up') (auto split: ParentResolution.splits)
qed simp_all

lemma assemble_walk_sound:
  "assemble_walk r chain nxt = Complete ids \<Longrightarrow>
     \<exists>up. ids = rev (chain @ up) \<and> ancestry r nxt up \<and> distinct up \<and> set up \<inter> set chain = {} \<and>
        (up = [] \<or> length chain + length up \<le> MAX_LINEAGE_DEPTH)"
proof (induction r chain nxt rule: assemble_walk.induct)
  case (2 r chain pid)
  from "2.prems" have new: "pid \<notin> set chain" "length chain < MAX_LINEAGE_DEPTH"
    and known: "r pid \<noteq> Unknown"
    by (auto split: if_splits ParentResolution.splits)
  show ?case
  proof (cases "r pid")
    case Root
    with "2.prems" new show ?thesis by (intro exI [of _ "[pid]"]) auto
  next
    case (Parent g)
    with "2.prems" new have "assemble_walk r (chain @ [pid]) (Some g) = Complete ids" by simp
    from "2.IH"(2) [OF _ Parent this] new obtain up where
      "ids = rev ((chain @ [pid]) @ up)" "ancestry r (Some g) up" "distinct up"
      "set up \<inter> set (chain @ [pid]) = {}" "up = [] \<or> length (chain @ [pid]) + length up \<le> MAX_LINEAGE_DEPTH"
      by auto
    with new Parent show ?thesis by (intro exI [of _ "pid # up"]) auto
  qed (use known in simp)
qed simp

lemma assemble_walk_complete:
  "ancestry r nxt up \<Longrightarrow> distinct up \<Longrightarrow> set up \<inter> set chain = {} \<Longrightarrow>
     up = [] \<or> length chain + length up \<le> MAX_LINEAGE_DEPTH \<Longrightarrow>
     assemble_walk r chain nxt = Complete (rev (chain @ up))"
proof (induction r nxt up arbitrary: chain rule: ancestry.induct)
  case (3 r pid x up)
  then have x: "x = pid" and new: "pid \<notin> set chain" "length chain < MAX_LINEAGE_DEPTH" by auto
  show ?case
  proof (cases "r pid")
    case Root
    with 3 x new show ?thesis by simp
  next
    case (Parent g)
    with 3 x have "assemble_walk r (chain @ [pid]) (Some g) = Complete (rev ((chain @ [pid]) @ up))"
      by (intro "3.IH" [OF Parent]) auto
    with Parent x new show ?thesis by simp
  qed (use 3 x in simp)
qed simp_all

lemma assemble_lineage_iff:
  "assemble_lineage d r = Complete ids \<longleftrightarrow>
     (\<exists>up. ids = rev up @ [vaid_id d] \<and> ancestry r (parent_vaid d) up \<and> distinct ids \<and>
        length ids \<le> MAX_LINEAGE_DEPTH)"
proof
  assume "assemble_lineage d r = Complete ids"
  from assemble_walk_sound [OF this [unfolded assemble_lineage_def]]
  show "\<exists>up. ids = rev up @ [vaid_id d] \<and> ancestry r (parent_vaid d) up \<and> distinct ids \<and>
        length ids \<le> MAX_LINEAGE_DEPTH"
    by (auto simp: MAX_LINEAGE_DEPTH_def)
next
  assume "\<exists>up. ids = rev up @ [vaid_id d] \<and> ancestry r (parent_vaid d) up \<and> distinct ids \<and>
        length ids \<le> MAX_LINEAGE_DEPTH"
  then show "assemble_lineage d r = Complete ids"
    by (auto simp: assemble_lineage_def assemble_walk_complete)
qed

lemma assemble_lineage_nonempty: "assemble_lineage d r = Complete ids \<Longrightarrow> ids \<noteq> [] \<and> last ids = vaid_id d"
  by (auto simp: assemble_lineage_iff)

lemma assemble_root: "parent_vaid d = None \<Longrightarrow> assemble_lineage d r = Complete [vaid_id d]"
  by (simp add: assemble_lineage_def)

text \<open>What one resolver must say of a document for its descendants to assemble through it.\<close>

definition resolves_as :: "lineage_resolver \<Rightarrow> vaid \<Rightarrow> bool" where
  "resolves_as r d = (r (vaid_id d) = (case parent_vaid d of None \<Rightarrow> Root | Some p \<Rightarrow> Parent p))"

lemma assemble_child:
  assumes parent: "assemble_lineage p r = Complete ids" and known: "resolves_as r p"
    and link: "parent_vaid c = Some (vaid_id p)" and new: "vaid_id c \<notin> set ids"
    and depth: "length ids < MAX_LINEAGE_DEPTH"
  shows "assemble_lineage c r = Complete (ids @ [vaid_id c])"
proof -
  from parent obtain up where up: "ids = rev up @ [vaid_id p]" "ancestry r (parent_vaid p) up" "distinct ids"
    by (auto simp: assemble_lineage_iff)
  have "ancestry r (Some (vaid_id p)) (vaid_id p # up)"
    using known up(2) by (auto simp: resolves_as_def split: option.splits)
  with up new depth link show ?thesis
    by (auto simp: assemble_lineage_iff intro!: exI [of _ "vaid_id p # up"])
qed

lemma assemble_same:
  assumes "assemble_lineage d r = Complete ids" and "\<forall>x \<in> set ids. r x = r' x"
  shows "assemble_lineage d r' = Complete ids"
proof -
  from assms(1) obtain up where up: "ids = rev up @ [vaid_id d]" "ancestry r (parent_vaid d) up" "distinct ids"
    "length ids \<le> MAX_LINEAGE_DEPTH" by (auto simp: assemble_lineage_iff)
  have "ancestry r' (parent_vaid d) up" using assms(2) up(1) by (intro ancestry_cong [OF up(2)]) simp
  with up show ?thesis by (auto simp: assemble_lineage_iff)
qed

text \<open>A document whose parent is at the depth bound cannot be assembled.\<close>

lemma assemble_too_deep:
  assumes parent: "assemble_lineage p r = Complete ids" and known: "resolves_as r p"
    and link: "parent_vaid c = Some (vaid_id p)" and depth: "length ids = MAX_LINEAGE_DEPTH"
  shows "assemble_lineage c r = Incomplete"
proof (rule ccontr)
  assume "assemble_lineage c r \<noteq> Incomplete"
  then obtain ids' where "assemble_lineage c r = Complete ids'"
    by (cases "assemble_lineage c r") auto
  then obtain up' where up': "ids' = rev up' @ [vaid_id c]" "ancestry r (Some (vaid_id p)) up'"
    "length ids' \<le> MAX_LINEAGE_DEPTH" using link by (auto simp: assemble_lineage_iff)
  from parent obtain up where up: "ids = rev up @ [vaid_id p]" "ancestry r (parent_vaid p) up"
    by (auto simp: assemble_lineage_iff)
  have "ancestry r (Some (vaid_id p)) (vaid_id p # up)"
    using known up(2) by (auto simp: resolves_as_def split: option.splits)
  with up'(2) have "up' = vaid_id p # up" by (rule ancestry_unique)
  with up up' depth show False by simp
qed

section \<open>The interfaces\<close>

locale lineage_store =
  fixes resolve :: "'s \<Rightarrow> uuid \<Rightarrow> ParentResolution"
    and try_record :: "'s \<Rightarrow> uuid \<Rightarrow> uuid option \<Rightarrow> 's \<times> (LineageWriteError + unit)"
  assumes record_resolves:
      "try_record s i p = (s', Inr ()) \<Longrightarrow>
         resolve s' i = (case p of None \<Rightarrow> Root | Some q \<Rightarrow> Parent q)"
    and record_frame: "try_record s i p = (s', res) \<Longrightarrow> j \<noteq> i \<Longrightarrow> resolve s' j = resolve s j"
begin

text \<open>Recording an id that is not above a document leaves the document's lineage as it was.\<close>

lemma assemble_frame:
  assumes "assemble_lineage d (resolve s) = Complete ids" and "try_record s i p = (s', res)"
    and "i \<notin> set (butlast ids)"
  shows "assemble_lineage d (resolve s') = Complete ids"
proof -
  from assms(1) obtain up where up: "ids = rev up @ [vaid_id d]" "ancestry (resolve s) (parent_vaid d) up"
    "distinct ids" "length ids \<le> MAX_LINEAGE_DEPTH" by (auto simp: assemble_lineage_iff)
  have "ancestry (resolve s') (parent_vaid d) up"
    using up(1) assms(3) record_frame [OF assms(2)]
    by (intro ancestry_cong [OF up(2)]) (metis butlast_snoc set_rev)
  with up show ?thesis by (auto simp: assemble_lineage_iff)
qed

lemma recorded_resolves_as:
  "try_record s (vaid_id d) (parent_vaid d) = (s', Inr ()) \<Longrightarrow> resolves_as (resolve s') d"
  by (auto simp: resolves_as_def record_resolves split: option.splits)

lemma resolves_as_frame:
  "resolves_as (resolve s) d \<Longrightarrow> try_record s i p = (s', res) \<Longrightarrow> i \<noteq> vaid_id d \<Longrightarrow>
     resolves_as (resolve s') d"
  using record_frame [of s i p s' res "vaid_id d"] by (auto simp: resolves_as_def)

text \<open>A recorded child of a complete parent is complete, one longer than its parent.\<close>

lemma recorded_child:
  assumes "assemble_lineage p (resolve s) = Complete ids" and "resolves_as (resolve s) p"
    and "parent_vaid c = Some (vaid_id p)" and "vaid_id c \<notin> set ids" and "length ids < MAX_LINEAGE_DEPTH"
    and rec: "try_record s (vaid_id c) (parent_vaid c) = (s', Inr ())"
  shows "assemble_lineage c (resolve s') = Complete (ids @ [vaid_id c]) \<and> resolves_as (resolve s') c"
proof
  show "assemble_lineage c (resolve s') = Complete (ids @ [vaid_id c])"
    using assemble_child [OF assms(1-5)] rec assms(4) by (intro assemble_frame [OF _ rec]) simp_all
  show "resolves_as (resolve s') c" using rec by (rule recorded_resolves_as)
qed

end

locale revocation_store =
  fixes check :: "'s \<Rightarrow> uuid list \<Rightarrow> RevocationStatus" and revoke :: "'s \<Rightarrow> uuid \<Rightarrow> 's"
  assumes revoke_hits: "i \<in> set l \<Longrightarrow> check (revoke s i) l = Revoked"
    and revoke_keeps: "check s l = Revoked \<Longrightarrow> check (revoke s i) l = Revoked"
    and check_descends: "check s l = Revoked \<Longrightarrow> set l \<subseteq> set l' \<Longrightarrow> check s l' = Revoked"
begin

lemma revoked_stays: "check s l = Revoked \<Longrightarrow> check (foldl revoke s is) l = Revoked"
  by (induction "is" arbitrary: s) (auto simp: revoke_keeps)

lemma revoke_all: "i \<in> set is \<Longrightarrow> i \<in> set l \<Longrightarrow> check (foldl revoke s is) l = Revoked"
  by (induction "is" arbitrary: s) (auto simp: revoke_hits revoked_stays)

text \<open>A clean answer over a lineage means that none of its members was ever revoked.\<close>

lemma clean_lineage: "check (foldl revoke s is) l = NotRevoked \<Longrightarrow> set is \<inter> set l = {}"
  using revoke_all by fastforce

end

lemma ml_resolve_record:
  "ml_resolve_parent (ml_record s i p) j =
     (if j = i then (case p of None \<Rightarrow> Root | Some q \<Rightarrow> Parent q) else ml_resolve_parent s j)"
  by (simp add: ml_resolve_parent_def ml_record_def map_of_map_insert split: option.splits)

lemma ml_try_record_eq: "ml_try_record s i p = (ml_record s i p, Inr ())"
  by (simp add: ml_try_record_def try_record_default_def)

interpretation memory: lineage_store ml_resolve_parent ml_try_record
  by unfold_locales (auto simp: ml_try_record_eq ml_resolve_record split: option.splits)

interpretation revocations: revocation_store rl_check_lineage rl_revoke
  by unfold_locales
     (auto simp: rl_check_lineage_def rl_revoke_def list_ex_iff Let_def split: option.splits if_splits)

text \<open>The map invariant of the in-memory store, kept by every operation.\<close>

definition ml_ok :: "memory_lineage \<Rightarrow> bool" where
  "ml_ok s = map_ok (ml_entries s)"

lemma ml_ok_ops: "ml_ok ml_new" "ml_ok (ml_clear s)" "ml_ok s \<Longrightarrow> ml_ok (ml_record s i p)"
  by (simp_all add: ml_ok_def ml_new_def ml_clear_def ml_record_def)

lemma rl_available_after_revoke: "rl_check_lineage (rl_revoke s i) l \<noteq> Unavailable"
  by (simp add: rl_check_lineage_def rl_revoke_def Let_def)

lemma rl_check_iff:
  "rl_check_lineage s l = Unavailable \<longleftrightarrow> \<not> rl_is_available s"
  "rl_check_lineage s l = Revoked \<longleftrightarrow> (\<exists>r. rl_state s = Some r \<and> set l \<inter> r \<noteq> {})"
  "rl_check_lineage s l = NotRevoked \<longleftrightarrow> (\<exists>r. rl_state s = Some r \<and> set l \<inter> r = {})"
  by (auto simp: rl_check_lineage_def rl_is_available_def list_ex_iff split: option.splits if_splits)

section \<open>Properties\<close>

text \<open>
  C11.  Assembly is exact: it returns a lineage if and only if that lineage, root first, is the
  ancestry the resolver gives above the leaf's signed parent, ends in the leaf, repeats no
  identifier and is at most 1024 long.  In every other case, a gap, a cycle or a chain that is
  too deep, the walk still ends and the result is \<^verbatim>\<open>Incomplete\<close>.
\<close>

theorem lineage_exact:
  "(assemble_lineage leaf resolver = Complete ids \<longleftrightarrow>
      (\<exists>up. ids = rev up @ [vaid_id leaf] \<and> ancestry resolver (parent_vaid leaf) up \<and> distinct ids \<and>
         length ids \<le> 1024)) \<and>
   (assemble_lineage leaf resolver = Incomplete \<longleftrightarrow>
      (\<nexists>up. ancestry resolver (parent_vaid leaf) up \<and> distinct (vaid_id leaf # up) \<and> length up < 1024))"
proof
  show "assemble_lineage leaf resolver = Complete ids \<longleftrightarrow>
      (\<exists>up. ids = rev up @ [vaid_id leaf] \<and> ancestry resolver (parent_vaid leaf) up \<and> distinct ids \<and>
         length ids \<le> 1024)"
    by (simp add: assemble_lineage_iff MAX_LINEAGE_DEPTH_def)
  have "assemble_lineage leaf resolver \<noteq> Incomplete \<longleftrightarrow> (\<exists>ids. assemble_lineage leaf resolver = Complete ids)"
    by (cases "assemble_lineage leaf resolver") simp_all
  also have "\<dots> \<longleftrightarrow>
      (\<exists>up. ancestry resolver (parent_vaid leaf) up \<and> distinct (vaid_id leaf # up) \<and> length up < 1024)"
    by (auto simp: assemble_lineage_iff MAX_LINEAGE_DEPTH_def)
  finally show "assemble_lineage leaf resolver = Incomplete \<longleftrightarrow>
      (\<nexists>up. ancestry resolver (parent_vaid leaf) up \<and> distinct (vaid_id leaf # up) \<and> length up < 1024)"
    by blast
qed

end
