(* ===== verification/Vaid_Identity.thy ===== *)
theory Vaid_Identity
  imports Vaid_External
begin

text \<open>
  Issuer identity (\<^verbatim>\<open>crates/vaid-mint/src/issuer_identity.rs\<close>): the RFC 9278 thumbprint of a
  kernel key and the grammar of trust domains.  The grammar check is proved to accept exactly
  the dotted sequences of well-formed labels.
\<close>

definition THUMBPRINT_URI_PREFIX :: string where
  "THUMBPRINT_URI_PREFIX = ''urn:ietf:params:oauth:jwk-thumbprint:sha-256:''"

definition TRUST_DOMAIN_MAX_LEN :: nat where
  "TRUST_DOMAIN_MAX_LEN = 253"

definition TRUST_DOMAIN_MAX_LABEL_LEN :: nat where
  "TRUST_DOMAIN_MAX_LABEL_LEN = 63"

definition kernel_key_thumbprint :: "ext \<Rightarrow> bytes \<Rightarrow> string" where
  "kernel_key_thumbprint E public_key =
     (let x = ext_base64url E public_key;
          jwk = JObject (map_collect [(''crv'', JString ''Ed25519''), (''kty'', JString ''OKP''), (''x'', JString x)]);
          canonical = ext_jcs E jwk;
          digest = ext_sha256 E canonical
      in THUMBPRINT_URI_PREFIX @ ext_base64url E digest)"

definition trust_label_ok :: "string \<Rightarrow> bool" where
  "trust_label_ok label =
     (label \<noteq> [] \<and> length label \<le> TRUST_DOMAIN_MAX_LABEL_LEN
      \<and> \<not> (starts_with_char label (CHR ''-'') \<or> ends_with_char label (CHR ''-''))
      \<and> list_all (\<lambda>b. is_ascii_lowercase b \<or> is_ascii_digit b \<or> b = CHR ''-'') label)"

definition is_valid_trust_domain :: "string \<Rightarrow> bool" where
  "is_valid_trust_domain s =
     (if s = [] \<or> length s > TRUST_DOMAIN_MAX_LEN then False
      else let labels = str_split (CHR ''.'') s in
        if length labels < 2 then False
        else if \<not> list_all trust_label_ok labels then False
        else \<not> list_all is_ascii_digit (labels ! (length labels - 1)))"

definition RESERVED_TLDS :: "string list" where
  "RESERVED_TLDS = [''example'', ''invalid'', ''localhost'', ''test'', ''local'', ''internal'']"

definition is_special_use_trust_domain :: "string \<Rightarrow> bool" where
  "is_special_use_trust_domain s = (last (str_split (CHR ''.'') s) \<in> set RESERVED_TLDS)"

section \<open>Lemmas\<close>

lemma str_split_append: "c \<notin> set p \<Longrightarrow> str_split c (p @ c # s) = p # str_split c s"
  by (induction p) (auto split: list.splits)

lemma str_split_plain: "c \<notin> set p \<Longrightarrow> str_split c p = [p]"
  by (induction p) auto

lemma str_split_join:
  "ps \<noteq> [] \<Longrightarrow> \<forall>p \<in> set ps. c \<notin> set p \<Longrightarrow> str_split c (str_join c ps) = ps"
  by (induction c ps rule: str_join.induct) (auto simp: str_split_append str_split_plain)

lemma trust_label_no_dot: "trust_label_ok l \<Longrightarrow> CHR ''.'' \<notin> set l"
  by (auto simp: trust_label_ok_def list_all_iff is_ascii_lowercase_def is_ascii_digit_def
        less_eq_char_def)

text \<open>The check accepts exactly the names the grammar generates.\<close>

lemma is_valid_trust_domain_iff:
  "is_valid_trust_domain s \<longleftrightarrow>
     (\<exists>labels. s = str_join (CHR ''.'') labels \<and> 2 \<le> length labels \<and>
        (\<forall>l \<in> set labels. trust_label_ok l) \<and> (\<exists>c \<in> set (last labels). \<not> is_ascii_digit c) \<and>
        length s \<le> TRUST_DOMAIN_MAX_LEN)"
    (is "_ \<longleftrightarrow> ?R")
proof
  assume v: "is_valid_trust_domain s"
  let ?ls = "str_split (CHR ''.'') s"
  from v have "2 \<le> length ?ls" "\<forall>l \<in> set ?ls. trust_label_ok l" "length s \<le> TRUST_DOMAIN_MAX_LEN"
    and num: "\<not> list_all is_ascii_digit (?ls ! (length ?ls - 1))"
    by (auto simp: is_valid_trust_domain_def Let_def list_all_iff split: if_splits)
  moreover have "last ?ls = ?ls ! (length ?ls - 1)" by (simp add: last_conv_nth)
  ultimately show ?R
    by (intro exI [of _ ?ls]) (auto simp: str_join_split list_all_iff)
next
  assume ?R
  then obtain labels where s: "s = str_join (CHR ''.'') labels" and len: "2 \<le> length labels"
    and ok: "\<forall>l \<in> set labels. trust_label_ok l" and num: "\<exists>c \<in> set (last labels). \<not> is_ascii_digit c"
    and max: "length s \<le> TRUST_DOMAIN_MAX_LEN" by blast
  have ne: "labels \<noteq> []" using len by auto
  with ok have split: "str_split (CHR ''.'') s = labels"
    unfolding s by (intro str_split_join) (auto dest: trust_label_no_dot)
  have "s \<noteq> []" using split len by (intro notI) auto
  with split len ok num max ne show "is_valid_trust_domain s"
    by (auto simp: is_valid_trust_domain_def Let_def list_all_iff last_conv_nth)
qed

lemma is_valid_trust_domain_chars:
  assumes "is_valid_trust_domain s" and "c \<in> set s"
  shows "is_ascii_lowercase c \<or> is_ascii_digit c \<or> c = CHR ''-'' \<or> c = CHR ''.''"
proof (cases "c = CHR ''.''")
  case False
  with assms(2) obtain p where "p \<in> set (str_split (CHR ''.'') s)" "c \<in> set p"
    using set_str_split by blast
  with assms(1) show ?thesis
    by (auto simp: is_valid_trust_domain_def Let_def list_all_iff trust_label_ok_def split: if_splits)
qed simp

section \<open>Properties\<close>

text \<open>
  C18.  A trust domain is accepted if and only if it is at least two labels joined by dots, each of 1
  to 63 lowercase letters, digits and hyphens with no hyphen at an end, the last with a character
  that is not a digit, and at most 253 bytes in all.
\<close>

theorem trust_domain_grammar:
  "is_valid_trust_domain s \<longleftrightarrow>
     (\<exists>labels. s = str_join (CHR ''.'') labels \<and> 2 \<le> length labels \<and>
        list_all (\<lambda>l. 1 \<le> length l \<and> length l \<le> 63 \<and> hd l \<noteq> CHR ''-'' \<and> last l \<noteq> CHR ''-'' \<and>
          list_all (\<lambda>c. is_ascii_lowercase c \<or> is_ascii_digit c \<or> c = CHR ''-'') l) labels \<and>
        list_ex (\<lambda>c. \<not> is_ascii_digit c) (last labels) \<and> length s \<le> 253)"
proof -
  have "trust_label_ok = (\<lambda>l. 1 \<le> length l \<and> length l \<le> 63 \<and> hd l \<noteq> CHR ''-'' \<and> last l \<noteq> CHR ''-'' \<and>
      list_all (\<lambda>c. is_ascii_lowercase c \<or> is_ascii_digit c \<or> c = CHR ''-'') l)"
    by (auto simp: trust_label_ok_def TRUST_DOMAIN_MAX_LABEL_LEN_def starts_with_char_def ends_with_char_def
          fun_eq_iff Suc_le_eq)
  then show ?thesis
    by (simp add: is_valid_trust_domain_iff list_all_iff list_ex_iff TRUST_DOMAIN_MAX_LEN_def)
qed

end
