(* ===== verification/Vaid_Text.thy ===== *)
theory Vaid_Text
  imports Vaid_Prelude
begin

text \<open>
  The duplicate-member scanner over raw JSON text (\<^verbatim>\<open>document.rs\<close>, \<^verbatim>\<open>has_duplicate_member_names\<close>
  and \<^verbatim>\<open>scan_json_string\<close>).  The index \<^verbatim>\<open>i\<close> of the source is the suffix still to read, the
  stack of open containers is a list with the innermost first.  The scanner is proved correct
  against a grammar of JSON texts: on every text of the grammar, with any white space, it
  answers whether some object of the text has a member name written twice.
\<close>

section \<open>The scanner\<close>

fun scan_json_string :: "string \<Rightarrow> string \<Rightarrow> (string \<times> string) option" where
  "scan_json_string out [] = None"
| "scan_json_string out (c # cs) =
     (if c = CHR 0x22 then Some (out, cs)
      else if c = CHR 0x5C then
        (case cs of [] \<Rightarrow> None | d # ds \<Rightarrow> scan_json_string (out @ [CHR 0x5C, d]) ds)
      else scan_json_string (out @ [c]) cs)"

definition is_ascii_whitespace :: "char \<Rightarrow> bool" where
  "is_ascii_whitespace c = (c \<in> set [CHR 0x20, CHR 0x09, CHR 0x0A, CHR 0x0C, CHR 0x0D])"

text \<open>A string is a key only if the next byte that is not white space is a colon.\<close>

definition colon_follows :: "string \<Rightarrow> bool" where
  "colon_follows s = starts_with_char (dropWhile is_ascii_whitespace s) (CHR '':'')"

lemma scan_json_string_shorter:
  "scan_json_string out s = Some (t, r) \<Longrightarrow> length r < length s"
proof (induction out s rule: scan_json_string.induct)
  case (2 out c cs)
  then show ?case by (cases cs) (auto split: if_splits)
qed simp

function dup_scan :: "string set option list \<Rightarrow> string \<Rightarrow> bool" where
  "dup_scan stack [] = False"
| "dup_scan stack (c # cs) =
     (if c = CHR ''{'' then dup_scan (Some {} # stack) cs
      else if c = CHR ''['' then dup_scan (None # stack) cs
      else if c = CHR ''}'' \<or> c = CHR '']'' then dup_scan (tl stack) cs
      else if c = CHR 0x22 then
        (case scan_json_string [] cs of
           None \<Rightarrow> False
         | Some (name, rest) \<Rightarrow>
             if colon_follows rest then
               (case stack of
                  Some seen # st \<Rightarrow>
                    (if name \<in> seen then True else dup_scan (Some (insert name seen) # st) rest)
                | _ \<Rightarrow> dup_scan stack rest)
             else dup_scan stack rest)
      else dup_scan stack cs)"
  by pat_completeness auto
termination
  by (relation "measure (\<lambda>(st, s). length s)") (auto dest: scan_json_string_shorter)

definition has_duplicate_member_names :: "string \<Rightarrow> bool" where
  "has_duplicate_member_names json = dup_scan [] json"

section \<open>A grammar of JSON texts\<close>

text \<open>Trees with member names and strings as written; a literal is a number, true, false or null.\<close>

datatype jtree =
    TLit string
  | TStr string
  | TArr "jtree list"
  | TObj "(string \<times> jtree) list"

definition ws :: "string \<Rightarrow> bool" where
  "ws w = list_all is_ascii_whitespace w"

definition plain_char :: "char \<Rightarrow> bool" where
  "plain_char c = (c \<notin> set [CHR ''{'', CHR ''}'', CHR ''['', CHR '']'', CHR '':'', CHR 0x22])"

fun raw_body :: "string \<Rightarrow> bool" where
  "raw_body [] = True"
| "raw_body (c # cs) =
     (if c = CHR 0x22 then False
      else if c = CHR 0x5C then (case cs of [] \<Rightarrow> False | d # ds \<Rightarrow> raw_body ds)
      else raw_body cs)"

definition quoted :: "string \<Rightarrow> string" where
  "quoted r = CHR 0x22 # r @ [CHR 0x22]"

inductive jvalue :: "jtree \<Rightarrow> string \<Rightarrow> bool"
  and jelems :: "jtree list \<Rightarrow> string \<Rightarrow> bool"
  and jmembers :: "(string \<times> jtree) list \<Rightarrow> string \<Rightarrow> bool" where
  jlit: "list_all plain_char s \<Longrightarrow> jvalue (TLit s) s"
| jstr: "raw_body r \<Longrightarrow> jvalue (TStr r) (quoted r)"
| jarr: "jelems vs s \<Longrightarrow> jvalue (TArr vs) (''['' @ s @ '']'')"
| jobj: "jmembers ms s \<Longrightarrow> jvalue (TObj ms) (''{'' @ s @ ''}'')"
| jelems_none: "ws w \<Longrightarrow> jelems [] w"
| jelems_one: "ws w1 \<Longrightarrow> jvalue v s \<Longrightarrow> ws w2 \<Longrightarrow> jelems [v] (w1 @ s @ w2)"
| jelems_more: "ws w1 \<Longrightarrow> jvalue v s \<Longrightarrow> ws w2 \<Longrightarrow> jelems (u # vs) t \<Longrightarrow>
     jelems (v # u # vs) (w1 @ s @ w2 @ '','' @ t)"
| jmembers_none: "ws w \<Longrightarrow> jmembers [] w"
| jmembers_one: "ws w1 \<Longrightarrow> raw_body k \<Longrightarrow> ws w2 \<Longrightarrow> ws w3 \<Longrightarrow> jvalue v s \<Longrightarrow> ws w4 \<Longrightarrow>
     jmembers [(k, v)] (w1 @ quoted k @ w2 @ '':'' @ w3 @ s @ w4)"
| jmembers_more: "ws w1 \<Longrightarrow> raw_body k \<Longrightarrow> ws w2 \<Longrightarrow> ws w3 \<Longrightarrow> jvalue v s \<Longrightarrow> ws w4 \<Longrightarrow>
     jmembers (m # ms) t \<Longrightarrow>
     jmembers ((k, v) # m # ms) (w1 @ quoted k @ w2 @ '':'' @ w3 @ s @ w4 @ '','' @ t)"

text \<open>The specification: some object of the tree has two members with the same written name.\<close>

primrec repeats_name :: "jtree \<Rightarrow> bool" where
  "repeats_name (TLit s) = False"
| "repeats_name (TStr r) = False"
| "repeats_name (TArr vs) = list_ex id (map repeats_name vs)"
| "repeats_name (TObj ms) =
     (\<not> distinct (map fst ms) \<or> list_ex snd (map (map_prod id repeats_name) ms))"

text \<open>The same under a reading \<open>name\<close> of the written names, such as the one that resolves escapes.\<close>

primrec repeats_read :: "(string \<Rightarrow> string) \<Rightarrow> jtree \<Rightarrow> bool" where
  "repeats_read name (TLit s) = False"
| "repeats_read name (TStr r) = False"
| "repeats_read name (TArr vs) = list_ex id (map (repeats_read name) vs)"
| "repeats_read name (TObj ms) =
     (\<not> distinct (map (name \<circ> fst) ms) \<or> list_ex snd (map (map_prod id (repeats_read name)) ms))"

primrec names_of_tree :: "jtree \<Rightarrow> string list" where
  "names_of_tree (TLit s) = []"
| "names_of_tree (TStr r) = []"
| "names_of_tree (TArr vs) = concat (map names_of_tree vs)"
| "names_of_tree (TObj ms) = map fst ms @ concat (map snd (map (map_prod id names_of_tree) ms))"

definition escaped :: "string \<Rightarrow> bool" where
  "escaped r = (CHR 0x5C \<in> set r)"

section \<open>Correctness\<close>

lemma repeats_read_mono: "repeats_name v \<Longrightarrow> repeats_read name v"
proof (induction v)
  case (TArr vs)
  then show ?case by (auto simp: list_ex_iff)
next
  case (TObj ms)
  have "distinct (map fst ms)" if "distinct (map (name \<circ> fst) ms)"
    using that distinct_map [of name "map fst ms"] by simp
  with TObj show ?case by (force simp: list_ex_iff)
qed simp_all

lemma repeats_read_plain:
  "\<forall>r \<in> set (names_of_tree v). name r = r \<Longrightarrow> repeats_read name v = repeats_name v"
proof (induction v)
  case (TArr vs)
  then have "\<forall>v \<in> set vs. repeats_read name v = repeats_name v" by auto
  then show ?case by (simp add: list_ex_iff)
next
  case (TObj ms)
  have "\<forall>m \<in> set ms. repeats_read name (snd m) = repeats_name (snd m)"
  proof
    fix m assume m: "m \<in> set ms"
    then have "\<forall>r \<in> set (names_of_tree (snd m)). name r = r" using TObj.prems by fastforce
    with m show "repeats_read name (snd m) = repeats_name (snd m)" by (intro TObj.IH) (auto simp: snds.simps)
  qed
  moreover have names: "map (name \<circ> fst) ms = map fst ms" using TObj.prems by auto
  ultimately show ?case by (simp add: names list_ex_iff)
qed simp_all

lemma scan_raw_body:
  "raw_body r \<Longrightarrow> scan_json_string out (r @ CHR 0x22 # rest) = Some (out @ r, rest)"
proof (induction r arbitrary: out rule: raw_body.induct)
  case (2 c cs)
  show ?case
  proof (cases "c = CHR 0x5C")
    case True
    with 2 show ?thesis by (cases cs) auto
  next
    case False
    with 2 show ?thesis using "2.IH"(2) [of "out @ [c]"] by (auto split: if_splits)
  qed
qed simp

lemma dup_scan_plain [simp]: "plain_char c \<Longrightarrow> dup_scan st (c # s) = dup_scan st s"
  by (simp add: plain_char_def)

lemma whitespace_plain: "is_ascii_whitespace c \<Longrightarrow> plain_char c"
  by (auto simp: is_ascii_whitespace_def plain_char_def)

lemma dup_scan_lit: "list_all plain_char s \<Longrightarrow> dup_scan st (s @ rest) = dup_scan st rest"
  by (induction s) (simp_all del: dup_scan.simps)

lemma dup_scan_ws: "ws w \<Longrightarrow> dup_scan st (w @ rest) = dup_scan st rest"
  by (rule dup_scan_lit) (auto simp: ws_def list_all_iff whitespace_plain)

lemma dup_scan_structural [simp]:
  "dup_scan st (CHR ''{'' # s) = dup_scan (Some {} # st) s"
  "dup_scan st (CHR ''['' # s) = dup_scan (None # st) s"
  "dup_scan st (CHR ''}'' # s) = dup_scan (tl st) s"
  "dup_scan st (CHR '']'' # s) = dup_scan (tl st) s"
  "dup_scan st (CHR '':'' # s) = dup_scan st s"
  "dup_scan st (CHR '','' # s) = dup_scan st s"
  by (simp_all)

lemma dup_scan_quoted:
  assumes "raw_body r"
  shows "dup_scan st (quoted r @ rest) =
     (if colon_follows rest then
        (case st of
           Some seen # st' \<Rightarrow> r \<in> seen \<or> dup_scan (Some (insert r seen) # st') rest
         | _ \<Rightarrow> dup_scan st rest)
      else dup_scan st rest)"
  using scan_raw_body [OF assms, of "[]" rest]
  by (auto simp: quoted_def split: list.splits option.splits)

lemma colon_follows_ws [simp]: "ws w \<Longrightarrow> colon_follows (w @ s) = colon_follows s"
  by (simp add: colon_follows_def ws_def list_all_iff dropWhile_append2)

lemma colon_follows_Cons [simp]:
  "\<not> is_ascii_whitespace c \<Longrightarrow> colon_follows (c # s) \<longleftrightarrow> c = CHR '':''"
  by (simp add: colon_follows_def starts_with_char_def)

lemma structural_not_ws [simp]:
  "\<not> is_ascii_whitespace (CHR '':'')" "\<not> is_ascii_whitespace (CHR '','')"
  "\<not> is_ascii_whitespace (CHR ''}'')" "\<not> is_ascii_whitespace (CHR '']'')"
  by (simp_all add: is_ascii_whitespace_def)

text \<open>Scanning the members of an object whose names \<open>seen\<close> have been read already.\<close>

primrec repeats_after :: "string set \<Rightarrow> (string \<times> jtree) list \<Rightarrow> bool" where
  "repeats_after seen [] = False"
| "repeats_after seen (m # ms) =
     (fst m \<in> seen \<or> repeats_name (snd m) \<or> repeats_after (insert (fst m) seen) ms)"

lemma repeats_after_iff:
  "repeats_after seen ms \<longleftrightarrow>
     \<not> distinct (map fst ms) \<or> seen \<inter> fst ` set ms \<noteq> {} \<or> (\<exists>m \<in> set ms. repeats_name (snd m))"
  by (induction ms arbitrary: seen) auto

lemma repeats_name_TObj: "repeats_name (TObj ms) = repeats_after {} ms"
  by (auto simp: repeats_after_iff list_ex_iff)

lemma scanner_spec:
  "jvalue v s \<Longrightarrow> \<not> colon_follows rest \<Longrightarrow>
     dup_scan st (s @ rest) \<longleftrightarrow> repeats_name v \<or> dup_scan st rest"
  "jelems vs s \<Longrightarrow>
     dup_scan (None # st) (s @ CHR '']'' # rest) \<longleftrightarrow> list_ex repeats_name vs \<or> dup_scan st rest"
  "jmembers ms s \<Longrightarrow>
     dup_scan (Some seen # st) (s @ CHR ''}'' # rest) \<longleftrightarrow> repeats_after seen ms \<or> dup_scan st rest"
proof (induction v s and vs s and ms s arbitrary: st rest and st rest and seen st rest
    rule: jvalue_jelems_jmembers.inducts)
  case (jlit s)
  then show ?case by (simp add: dup_scan_lit)
next
  case (jstr r)
  then show ?case by (simp add: dup_scan_quoted)
next
  case (jarr vs s)
  then show ?case by (simp add: list_ex_iff)
next
  case (jobj ms s)
  then show ?case by (simp add: repeats_name_TObj del: repeats_name.simps)
next
  case (jelems_none w)
  then show ?case by (simp add: dup_scan_ws)
next
  case (jelems_one w1 v s w2)
  then show ?case by (simp add: dup_scan_ws)
next
  case (jelems_more w1 v s w2 u vs t)
  then show ?case by (simp add: dup_scan_ws)
next
  case (jmembers_none w)
  then show ?case by (simp add: dup_scan_ws)
next
  case (jmembers_one w1 k w2 w3 v s w4)
  then show ?case by (simp add: dup_scan_ws dup_scan_quoted)
next
  case (jmembers_more w1 k w2 w3 v s w4 m ms t)
  then show ?case by (simp add: dup_scan_ws dup_scan_quoted del: repeats_after.simps(2) add: repeats_after.simps(2) [of _ "(k, v)"])
qed

text \<open>The compact text of a tree, one text of its grammar.\<close>

definition joined :: "string list \<Rightarrow> string" where
  "joined ps = str_join (CHR '','') ps"

primrec compact :: "jtree \<Rightarrow> string" where
  "compact (TLit s) = s"
| "compact (TStr r) = quoted r"
| "compact (TArr vs) = ''['' @ joined (map compact vs) @ '']''"
| "compact (TObj ms) =
     ''{'' @ joined (map (\<lambda>(k, s). quoted k @ '':'' @ s) (map (map_prod id compact) ms)) @ ''}''"

primrec jtree_ok :: "jtree \<Rightarrow> bool" where
  "jtree_ok (TLit s) = list_all plain_char s"
| "jtree_ok (TStr r) = raw_body r"
| "jtree_ok (TArr vs) = list_all id (map jtree_ok vs)"
| "jtree_ok (TObj ms) = list_all (\<lambda>(k, b). raw_body k \<and> b) (map (map_prod id jtree_ok) ms)"

lemma jelems_compact:
  "\<forall>v \<in> set vs. jvalue v (compact v) \<Longrightarrow> jelems vs (joined (map compact vs))"
proof (induction vs rule: induct_list012)
  case 1
  then show ?case by (simp add: joined_def jelems_none ws_def)
next
  case (2 v)
  then show ?case using jelems_one [of "[]" v "compact v" "[]"] by (simp add: joined_def ws_def)
next
  case (3 v u vs)
  then show ?case
    using jelems_more [of "[]" v "compact v" "[]" u vs "joined (map compact (u # vs))"]
    by (simp add: joined_def ws_def)
qed

lemma jmembers_compact:
  "\<forall>(k, v) \<in> set ms. raw_body k \<and> jvalue v (compact v) \<Longrightarrow>
     jmembers ms (joined (map (\<lambda>(k, v). quoted k @ '':'' @ compact v) ms))"
proof (induction ms rule: induct_list012)
  case 1
  then show ?case by (simp add: joined_def jmembers_none ws_def)
next
  case (2 m)
  then show ?case
    using jmembers_one [of "[]" "fst m" "[]" "[]" "snd m" "compact (snd m)" "[]"]
    by (cases m) (simp add: joined_def ws_def)
next
  case (3 m m' ms)
  then show ?case
    using jmembers_more [of "[]" "fst m" "[]" "[]" "snd m" "compact (snd m)" "[]" m' ms
        "joined (map (\<lambda>(k, v). quoted k @ '':'' @ compact v) (m' # ms))"]
    by (cases m) (simp add: joined_def ws_def)
qed

lemma jvalue_compact: "jtree_ok v \<Longrightarrow> jvalue v (compact v)"
proof (induction v)
  case (TArr vs)
  then show ?case by (auto simp: list_all_iff intro!: jarr [simplified] jelems_compact)
next
  case (TObj ms)
  then have "jmembers ms (joined (map (\<lambda>(k, v). quoted k @ '':'' @ compact v) ms))"
    by (intro jmembers_compact) (fastforce simp: list_all_iff)
  then show ?case by (simp add: jobj [simplified] comp_def case_prod_unfold)
qed (auto intro: jlit jstr)

section \<open>Properties\<close>

text \<open>
  C17.  The scanner is correct on every JSON text of the grammar, with any white space inside and
  around it, for names compared as they are written: it answers true exactly when some object of the
  document, at any depth, has two members with the same written name.  So for names as a parser reads
  them it never reports a repeat that is none, and it misses none as long as no name contains an escape;
  a name spelled once plainly and once with an escape goes unreported.
\<close>

theorem duplicate_names_found:
  assumes "jvalue v s" and "ws before" and "ws after" and "\<forall>r. \<not> escaped r \<longrightarrow> name r = r"
  shows "(has_duplicate_member_names (before @ s @ after) \<longleftrightarrow> repeats_name v) \<and>
    (has_duplicate_member_names (before @ s @ after) \<longrightarrow> repeats_read name v) \<and>
    (list_all (\<lambda>r. \<not> escaped r) (names_of_tree v) \<longrightarrow> has_duplicate_member_names (before @ s @ after) = repeats_read name v) \<and>
    \<not> has_duplicate_member_names (''{'' @ quoted ''a'' @ '':1,'' @ quoted (CHR 0x5C # ''u0061'') @ '':2}'')"
proof -
  have "\<not> colon_follows after"
    using assms(3) colon_follows_ws [of after "[]"] by (simp add: colon_follows_def starts_with_char_def)
  moreover have "\<not> dup_scan [] after" using dup_scan_ws [OF assms(3), of "[]" "[]"] by simp
  ultimately have "has_duplicate_member_names (before @ s @ after) \<longleftrightarrow> repeats_name v"
    using scanner_spec(1) [OF assms(1)] assms(2) by (simp add: has_duplicate_member_names_def dup_scan_ws)
  moreover have "\<not> has_duplicate_member_names (''{'' @ quoted ''a'' @ '':1,'' @ quoted (CHR 0x5C # ''u0061'') @ '':2}'')"
    by code_simp
  ultimately show ?thesis
    using repeats_read_mono [of v name] repeats_read_plain [of v name] assms(4) by (auto simp: list_all_iff)
qed

text \<open>A reading that resolves the one escape of the witness.\<close>

definition read_u0061 :: "string \<Rightarrow> string" where
  "read_u0061 r = (if r = CHR 0x5C # ''u0061'' then ''a'' else r)"

theorem duplicate_names_found_witness:
  "has_duplicate_member_names (''  '' @ compact (TArr [TObj [(''a'', TLit ''1''), (''b'', TStr ''a''), (''a'', TLit ''2'')]]) @ '' '')
   \<and> \<not> has_duplicate_member_names (''  '' @ compact (TArr [TObj [(''a'', TLit ''1'')], TObj [(''a'', TStr ''a'')]]) @ '' '')
   \<and> \<not> has_duplicate_member_names (''  '' @ compact (TObj [(''a'', TLit ''1''), (CHR 0x5C # ''u0061'', TLit ''2'')]) @ '' '')
   \<and> repeats_read read_u0061 (TObj [(''a'', TLit ''1''), (CHR 0x5C # ''u0061'', TLit ''2'')])"
proof -
  let ?v = "TArr [TObj [(''a'', TLit ''1''), (''b'', TStr ''a''), (''a'', TLit ''2'')]]"
  let ?w = "TArr [TObj [(''a'', TLit ''1'')], TObj [(''a'', TStr ''a'')]]"
  let ?e = "TObj [(''a'', TLit ''1''), (CHR 0x5C # ''u0061'', TLit ''2'')]"
  have ok: "jtree_ok ?v" "jtree_ok ?w" "jtree_ok ?e" "ws ''  ''" "ws '' ''" by code_simp+
  have "repeats_name ?v" "\<not> repeats_name ?w" "\<not> repeats_name ?e" "repeats_read read_u0061 ?e" by code_simp+
  moreover have "\<forall>r. \<not> escaped r \<longrightarrow> read_u0061 r = r" by (simp add: escaped_def read_u0061_def)
  ultimately show ?thesis
    using duplicate_names_found [OF jvalue_compact [OF ok(1)] ok(4,5)]
      duplicate_names_found [OF jvalue_compact [OF ok(2)] ok(4,5)]
      duplicate_names_found [OF jvalue_compact [OF ok(3)] ok(4,5)] by blast
qed

end
