(* ===== verification/Vaid_Verify.thy ===== *)
theory Vaid_Verify
  imports Vaid_Revocation Vaid_Identity Vaid_Text
begin

text \<open>
  Public verification (\<^verbatim>\<open>crates/vaid-mint/src/verify.rs\<close>): the graded authenticity check, the
  standing verdict, the entry points that start from text and the ones that bind the caller.
  The wall clock of \<^verbatim>\<open>Vaid::is_expired\<close> is the argument \<open>now\<close>.
\<close>

definition verify_lineage_hash :: "ext \<Rightarrow> vaid \<Rightarrow> bool" where
  "verify_lineage_hash E d = (compute_lineage_hash E (parent_vaid d) (agent_id d) = vd_lineage_hash d)"

datatype VaidVerdict =
    Valid
  | Unparseable
  | UnsupportedSigVersion
  | MalformedTrustDomain
  | IssuerMismatch
  | LineageInconsistent
  | Inauthentic
  | Expired
  | UnknownScopeKind
  | Revoked
  | Indeterminate

definition verdict_ALL :: "VaidVerdict list" where
  "verdict_ALL = [Valid, Unparseable, UnsupportedSigVersion, MalformedTrustDomain, IssuerMismatch,
     LineageInconsistent, Inauthentic, Expired, UnknownScopeKind, VaidVerdict.Revoked, Indeterminate]"

fun is_valid :: "VaidVerdict \<Rightarrow> bool" where
  "is_valid Valid = True"
| "is_valid _ = False"

fun code_of :: "VaidVerdict \<Rightarrow> string" where
  "code_of Valid = ''valid''"
| "code_of Unparseable = ''unparseable''"
| "code_of UnsupportedSigVersion = ''unsupported_sig_version''"
| "code_of MalformedTrustDomain = ''malformed_trust_domain''"
| "code_of IssuerMismatch = ''issuer_mismatch''"
| "code_of LineageInconsistent = ''lineage_inconsistent''"
| "code_of Inauthentic = ''inauthentic''"
| "code_of Expired = ''expired''"
| "code_of UnknownScopeKind = ''unknown_scope_kind''"
| "code_of VaidVerdict.Revoked = ''revoked''"
| "code_of Indeterminate = ''indeterminate''"

definition from_code :: "string \<Rightarrow> VaidVerdict option" where
  "from_code code =
     (if code = ''valid'' then Some Valid
      else if code = ''unparseable'' then Some Unparseable
      else if code = ''unsupported_sig_version'' then Some UnsupportedSigVersion
      else if code = ''malformed_trust_domain'' then Some MalformedTrustDomain
      else if code = ''issuer_mismatch'' then Some IssuerMismatch
      else if code = ''lineage_inconsistent'' then Some LineageInconsistent
      else if code = ''inauthentic'' then Some Inauthentic
      else if code = ''expired'' then Some Expired
      else if code = ''unknown_scope_kind'' then Some UnknownScopeKind
      else if code = ''revoked'' then Some VaidVerdict.Revoked
      else if code = ''indeterminate'' then Some Indeterminate
      else None)"

definition verify_vaid_authenticity_graded :: "ext \<Rightarrow> bytes \<Rightarrow> vaid \<Rightarrow> VaidVerdict" where
  "verify_vaid_authenticity_graded E kernel_public_key d =
     (if vd_sig_version d \<noteq> VAID_SIG_VERSION_V4 then UnsupportedSigVersion
      else if \<not> is_valid_trust_domain (vd_trust_domain d) then MalformedTrustDomain
      else if vd_kernel_key_thumbprint d \<noteq> kernel_key_thumbprint E kernel_public_key then IssuerMismatch
      else if \<not> verify_lineage_hash E d then LineageInconsistent
      else if \<not> ext_verify E kernel_public_key (canonical_vaid_signing_bytes E d) (vd_kernel_signature d)
      then Inauthentic
      else Valid)"

definition verify_vaid_authenticity :: "ext \<Rightarrow> bytes \<Rightarrow> vaid \<Rightarrow> bool" where
  "verify_vaid_authenticity E kernel_public_key d =
     is_valid (verify_vaid_authenticity_graded E kernel_public_key d)"

definition verify_vaid_standing ::
  "ext \<Rightarrow> instant \<Rightarrow> bytes \<Rightarrow> vaid \<Rightarrow> RevocationStatus \<Rightarrow> VaidVerdict" where
  "verify_vaid_standing E now kernel_public_key d revocation =
     (let authenticity = verify_vaid_authenticity_graded E kernel_public_key d in
      if \<not> is_valid authenticity then authenticity
      else if is_expired_at E d now then Expired
      else if \<not> boundary_is_evaluable (vd_scope_boundary d) then UnknownScopeKind
      else (case revocation of
              NotRevoked \<Rightarrow> Valid
            | RevocationStatus.Revoked \<Rightarrow> VaidVerdict.Revoked
            | Unavailable \<Rightarrow> Indeterminate))"

definition verify_vaid_standing_from_json ::
  "ext \<Rightarrow> instant \<Rightarrow> bytes \<Rightarrow> string \<Rightarrow> RevocationStatus \<Rightarrow> VaidVerdict" where
  "verify_vaid_standing_from_json E now kernel_public_key document_json revocation =
     (if has_duplicate_member_names document_json then Unparseable
      else (case vaid_from_str E document_json of
              Some d \<Rightarrow> verify_vaid_standing E now kernel_public_key d revocation
            | None \<Rightarrow> Unparseable))"

record expected_caller =
  ec_agent_id :: "string option"
  ec_agent_class :: "string option"
  ec_tenant_id :: "string option"

definition expected_none :: expected_caller where
  "expected_none = \<lparr>ec_agent_id = None, ec_agent_class = None, ec_tenant_id = None\<rparr>"

definition caller_matches :: "ext \<Rightarrow> expected_caller \<Rightarrow> vaid \<Rightarrow> bool" where
  "caller_matches E e d =
     ((case ec_agent_id e of None \<Rightarrow> True | Some x \<Rightarrow> x = ext_uuid_to_string E (agent_id d))
      \<and> (case ec_agent_class e of None \<Rightarrow> True | Some x \<Rightarrow> x = vd_agent_class d)
      \<and> (case ec_tenant_id e of None \<Rightarrow> True | Some x \<Rightarrow> x = vd_tenant_id d))"

datatype CallerMismatchError = CallerMismatch

definition verify_vaid_standing_bound ::
  "ext \<Rightarrow> instant \<Rightarrow> bytes \<Rightarrow> vaid \<Rightarrow> RevocationStatus \<Rightarrow> expected_caller \<Rightarrow>
   CallerMismatchError + VaidVerdict" where
  "verify_vaid_standing_bound E now kernel_public_key d revocation expected =
     (let verdict = verify_vaid_standing E now kernel_public_key d revocation in
      if is_valid verdict \<and> \<not> caller_matches E expected d then Inl CallerMismatch else Inr verdict)"

definition verify_vaid_standing_bound_from_json ::
  "ext \<Rightarrow> instant \<Rightarrow> bytes \<Rightarrow> string \<Rightarrow> RevocationStatus \<Rightarrow> expected_caller \<Rightarrow>
   CallerMismatchError + VaidVerdict" where
  "verify_vaid_standing_bound_from_json E now kernel_public_key document_json revocation expected =
     (if has_duplicate_member_names document_json then Inr Unparseable
      else (case vaid_from_str E document_json of
              Some d \<Rightarrow> verify_vaid_standing_bound E now kernel_public_key d revocation expected
            | None \<Rightarrow> Inr Unparseable))"

section \<open>Lemmas\<close>

lemma is_valid_iff [simp]: "is_valid v \<longleftrightarrow> v = Valid"
  by (cases v) simp_all

lemma from_code_code_of [simp]: "from_code (code_of v) = Some v"
  by (cases v) (simp_all add: from_code_def)

lemma code_of_from_code: "from_code s = Some v \<Longrightarrow> code_of v = s"
  by (auto simp: from_code_def split: if_splits)

lemma verdict_ALL_complete: "v \<in> set verdict_ALL" "distinct verdict_ALL"
  by (cases v; simp add: verdict_ALL_def) (simp add: verdict_ALL_def)

lemma graded_Valid_iff:
  "verify_vaid_authenticity_graded E pk d = Valid \<longleftrightarrow>
     vd_sig_version d = VAID_SIG_VERSION_V4 \<and> is_valid_trust_domain (vd_trust_domain d) \<and>
     vd_kernel_key_thumbprint d = kernel_key_thumbprint E pk \<and> verify_lineage_hash E d \<and>
     ext_verify E pk (canonical_vaid_signing_bytes E d) (vd_kernel_signature d)"
  by (simp add: verify_vaid_authenticity_graded_def)

lemmas authentic_iff = verify_vaid_authenticity_def [unfolded is_valid_iff graded_Valid_iff]

lemma graded_range:
  "verify_vaid_authenticity_graded E pk d \<in>
     {Valid, UnsupportedSigVersion, MalformedTrustDomain, IssuerMismatch, LineageInconsistent, Inauthentic}"
  by (simp add: verify_vaid_authenticity_graded_def)

lemma graded_other:
  "verify_vaid_authenticity_graded E pk d \<noteq> Expired" "verify_vaid_authenticity_graded E pk d \<noteq> UnknownScopeKind"
  "verify_vaid_authenticity_graded E pk d \<noteq> VaidVerdict.Revoked"
  "verify_vaid_authenticity_graded E pk d \<noteq> Indeterminate"
  using graded_range [of E pk d] by auto

lemma standing_Valid_iff:
  "verify_vaid_standing E now pk d rv = Valid \<longleftrightarrow>
     verify_vaid_authenticity E pk d \<and> \<not> is_expired_at E d now \<and>
     boundary_is_evaluable (vd_scope_boundary d) \<and> rv = NotRevoked"
  by (auto simp: verify_vaid_standing_def verify_vaid_authenticity_def Let_def
        split: RevocationStatus.splits)

lemma standing_inauthentic:
  "\<not> verify_vaid_authenticity E pk d \<Longrightarrow>
     verify_vaid_standing E now pk d rv = verify_vaid_authenticity_graded E pk d"
  by (simp add: verify_vaid_standing_def verify_vaid_authenticity_def Let_def)

section \<open>Properties\<close>

text \<open>
  C19.  The standing verdict, state by state: it is the first fault in the fixed order of version, trust
  domain, thumbprint, lineage hash, signature, expiry, scope kinds and revocation.  Each verdict is returned
  exactly when the checks before its own have passed and its own has not, and \<^verbatim>\<open>Valid\<close> exactly when
  all of them have passed; a parsed document is never reported unparseable.
\<close>

theorem standing_exact:
  "(verify_vaid_standing E now pk d rv = UnsupportedSigVersion \<longleftrightarrow>
      vd_sig_version d \<noteq> VAID_SIG_VERSION_V4) \<and>
   (verify_vaid_standing E now pk d rv = MalformedTrustDomain \<longleftrightarrow>
      vd_sig_version d = VAID_SIG_VERSION_V4 \<and> \<not> is_valid_trust_domain (vd_trust_domain d)) \<and>
   (verify_vaid_standing E now pk d rv = IssuerMismatch \<longleftrightarrow>
      vd_sig_version d = VAID_SIG_VERSION_V4 \<and> is_valid_trust_domain (vd_trust_domain d) \<and>
      vd_kernel_key_thumbprint d \<noteq> kernel_key_thumbprint E pk) \<and>
   (verify_vaid_standing E now pk d rv = LineageInconsistent \<longleftrightarrow>
      vd_sig_version d = VAID_SIG_VERSION_V4 \<and> is_valid_trust_domain (vd_trust_domain d) \<and>
      vd_kernel_key_thumbprint d = kernel_key_thumbprint E pk \<and> \<not> verify_lineage_hash E d) \<and>
   (verify_vaid_standing E now pk d rv = Inauthentic \<longleftrightarrow>
      vd_sig_version d = VAID_SIG_VERSION_V4 \<and> is_valid_trust_domain (vd_trust_domain d) \<and>
      vd_kernel_key_thumbprint d = kernel_key_thumbprint E pk \<and> verify_lineage_hash E d \<and>
      \<not> ext_verify E pk (canonical_vaid_signing_bytes E d) (vd_kernel_signature d)) \<and>
   (verify_vaid_standing E now pk d rv = Expired \<longleftrightarrow>
      vd_sig_version d = VAID_SIG_VERSION_V4 \<and> is_valid_trust_domain (vd_trust_domain d) \<and>
      vd_kernel_key_thumbprint d = kernel_key_thumbprint E pk \<and> verify_lineage_hash E d \<and>
      ext_verify E pk (canonical_vaid_signing_bytes E d) (vd_kernel_signature d) \<and> is_expired_at E d now) \<and>
   (verify_vaid_standing E now pk d rv = UnknownScopeKind \<longleftrightarrow>
      vd_sig_version d = VAID_SIG_VERSION_V4 \<and> is_valid_trust_domain (vd_trust_domain d) \<and>
      vd_kernel_key_thumbprint d = kernel_key_thumbprint E pk \<and> verify_lineage_hash E d \<and>
      ext_verify E pk (canonical_vaid_signing_bytes E d) (vd_kernel_signature d) \<and>
      \<not> is_expired_at E d now \<and> \<not> boundary_is_evaluable (vd_scope_boundary d)) \<and>
   (verify_vaid_standing E now pk d rv = VaidVerdict.Revoked \<longleftrightarrow>
      vd_sig_version d = VAID_SIG_VERSION_V4 \<and> is_valid_trust_domain (vd_trust_domain d) \<and>
      vd_kernel_key_thumbprint d = kernel_key_thumbprint E pk \<and> verify_lineage_hash E d \<and>
      ext_verify E pk (canonical_vaid_signing_bytes E d) (vd_kernel_signature d) \<and>
      \<not> is_expired_at E d now \<and> boundary_is_evaluable (vd_scope_boundary d) \<and>
      rv = RevocationStatus.Revoked) \<and>
   (verify_vaid_standing E now pk d rv = Indeterminate \<longleftrightarrow>
      vd_sig_version d = VAID_SIG_VERSION_V4 \<and> is_valid_trust_domain (vd_trust_domain d) \<and>
      vd_kernel_key_thumbprint d = kernel_key_thumbprint E pk \<and> verify_lineage_hash E d \<and>
      ext_verify E pk (canonical_vaid_signing_bytes E d) (vd_kernel_signature d) \<and>
      \<not> is_expired_at E d now \<and> boundary_is_evaluable (vd_scope_boundary d) \<and> rv = Unavailable) \<and>
   (verify_vaid_standing E now pk d rv = Valid \<longleftrightarrow>
      vd_sig_version d = VAID_SIG_VERSION_V4 \<and> is_valid_trust_domain (vd_trust_domain d) \<and>
      vd_kernel_key_thumbprint d = kernel_key_thumbprint E pk \<and> verify_lineage_hash E d \<and>
      ext_verify E pk (canonical_vaid_signing_bytes E d) (vd_kernel_signature d) \<and>
      \<not> is_expired_at E d now \<and> boundary_is_evaluable (vd_scope_boundary d) \<and> rv = NotRevoked) \<and>
   verify_vaid_standing E now pk d rv \<noteq> Unparseable"
proof -
  have "verify_vaid_standing E now pk d rv =
      (if vd_sig_version d \<noteq> VAID_SIG_VERSION_V4 then UnsupportedSigVersion
       else if \<not> is_valid_trust_domain (vd_trust_domain d) then MalformedTrustDomain
       else if vd_kernel_key_thumbprint d \<noteq> kernel_key_thumbprint E pk then IssuerMismatch
       else if \<not> verify_lineage_hash E d then LineageInconsistent
       else if \<not> ext_verify E pk (canonical_vaid_signing_bytes E d) (vd_kernel_signature d) then Inauthentic
       else if is_expired_at E d now then Expired
       else if \<not> boundary_is_evaluable (vd_scope_boundary d) then UnknownScopeKind
       else (case rv of NotRevoked \<Rightarrow> Valid | RevocationStatus.Revoked \<Rightarrow> VaidVerdict.Revoked | Unavailable \<Rightarrow> Indeterminate))"
    by (simp add: verify_vaid_standing_def verify_vaid_authenticity_graded_def)
  then show ?thesis by (cases rv) simp_all
qed

text \<open>
  The wire codes are a bijection between the verdicts, listed completely and without repetition
  by \<^verbatim>\<open>ALL\<close>, and the strings that \<^verbatim>\<open>from_code\<close> accepts.
\<close>

lemma verdict_codes_bijective:
  "(from_code s = Some v \<longleftrightarrow> code_of v = s) \<and> v \<in> set verdict_ALL \<and> distinct verdict_ALL"
  using from_code_code_of [of v] code_of_from_code [of s v] verdict_ALL_complete(1) [of v] verdict_ALL_complete(2) by blast

text \<open>
  Caller binding refuses exactly the valid documents that do not match the expected caller, never
  hides another verdict, and with no expectation it is the unbound verdict, from text too.
\<close>

lemma caller_binding:
  "(verify_vaid_standing_bound E now pk d rv ec = Inl CallerMismatch \<longleftrightarrow>
      verify_vaid_standing E now pk d rv = Valid \<and> \<not> caller_matches E ec d) \<and>
   (verify_vaid_standing_bound E now pk d rv ec = Inr v \<longleftrightarrow>
      verify_vaid_standing E now pk d rv = v \<and> \<not> (v = Valid \<and> \<not> caller_matches E ec d)) \<and>
   verify_vaid_standing_bound_from_json E now pk t rv expected_none =
     Inr (verify_vaid_standing_from_json E now pk t rv)"
proof -
  have "caller_matches E expected_none d'" for d' by (simp add: caller_matches_def expected_none_def)
  then show ?thesis
    by (auto simp: verify_vaid_standing_bound_def verify_vaid_standing_bound_from_json_def
          verify_vaid_standing_from_json_def Let_def split: option.splits)
qed

text \<open>
  A document text with a repeated member name, in any object at any depth, is not a document:
  both text entry points answer \<^verbatim>\<open>Unparseable\<close>, whatever the parser would have made of it.
\<close>

lemma repeated_names_unparseable:
  assumes "jvalue v s" and "repeats_name v"
  shows "verify_vaid_standing_from_json E now pk s rv = Unparseable \<and>
    verify_vaid_standing_bound_from_json E now pk s rv ec = Inr Unparseable"
proof -
  have "\<not> colon_follows []" by (simp add: colon_follows_def starts_with_char_def)
  with scanner_spec(1) [OF assms(1), of "[]" "[]"] assms(2) have "has_duplicate_member_names s"
    by (simp add: has_duplicate_member_names_def)
  then show ?thesis
    by (simp add: verify_vaid_standing_from_json_def verify_vaid_standing_bound_from_json_def)
qed

end
