(* ===== verification/Vaid_Attenuation.thy ===== *)
theory Vaid_Attenuation
  imports Vaid_Document
begin

text \<open>
  The attenuation predicates of \<^verbatim>\<open>crates/vaid-mint/src/mint.rs\<close> that the mint and the chain
  verifier share: scope, capabilities, the qualified tenant, expiry.  Each one is an instance of
  \<open>containment_order\<close>: it composes along a chain.  The scope rule is proved sound for the
  matcher (an attenuated child admits no resource its parent refuses) and exact.
\<close>

datatype AttenuationReason = Attenuated | ScopeEscalation | UnknownScopeKind

definition scope_attenuation_reason :: "scope_entry list \<Rightarrow> scope_entry list \<Rightarrow> AttenuationReason" where
  "scope_attenuation_reason parent_scope child_scope =
     (if \<not> boundary_is_evaluable parent_scope \<or> \<not> boundary_is_evaluable child_scope
      then UnknownScopeKind
      else
        let attenuates =
          (if child_scope = [] then parent_scope = []
           else list_all (\<lambda>child. case entry_claimed_resource child of
                   None \<Rightarrow> False
                 | Some resource \<Rightarrow> scope_contains parent_scope resource) child_scope)
        in if attenuates then Attenuated else ScopeEscalation)"

definition scope_attenuates_within :: "scope_entry list \<Rightarrow> scope_entry list \<Rightarrow> bool" where
  "scope_attenuates_within parent_scope child_scope =
     (scope_attenuation_reason parent_scope child_scope = Attenuated)"

definition scope_attenuates :: "vaid \<Rightarrow> scope_entry list \<Rightarrow> bool" where
  "scope_attenuates parent child_scope = scope_attenuates_within (vd_scope_boundary parent) child_scope"

definition tenant_attenuates :: "vaid \<Rightarrow> string \<Rightarrow> string \<Rightarrow> bool" where
  "tenant_attenuates parent child_trust_domain child_tenant =
     (vd_trust_domain parent = child_trust_domain \<and> vd_tenant_id parent = child_tenant)"

definition caps_attenuate_within :: "string list \<Rightarrow> string list \<Rightarrow> bool" where
  "caps_attenuate_within parent_caps child_caps = list_all (caps_contain parent_caps) child_caps"

definition caps_attenuate :: "vaid \<Rightarrow> string list \<Rightarrow> bool" where
  "caps_attenuate parent child_caps = caps_attenuate_within (vd_capability_set parent) child_caps"

definition expiry_attenuates_within :: "ext \<Rightarrow> string \<Rightarrow> string option \<Rightarrow> bool" where
  "expiry_attenuates_within E parent_expires_at child_expires_at =
     (case (parse_rfc3339 E parent_expires_at, Option.bind child_expires_at (parse_rfc3339 E)) of
        (Some parent, Some child) \<Rightarrow> child \<le> parent
      | _ \<Rightarrow> False)"

definition expiry_attenuates :: "ext \<Rightarrow> vaid \<Rightarrow> string option \<Rightarrow> bool" where
  "expiry_attenuates E parent child_expires_at =
     expiry_attenuates_within E (vd_expires_at parent) child_expires_at"

section \<open>Lemmas\<close>

lemma scope_attenuates_within_prefixes:
  "scope_attenuates_within p c \<longleftrightarrow>
     (\<exists>ps cs. p = map prefix_entry ps \<and> c = map prefix_entry cs \<and>
        (if cs = [] then ps = [] else ps = [] \<or> (\<forall>r \<in> set cs. \<exists>q \<in> set ps. prefix_contains q r)))"
  (is "_ \<longleftrightarrow> ?R")
proof
  assume att: "scope_attenuates_within p c"
  then have "boundary_is_evaluable p" and "boundary_is_evaluable c"
    by (auto simp: scope_attenuates_within_def scope_attenuation_reason_def split: if_splits)
  then obtain ps cs where "p = map prefix_entry ps" and "c = map prefix_entry cs"
    by (auto simp: boundary_evaluable_prefixes)
  with att show ?R
    by (intro exI [of _ ps] exI [of _ cs])
       (auto simp: scope_attenuates_within_def scope_attenuation_reason_def list_all_iff Let_def
          scope_contains_prefixes split: if_splits)
next
  assume ?R
  then obtain ps cs where pc: "p = map prefix_entry ps" "c = map prefix_entry cs"
    and cond: "if cs = [] then ps = [] else ps = [] \<or> (\<forall>r \<in> set cs. \<exists>q \<in> set ps. prefix_contains q r)"
    by blast
  have "boundary_is_evaluable p" and "boundary_is_evaluable c"
    using pc by (auto simp: boundary_evaluable_prefixes)
  with pc cond show "scope_attenuates_within p c"
    by (auto simp: scope_attenuates_within_def scope_attenuation_reason_def list_all_iff Let_def
          scope_contains_prefixes split: if_splits)
qed

lemma scope_attenuates_within_trans:
  assumes "scope_attenuates_within p c" and "scope_attenuates_within c g"
  shows "scope_attenuates_within p g"
proof -
  from assms(1) obtain ps cs where pc: "p = map prefix_entry ps" "c = map prefix_entry cs"
    and one: "if cs = [] then ps = [] else ps = [] \<or> (\<forall>r \<in> set cs. \<exists>q \<in> set ps. prefix_contains q r)"
    unfolding scope_attenuates_within_prefixes by blast
  from assms(2) obtain cs' gs where cg: "c = map prefix_entry cs'" "g = map prefix_entry gs"
    and two: "if gs = [] then cs' = [] else cs' = [] \<or> (\<forall>r \<in> set gs. \<exists>q \<in> set cs'. prefix_contains q r)"
    unfolding scope_attenuates_within_prefixes by blast
  have "inj prefix_entry" by (simp add: inj_def)
  with pc cg have "cs' = cs" by (simp add: inj_map_eq_map)
  with one two have
    "if gs = [] then ps = [] else ps = [] \<or> (\<forall>r \<in> set gs. \<exists>q \<in> set ps. prefix_contains q r)"
    by (auto split: if_splits) (meson prefix_contains_trans)
  with pc cg show ?thesis unfolding scope_attenuates_within_prefixes by blast
qed

lemma scope_attenuates_within_sound:
  "scope_attenuates_within p c \<Longrightarrow> scope_contains c r \<Longrightarrow> scope_contains p r"
  unfolding scope_attenuates_within_prefixes
  by (auto simp: scope_contains_prefixes split: if_splits) (meson prefix_contains_trans)

text \<open>A boundary with an entry whose prefix is empty admits everything, like the empty boundary.\<close>

definition has_empty_prefix :: "scope_entry list \<Rightarrow> bool" where
  "has_empty_prefix b = (prefix_entry [] \<in> set b)"

lemma scope_escalation_counterexample:
  assumes "scope_attenuation_reason p c = ScopeEscalation" and "\<not> has_empty_prefix p"
  shows "\<exists>r. scope_contains c r \<and> \<not> scope_contains p r"
proof -
  from assms(1) have "boundary_is_evaluable p" and "boundary_is_evaluable c"
    by (auto simp: scope_attenuation_reason_def split: if_splits)
  then obtain ps cs where pc: "p = map prefix_entry ps" "c = map prefix_entry cs"
    by (auto simp: boundary_evaluable_prefixes)
  have no: "\<not> scope_attenuates_within p c" using assms(1) by (simp add: scope_attenuates_within_def)
  have nn: "[] \<notin> set ps" using assms(2) pc by (auto simp: has_empty_prefix_def)
  show ?thesis
  proof (cases "cs = []")
    case True
    with no pc have "ps \<noteq> []" by (auto simp: scope_attenuates_within_prefixes)
    with pc True nn show ?thesis
      by (intro exI [of _ "[]"])
         (auto simp: scope_contains_prefixes scope_contains_empty prefix_contains_Nil)
  next
    case False
    with no pc have "ps \<noteq> []" and "\<not> (\<forall>r \<in> set cs. \<exists>q \<in> set ps. prefix_contains q r)"
      unfolding scope_attenuates_within_prefixes by (metis)+
    then obtain r where "r \<in> set cs" "\<not> (\<exists>q \<in> set ps. prefix_contains q r)" by blast
    with pc \<open>ps \<noteq> []\<close> show ?thesis
      by (intro exI [of _ r]) (auto simp: scope_contains_prefixes intro: prefix_contains_refl)
  qed
qed

lemma scope_attenuates_within_exact:
  assumes "boundary_is_evaluable p" and "boundary_is_evaluable c" and "\<not> has_empty_prefix p"
  shows "scope_attenuates_within p c \<longleftrightarrow> (\<forall>r. scope_contains c r \<longrightarrow> scope_contains p r)"
proof (cases "scope_attenuation_reason p c")
  case Attenuated
  then show ?thesis by (auto simp: scope_attenuates_within_def
        intro: scope_attenuates_within_sound [unfolded scope_attenuates_within_def])
next
  case ScopeEscalation
  with scope_escalation_counterexample assms(3) show ?thesis
    by (auto simp: scope_attenuates_within_def)
next
  case UnknownScopeKind
  with assms show ?thesis by (auto simp: scope_attenuation_reason_def Let_def split: if_splits)
qed

lemma caps_attenuate_within_iff: "caps_attenuate_within p c \<longleftrightarrow> set c \<subseteq> set p"
  by (auto simp: caps_attenuate_within_def list_all_iff)

lemma expiry_attenuates_within_iff:
  "expiry_attenuates_within E p c \<longleftrightarrow>
     (\<exists>tp s tc. parse_rfc3339 E p = Some tp \<and> c = Some s \<and> parse_rfc3339 E s = Some tc \<and> tc \<le> tp)"
  by (auto simp: expiry_attenuates_within_def split: option.splits bind_splits)

lemma expiry_within_alive:
  "expiry_attenuates E p (Some (vd_expires_at c)) \<Longrightarrow> \<not> is_expired_at E c now \<Longrightarrow> \<not> is_expired_at E p now"
  by (auto simp: expiry_attenuates_def expiry_attenuates_within_iff is_expired_at_def expires_at_def)

section \<open>The checks compose along a chain\<close>

interpretation scope_order: containment_order scope_attenuates_within
  by unfold_locales (rule scope_attenuates_within_trans)

interpretation caps_order: containment_order caps_attenuate_within
  by unfold_locales (auto simp: caps_attenuate_within_iff)

interpretation expiry_order: containment_order "\<lambda>p c. expiry_attenuates_within E p (Some c)" for E
  by unfold_locales (auto simp: expiry_attenuates_within_iff)

interpretation tenant_order: containment_order
  "\<lambda>p c. tenant_attenuates p (vd_trust_domain c) (vd_tenant_id c)"
  by unfold_locales (auto simp: tenant_attenuates_def)

section \<open>Properties\<close>

text \<open>The resources a boundary grants.\<close>

definition granted :: "scope_entry list \<Rightarrow> string set" where
  "granted b = {r. scope_contains b r}"

text \<open>
  C7.  Attenuation is exactly containment of what is granted: between two boundaries that can be
  evaluated, the syntactic check of the mint and of the chain verifier accepts the child if and
  only if every resource the child admits is admitted by the parent.  (A parent with an explicit
  empty prefix is excluded: it grants everything, but the check refuses an empty child under it.)
\<close>

theorem scope_attenuation_exact:
  assumes "boundary_is_evaluable p" and "boundary_is_evaluable c" and "\<not> has_empty_prefix p"
  shows "scope_attenuates_within p c \<longleftrightarrow> granted c \<subseteq> granted p"
  using scope_attenuates_within_exact [OF assms] by (auto simp: granted_def)

theorem scope_attenuation_exact_witness:
  "\<not> granted [prefix_entry ''database''] \<subseteq> granted [prefix_entry ''data''] \<and>
   granted [prefix_entry ''data/a''] \<subseteq> granted [prefix_entry ''data'']"
proof -
  have ev: "boundary_is_evaluable [prefix_entry ''data'']" "boundary_is_evaluable [prefix_entry ''database'']"
    "boundary_is_evaluable [prefix_entry ''data/a'']" "\<not> has_empty_prefix [prefix_entry ''data'']"
    by code_simp+
  have "\<not> scope_attenuates_within [prefix_entry ''data''] [prefix_entry ''database'']"
    "scope_attenuates_within [prefix_entry ''data''] [prefix_entry ''data/a'']"
    by code_simp+
  then show ?thesis
    using scope_attenuation_exact [OF ev(1) ev(2) ev(4)] scope_attenuation_exact [OF ev(1) ev(3) ev(4)] by simp
qed

text \<open>
  C8.  A boundary with an entry this implementation cannot evaluate fails closed on both sides of a
  hop: it admits no resource, nothing attenuates it and it attenuates nothing, and the reason
  given is the unknown kind and not an escalation.
\<close>

theorem unreadable_boundary_refused:
  assumes "\<not> boundary_is_evaluable b"
  shows "granted b = {} \<and> scope_attenuation_reason b c = UnknownScopeKind \<and>
    scope_attenuation_reason p b = UnknownScopeKind \<and>
    \<not> scope_attenuates_within b c \<and> \<not> scope_attenuates_within p b"
  using assms
  by (auto simp: granted_def scope_contains_iff scope_attenuation_reason_def scope_attenuates_within_def)

theorem unreadable_boundary_refused_witness:
  "granted [prefix_entry ''data'', \<lparr>se_kind = ''glob'', se_value = JString ''*''\<rparr>] = {}"
proof -
  have "\<not> boundary_is_evaluable [prefix_entry ''data'', \<lparr>se_kind = ''glob'', se_value = JString ''*''\<rparr>]"
    by code_simp
  from unreadable_boundary_refused [OF this, of "[]" "[]"] show ?thesis by simp
qed

end
