(* ===== verification/Vaid_Attestation.thy ===== *)
theory Vaid_Attestation
  imports Vaid_Verify Vaid_Attenuation "HOL-Library.Product_Lexorder"
begin

text \<open>
  Consent attestations (\<^verbatim>\<open>crates/vaid-mint/src/attestation.rs\<close>): the signed statement of a parent
  issuer that a cross-key delegation needs, its wire form in both directions, its validity window,
  its signing digest and the bundle that files each attestation under the hop it covers.
\<close>

definition ATTESTATION_VERSION :: u8 where
  "ATTESTATION_VERSION = 1"

text \<open>The clock skew the mint allows a proof of possession, shared with attestations.\<close>

definition MINT_POP_FRESHNESS_SECS :: int where
  "MINT_POP_FRESHNESS_SECS = 300"

record consent_attestation =
  att_version :: u8
  att_parent_vaid :: uuid
  att_child_vaid :: uuid
  att_child_trust_domain :: string
  att_child_tenant_id :: string
  att_issued_at :: instant
  att_expires_at :: instant
  att_scope_boundary :: "scope_entry list"
  att_capability_set :: "string list"
  att_trust_domain :: string
  att_kernel_key_thumbprint :: string
  att_signature :: bytes

definition attestation_new ::
  "uuid \<Rightarrow> uuid \<Rightarrow> string \<Rightarrow> string \<Rightarrow> instant \<Rightarrow> instant \<Rightarrow> scope_entry list \<Rightarrow> string list \<Rightarrow> string \<Rightarrow>
   string \<Rightarrow> consent_attestation" where
  "attestation_new parent child child_trust_domain child_tenant_id issued expires scope_boundary
     capability_set trust_domain thumbprint =
   \<lparr>att_version = ATTESTATION_VERSION, att_parent_vaid = parent, att_child_vaid = child,
    att_child_trust_domain = child_trust_domain, att_child_tenant_id = child_tenant_id,
    att_issued_at = issued, att_expires_at = expires, att_scope_boundary = scope_boundary,
    att_capability_set = capability_set, att_trust_domain = trust_domain,
    att_kernel_key_thumbprint = thumbprint, att_signature = []\<rparr>"

definition with_signature :: "consent_attestation \<Rightarrow> bytes \<Rightarrow> consent_attestation" where
  "with_signature a sig = a\<lparr>att_signature := sig\<rparr>"

definition att_hop :: "consent_attestation \<Rightarrow> uuid \<times> uuid" where
  "att_hop a = (att_parent_vaid a, att_child_vaid a)"

definition is_current :: "consent_attestation \<Rightarrow> instant \<Rightarrow> bool" where
  "is_current a now =
     (if att_expires_at a \<le> att_issued_at a then False
      else if now > att_expires_at a then False
      else now \<ge> att_issued_at a - MINT_POP_FRESHNESS_SECS * nanos_per_sec)"

definition ser_attestation :: "ext \<Rightarrow> consent_attestation \<Rightarrow> json" where
  "ser_attestation E a = JObject (map_collect
     [(''att_version'', ser_u8 (att_version a)),
      (''parent_vaid'', ser_uuid E (att_parent_vaid a)),
      (''child_vaid'', ser_uuid E (att_child_vaid a)),
      (''child_trust_domain'', JString (att_child_trust_domain a)),
      (''child_tenant_id'', JString (att_child_tenant_id a)),
      (''issued_at'', ser_datetime E (att_issued_at a)),
      (''expires_at'', ser_datetime E (att_expires_at a)),
      (''scope_boundary'', JArray (map ser_scope_entry (att_scope_boundary a))),
      (''capability_set'', ser_strings (att_capability_set a)),
      (''trust_domain'', JString (att_trust_domain a)),
      (''kernel_key_thumbprint'', JString (att_kernel_key_thumbprint a)),
      (''signature'', ser_bytes (att_signature a))])"

definition attestation_field_names :: "string list" where
  "attestation_field_names = [''att_version'', ''parent_vaid'', ''child_vaid'', ''child_trust_domain'',
     ''child_tenant_id'', ''issued_at'', ''expires_at'', ''scope_boundary'', ''capability_set'',
     ''trust_domain'', ''kernel_key_thumbprint'', ''signature'']"

definition de_attestation :: "ext \<Rightarrow> json \<Rightarrow> consent_attestation option" where
  "de_attestation E v = do {
     f \<leftarrow> struct_fields attestation_field_names v;
     ver \<leftarrow> f ''att_version'' \<bind> de_u8;
     parent \<leftarrow> f ''parent_vaid'' \<bind> de_uuid E;
     child \<leftarrow> f ''child_vaid'' \<bind> de_uuid E;
     child_trust_domain \<leftarrow> f ''child_trust_domain'' \<bind> as_str;
     child_tenant_id \<leftarrow> f ''child_tenant_id'' \<bind> as_str;
     issued \<leftarrow> f ''issued_at'' \<bind> de_datetime E;
     expires \<leftarrow> f ''expires_at'' \<bind> de_datetime E;
     scope_boundary \<leftarrow> f ''scope_boundary'' \<bind> de_vec de_scope_entry;
     capability_set \<leftarrow> f ''capability_set'' \<bind> de_vec as_str;
     trust_domain \<leftarrow> f ''trust_domain'' \<bind> as_str;
     thumbprint \<leftarrow> f ''kernel_key_thumbprint'' \<bind> as_str;
     sig \<leftarrow> f ''signature'' \<bind> de_vec de_u8;
     Some \<lparr>att_version = ver, att_parent_vaid = parent, att_child_vaid = child,
       att_child_trust_domain = child_trust_domain, att_child_tenant_id = child_tenant_id,
       att_issued_at = issued, att_expires_at = expires, att_scope_boundary = scope_boundary,
       att_capability_set = capability_set, att_trust_domain = trust_domain,
       att_kernel_key_thumbprint = thumbprint, att_signature = sig\<rparr> }"

definition attestation_signing_value :: "ext \<Rightarrow> consent_attestation \<Rightarrow> json" where
  "attestation_signing_value E a = object_insert ''signature'' Null (ser_attestation E a)"

definition canonical_attestation_signing_bytes :: "ext \<Rightarrow> consent_attestation \<Rightarrow> bytes" where
  "canonical_attestation_signing_bytes E a = ext_sha256 E (ext_jcs E (attestation_signing_value E a))"

definition verify_attestation_authenticity :: "ext \<Rightarrow> bytes \<Rightarrow> consent_attestation \<Rightarrow> bool" where
  "verify_attestation_authenticity E kernel_public_key a =
     (if att_version a \<noteq> ATTESTATION_VERSION then False
      else if \<not> is_valid_trust_domain (att_trust_domain a) then False
      else if att_kernel_key_thumbprint a \<noteq> kernel_key_thumbprint E kernel_public_key then False
      else ext_verify E kernel_public_key (canonical_attestation_signing_bytes E a) (att_signature a))"

text \<open>The bundle: a hash map keyed by hop, later attestations of a hop replacing earlier ones.\<close>

record attestation_bundle =
  ab_attestations :: "((uuid \<times> uuid) \<times> consent_attestation) list"

definition ab_new :: "consent_attestation list \<Rightarrow> attestation_bundle" where
  "ab_new as = \<lparr>ab_attestations = map_collect (map (\<lambda>a. (att_hop a, a)) as)\<rparr>"

definition ab_empty :: attestation_bundle where
  "ab_empty = \<lparr>ab_attestations = []\<rparr>"

definition ab_get :: "attestation_bundle \<Rightarrow> uuid \<Rightarrow> uuid \<Rightarrow> consent_attestation option" where
  "ab_get b parent child = map_of (ab_attestations b) (parent, child)"

definition ab_len :: "attestation_bundle \<Rightarrow> nat" where
  "ab_len b = length (ab_attestations b)"

definition ab_is_empty :: "attestation_bundle \<Rightarrow> bool" where
  "ab_is_empty b = (ab_attestations b = [])"

section \<open>Lemmas\<close>

text \<open>A bundle built from attestations files each one under its own hop.\<close>

definition ab_ok :: "attestation_bundle \<Rightarrow> bool" where
  "ab_ok b = (map_ok (ab_attestations b) \<and> list_all (\<lambda>(k, a). k = att_hop a) (ab_attestations b))"

lemma ab_ok_new [simp]: "ab_ok (ab_new as)" "ab_ok ab_empty"
  using set_map_collect [of "map (\<lambda>a. (att_hop a, a)) as"]
  by (auto simp: ab_ok_def ab_new_def ab_empty_def list_all_iff)

lemma ab_get_hop: "ab_ok b \<Longrightarrow> ab_get b p c = Some a \<Longrightarrow> att_parent_vaid a = p \<and> att_child_vaid a = c"
  by (auto simp: ab_ok_def ab_get_def list_all_iff att_hop_def dest!: map_of_SomeD)

lemma ab_get_new: "ab_get (ab_new as) p c = Some a \<Longrightarrow> a \<in> set as"
  using set_map_collect [of "map (\<lambda>a. (att_hop a, a)) as"]
  by (auto simp: ab_get_def ab_new_def dest!: map_of_SomeD)

definition attestation_ok :: "consent_attestation \<Rightarrow> bool" where
  "attestation_ok a \<longleftrightarrow> e6_range (att_issued_at a) \<and> e6_range (att_expires_at a) \<and> list_all entry_ok (att_scope_boundary a)"

lemma de_ser_attestation:
  assumes "attestation_ok a" and "uuid_text_ok E" and "datetime_text_ok E"
  shows "de_attestation E (ser_attestation E a) = Some a"
proof -
  have "struct_fields attestation_field_names (ser_attestation E a) = Some (map_of
     [(''att_version'', ser_u8 (att_version a)),
      (''parent_vaid'', ser_uuid E (att_parent_vaid a)),
      (''child_vaid'', ser_uuid E (att_child_vaid a)),
      (''child_trust_domain'', JString (att_child_trust_domain a)),
      (''child_tenant_id'', JString (att_child_tenant_id a)),
      (''issued_at'', ser_datetime E (att_issued_at a)),
      (''expires_at'', ser_datetime E (att_expires_at a)),
      (''scope_boundary'', JArray (map ser_scope_entry (att_scope_boundary a))),
      (''capability_set'', ser_strings (att_capability_set a)),
      (''trust_domain'', JString (att_trust_domain a)),
      (''kernel_key_thumbprint'', JString (att_kernel_key_thumbprint a)),
      (''signature'', ser_bytes (att_signature a))])"
    unfolding ser_attestation_def by (rule struct_fields_collect) (simp_all add: attestation_field_names_def)
  with assms show ?thesis
    by (simp add: de_attestation_def attestation_ok_def de_boundary_ser)
qed

lemma is_current_iff:
  "is_current a now \<longleftrightarrow> att_issued_at a < att_expires_at a \<and> now \<le> att_expires_at a \<and>
     att_issued_at a - 300 * nanos_per_sec \<le> now"
  by (auto simp: is_current_def MINT_POP_FRESHNESS_SECS_def)

lemma attestation_value_inj:
  assumes "attestation_signing_value E a = attestation_signing_value E b"
    and "uuid_text_ok E" and "datetime_json_ok E"
    and "e6_range (att_issued_at a)" "e6_range (att_issued_at b)"
    and "e6_range (att_expires_at a)" "e6_range (att_expires_at b)"
  shows "with_signature a sig = with_signature b sig"
proof -
  have "map ser_scope_entry (att_scope_boundary a) = map ser_scope_entry (att_scope_boundary b)"
    and rest: "ser_u8 (att_version a) = ser_u8 (att_version b)"
      "ser_uuid E (att_parent_vaid a) = ser_uuid E (att_parent_vaid b)"
      "ser_uuid E (att_child_vaid a) = ser_uuid E (att_child_vaid b)"
      "att_child_trust_domain a = att_child_trust_domain b"
      "att_child_tenant_id a = att_child_tenant_id b"
      "ser_datetime E (att_issued_at a) = ser_datetime E (att_issued_at b)"
      "ser_datetime E (att_expires_at a) = ser_datetime E (att_expires_at b)"
      "att_capability_set a = att_capability_set b" "att_trust_domain a = att_trust_domain b"
      "att_kernel_key_thumbprint a = att_kernel_key_thumbprint b"
    using assms(1)
    by (simp_all add: attestation_signing_value_def ser_attestation_def object_insert_def map_collect_def)
  moreover have "inj ser_scope_entry" by (simp add: inj_def)
  ultimately have "att_scope_boundary a = att_scope_boundary b" by (simp add: inj_map_eq_map)
  moreover have "att_issued_at a = att_issued_at b" "att_expires_at a = att_expires_at b"
    using rest assms(3-7) by (simp_all add: ser_datetime_inj)
  ultimately show ?thesis
    using rest assms(2)
    by (cases a; cases b) (simp add: with_signature_def inj_ser_u8 ser_uuid_inj)
qed

lemma attestation_signature_free:
  "attestation_signing_value E (with_signature a sig) = attestation_signing_value E a"
  by (simp add: attestation_signing_value_def ser_attestation_def object_insert_def map_collect_def
        with_signature_def)

lemma attestation_bytes_unsigned [simp]:
  "canonical_attestation_signing_bytes E (with_signature a sig) = canonical_attestation_signing_bytes E a"
  by (simp add: canonical_attestation_signing_bytes_def attestation_signature_free)

section \<open>What the digest binds\<close>

text \<open>
  A consent signature covers the whole consent: two attestations the digest tells apart have the
  same signing bytes if and only if they agree on every field except the signature, the hop, the
  child's domain and tenant, the window and the ceiling of authority included.
\<close>

lemma attestation_binds:
  assumes "uuid_text_ok E" and "datetime_json_ok E"
    and "e6_range (att_issued_at a)" and "e6_range (att_issued_at b)"
    and "e6_range (att_expires_at a)" and "e6_range (att_expires_at b)"
    and "no_collision E (attestation_signing_value E a) (attestation_signing_value E b)"
  shows "canonical_attestation_signing_bytes E a = canonical_attestation_signing_bytes E b \<longleftrightarrow>
    with_signature a [] = with_signature b []"
proof
  assume "canonical_attestation_signing_bytes E a = canonical_attestation_signing_bytes E b"
  with assms(7) have "attestation_signing_value E a = attestation_signing_value E b"
    by (simp add: canonical_attestation_signing_bytes_def no_collision_def)
  then show "with_signature a [] = with_signature b []" using assms(1-6) by (rule attestation_value_inj)
next
  assume "with_signature a [] = with_signature b []"
  then show "canonical_attestation_signing_bytes E a = canonical_attestation_signing_bytes E b"
    by (metis attestation_bytes_unsigned)
qed

definition demo_attestation :: "uuid \<Rightarrow> consent_attestation" where
  "demo_attestation child = attestation_new 1 child ''b.example'' ''acme'' 0 nanos_per_sec [] [''read''] ''a.example'' ''t''"

lemma demo_attestations_apart:
  "canonical_attestation_signing_bytes demo_ext (demo_attestation 2) \<noteq>
   canonical_attestation_signing_bytes demo_ext (demo_attestation 3)"
proof -
  have "ext_sha256 demo_ext (ext_jcs demo_ext (attestation_signing_value demo_ext (demo_attestation 2))) \<noteq>
      ext_sha256 demo_ext (ext_jcs demo_ext (attestation_signing_value demo_ext (demo_attestation 3)))"
    by (simp add: demo_ext_def attestation_signing_value_def ser_attestation_def object_insert_def
          demo_attestation_def attestation_new_def map_collect_def ser_uuid_def ser_datetime_def
          bytes_of_string_def)
  then have nc: "no_collision demo_ext (attestation_signing_value demo_ext (demo_attestation 2))
      (attestation_signing_value demo_ext (demo_attestation 3))" by (simp add: no_collision_def)
  have r: "e6_range (att_issued_at (demo_attestation c))" "e6_range (att_expires_at (demo_attestation c))" for c
    by (simp_all add: demo_attestation_def attestation_new_def e6_range_def nanos_per_sec_def)
  show ?thesis
    using attestation_binds [OF demo_uuid_text_ok demo_datetime_json_ok r(1) r(1) r(2) r(2) nc]
    by (simp add: demo_attestation_def attestation_new_def with_signature_def)
qed

end
