(* ===== verification/Vaid_Chain.thy ===== *)
theory Vaid_Chain
  imports Vaid_Attestation
begin

text \<open>
  Third-party verification of a delegation chain (\<^verbatim>\<open>crates/vaid-mint/src/chain.rs\<close>).  A chain
  that verifies is authentic document by document, pinned hop by hop to the signed parent, alive
  above the leaf, contained at every hop, and covered by consent wherever the signing key
  changes; containment then holds between any two of its documents by \<open>containment_order\<close>.
  The trust decision is the interface \<open>key_resolver\<close>, met by both resolvers of the module.
\<close>

section \<open>The presented documents\<close>

record presented_bundle =
  pb_documents :: "(uuid \<times> vaid) list"

definition pb_new :: "vaid list \<Rightarrow> presented_bundle" where
  "pb_new docs = \<lparr>pb_documents = map_collect (map (\<lambda>d. (vaid_id d, d)) docs)\<rparr>"

definition pb_empty :: presented_bundle where
  "pb_empty = \<lparr>pb_documents = []\<rparr>"

definition pb_get :: "presented_bundle \<Rightarrow> uuid \<Rightarrow> vaid option" where
  "pb_get b i = map_of (pb_documents b) i"

definition pb_len :: "presented_bundle \<Rightarrow> nat" where
  "pb_len b = length (pb_documents b)"

definition pb_is_empty :: "presented_bundle \<Rightarrow> bool" where
  "pb_is_empty b = (pb_documents b = [])"

definition pb_resolve_parent :: "presented_bundle \<Rightarrow> uuid \<Rightarrow> ParentResolution" where
  "pb_resolve_parent b i =
     (case map_of (pb_documents b) i of
        None \<Rightarrow> Unknown
      | Some doc \<Rightarrow> (case parent_vaid doc of None \<Rightarrow> Root | Some parent \<Rightarrow> Parent parent))"

section \<open>Key resolvers\<close>

type_synonym resolve_key = "string \<Rightarrow> bytes option"

record single_kernel_key =
  sk_thumbprint :: string
  sk_public_key :: bytes

definition sk_new :: "ext \<Rightarrow> bytes \<Rightarrow> single_kernel_key" where
  "sk_new E public_key = \<lparr>sk_thumbprint = kernel_key_thumbprint E public_key, sk_public_key = public_key\<rparr>"

definition sk_resolve_key :: "single_kernel_key \<Rightarrow> resolve_key" where
  "sk_resolve_key k thumbprint = (if thumbprint = sk_thumbprint k then Some (sk_public_key k) else None)"

record kernel_key_map =
  km_keys :: "(string \<times> bytes) list"

definition km_new :: "ext \<Rightarrow> bytes list \<Rightarrow> kernel_key_map" where
  "km_new E public_keys = \<lparr>km_keys = map_collect (map (\<lambda>k. (kernel_key_thumbprint E k, k)) public_keys)\<rparr>"

definition km_len :: "kernel_key_map \<Rightarrow> nat" where
  "km_len m = length (km_keys m)"

definition km_is_empty :: "kernel_key_map \<Rightarrow> bool" where
  "km_is_empty m = (km_keys m = [])"

definition km_resolve_key :: "kernel_key_map \<Rightarrow> resolve_key" where
  "km_resolve_key m thumbprint = map_of (km_keys m) thumbprint"

section \<open>Chain verification\<close>

datatype ChainVerification =
    Attenuated
  | Inauthentic
  | Unverifiable
  | NotAttenuated
  | Expired
  | ConsentExpired

definition is_attenuated :: "ChainVerification \<Rightarrow> bool" where
  "is_attenuated v = (v = ChainVerification.Attenuated)"

definition authenticate :: "ext \<Rightarrow> resolve_key \<Rightarrow> vaid \<Rightarrow> bool" where
  "authenticate E keys doc =
     (case keys (vd_kernel_key_thumbprint doc) of
        None \<Rightarrow> False
      | Some key \<Rightarrow> verify_vaid_authenticity E key doc)"

text \<open>The loop that turns the ids of the chain back into documents; \<^term>\<open>None\<close> is a gap.\<close>

definition chain_documents :: "vaid \<Rightarrow> presented_bundle \<Rightarrow> uuid list \<Rightarrow> vaid list option" where
  "chain_documents leaf bundle ids =
     those (map (\<lambda>i. if i = vaid_id leaf then Some leaf else pb_get bundle i) ids)"

text \<open>The consent half of a cross-key hop; \<^term>\<open>None\<close> means that the loop goes on.\<close>

definition consent_verdict ::
  "ext \<Rightarrow> resolve_key \<Rightarrow> attestation_bundle \<Rightarrow> instant \<Rightarrow> vaid \<Rightarrow> vaid \<Rightarrow> ChainVerification option" where
  "consent_verdict E keys attestations now parent child =
     (case ab_get attestations (vaid_id parent) (vaid_id child) of
        None \<Rightarrow> Some ChainVerification.Inauthentic
      | Some a \<Rightarrow>
          if att_kernel_key_thumbprint a \<noteq> vd_kernel_key_thumbprint parent
             \<or> att_trust_domain a \<noteq> vd_trust_domain parent
          then Some ChainVerification.Inauthentic
          else if att_child_trust_domain a \<noteq> vd_trust_domain child
             \<or> att_child_tenant_id a \<noteq> vd_tenant_id child
          then Some NotAttenuated
          else if (case keys (att_kernel_key_thumbprint a) of
                     None \<Rightarrow> True
                   | Some key \<Rightarrow> \<not> verify_attestation_authenticity E key a)
          then Some ChainVerification.Inauthentic
          else if \<not> is_current a now then Some ConsentExpired
          else if \<not> scope_attenuates_within (att_scope_boundary a) (vd_scope_boundary child)
             \<or> \<not> caps_attenuate_within (att_capability_set a) (vd_capability_set child)
          then Some NotAttenuated
          else if \<not> scope_attenuates parent (att_scope_boundary a)
             \<or> \<not> caps_attenuate parent (att_capability_set a)
          then Some NotAttenuated
          else None)"

text \<open>One turn of the loop over \<^verbatim>\<open>windows(2)\<close>.\<close>

definition hop_verdict ::
  "ext \<Rightarrow> resolve_key \<Rightarrow> attestation_bundle \<Rightarrow> instant \<Rightarrow> vaid \<Rightarrow> vaid \<Rightarrow> ChainVerification option" where
  "hop_verdict E keys attestations now parent child =
     (let same_key = (vd_kernel_key_thumbprint parent = vd_kernel_key_thumbprint child) in
      if same_key \<and> \<not> tenant_attenuates parent (vd_trust_domain child) (vd_tenant_id child)
      then Some NotAttenuated
      else if \<not> scope_attenuates parent (vd_scope_boundary child) then Some NotAttenuated
      else if \<not> caps_attenuate parent (vd_capability_set child) then Some NotAttenuated
      else if \<not> expiry_attenuates E parent (Some (vd_expires_at child)) then Some NotAttenuated
      else if same_key then None
      else consent_verdict E keys attestations now parent child)"

fun hops_verdict ::
  "ext \<Rightarrow> resolve_key \<Rightarrow> attestation_bundle \<Rightarrow> instant \<Rightarrow> vaid list \<Rightarrow> ChainVerification" where
  "hops_verdict E keys attestations now (parent # child # rest) =
     (case hop_verdict E keys attestations now parent child of
        Some v \<Rightarrow> v
      | None \<Rightarrow> hops_verdict E keys attestations now (child # rest))"
| "hops_verdict E keys attestations now _ = ChainVerification.Attenuated"

definition verify_chain_at ::
  "ext \<Rightarrow> resolve_key \<Rightarrow> vaid \<Rightarrow> presented_bundle \<Rightarrow> attestation_bundle \<Rightarrow> instant \<Rightarrow> ChainVerification" where
  "verify_chain_at E keys leaf bundle attestations now =
     (if \<not> authenticate E keys leaf then ChainVerification.Inauthentic
      else if \<not> list_all (authenticate E keys) (map snd (pb_documents bundle))
      then ChainVerification.Inauthentic
      else (case assemble_lineage leaf (pb_resolve_parent bundle) of
              Incomplete \<Rightarrow> Unverifiable
            | Complete chain_ids \<Rightarrow>
                (case chain_documents leaf bundle chain_ids of
                   None \<Rightarrow> Unverifiable
                 | Some docs \<Rightarrow>
                     if list_ex (\<lambda>ancestor. is_expired_at E ancestor now) (butlast docs)
                     then ChainVerification.Expired
                     else hops_verdict E keys attestations now docs)))"

definition verify_chain_with ::
  "ext \<Rightarrow> instant \<Rightarrow> resolve_key \<Rightarrow> vaid \<Rightarrow> presented_bundle \<Rightarrow> attestation_bundle \<Rightarrow> ChainVerification" where
  "verify_chain_with E now keys leaf bundle attestations = verify_chain_at E keys leaf bundle attestations now"

definition verify_chain :: "ext \<Rightarrow> instant \<Rightarrow> bytes \<Rightarrow> vaid \<Rightarrow> presented_bundle \<Rightarrow> ChainVerification" where
  "verify_chain E now kernel_public_key leaf bundle =
     verify_chain_with E now (sk_resolve_key (sk_new E kernel_public_key)) leaf bundle ab_empty"

section \<open>What a hop that passes guarantees\<close>

definition hop_contained :: "ext \<Rightarrow> vaid \<Rightarrow> vaid \<Rightarrow> bool" where
  "hop_contained E p c =
     (scope_attenuates p (vd_scope_boundary c) \<and> caps_attenuate p (vd_capability_set c)
      \<and> expiry_attenuates E p (Some (vd_expires_at c)))"

interpretation hop_order: containment_order "hop_contained E" for E
proof
  fix p c g assume "hop_contained E p c" and "hop_contained E c g"
  then show "hop_contained E p g"
    using scope_order.within_trans caps_order.within_trans expiry_order.within_trans
    unfolding hop_contained_def scope_attenuates_def caps_attenuate_def expiry_attenuates_def
    by blast
qed

text \<open>The consent a cross-key hop rests on.\<close>

definition consented ::
  "ext \<Rightarrow> resolve_key \<Rightarrow> attestation_bundle \<Rightarrow> instant \<Rightarrow> vaid \<Rightarrow> vaid \<Rightarrow> bool" where
  "consented E keys atts now p c \<longleftrightarrow>
     (\<exists>a key. ab_get atts (vaid_id p) (vaid_id c) = Some a
        \<and> att_kernel_key_thumbprint a = vd_kernel_key_thumbprint p
        \<and> att_trust_domain a = vd_trust_domain p
        \<and> att_child_trust_domain a = vd_trust_domain c \<and> att_child_tenant_id a = vd_tenant_id c
        \<and> keys (vd_kernel_key_thumbprint p) = Some key \<and> verify_attestation_authenticity E key a
        \<and> is_current a now
        \<and> scope_attenuates_within (att_scope_boundary a) (vd_scope_boundary c)
        \<and> caps_attenuate_within (att_capability_set a) (vd_capability_set c)
        \<and> scope_attenuates p (att_scope_boundary a) \<and> caps_attenuate p (att_capability_set a))"

definition hop_ok ::
  "ext \<Rightarrow> resolve_key \<Rightarrow> attestation_bundle \<Rightarrow> instant \<Rightarrow> vaid \<Rightarrow> vaid \<Rightarrow> bool" where
  "hop_ok E keys atts now p c \<longleftrightarrow>
     hop_contained E p c \<and>
     (if vd_kernel_key_thumbprint p = vd_kernel_key_thumbprint c
      then tenant_attenuates p (vd_trust_domain c) (vd_tenant_id c)
      else consented E keys atts now p c)"

lemma consent_verdict_None: "consent_verdict E keys atts now p c = None \<longleftrightarrow> consented E keys atts now p c"
  by (auto simp: consent_verdict_def consented_def split: option.splits if_splits)

lemma hop_verdict_None: "hop_verdict E keys atts now p c = None \<longleftrightarrow> hop_ok E keys atts now p c"
  by (auto simp: hop_verdict_def hop_ok_def hop_contained_def consent_verdict_None Let_def)

lemma hop_verdict_failure: "hop_verdict E keys atts now p c \<noteq> Some ChainVerification.Attenuated"
  by (auto simp: hop_verdict_def consent_verdict_def Let_def split: option.splits if_splits)

lemma hops_verdict_Attenuated:
  "hops_verdict E keys atts now docs = ChainVerification.Attenuated \<longleftrightarrow>
     successively (hop_ok E keys atts now) docs"
proof (induction docs rule: induct_list012)
  case (3 p c rest)
  then show ?case
    using hop_verdict_None [of E keys atts now p c] hop_verdict_failure [of E keys atts now p c]
    by (cases "hop_verdict E keys atts now p c") auto
qed simp_all

section \<open>The chain of documents\<close>

definition pb_ok :: "presented_bundle \<Rightarrow> bool" where
  "pb_ok b = (map_ok (pb_documents b) \<and> list_all (\<lambda>(k, d). k = vaid_id d) (pb_documents b))"

lemma pb_ok_new [simp]: "pb_ok (pb_new docs)" "pb_ok pb_empty"
  using set_map_collect [of "map (\<lambda>d. (vaid_id d, d)) docs"]
  by (auto simp: pb_ok_def pb_new_def pb_empty_def list_all_iff)

lemma pb_get_id: "pb_ok b \<Longrightarrow> pb_get b i = Some d \<Longrightarrow> vaid_id d = i"
  by (auto simp: pb_ok_def pb_get_def list_all_iff dest!: map_of_SomeD)

lemma pb_get_in: "pb_get b i = Some d \<Longrightarrow> d \<in> snd ` set (pb_documents b)"
  by (force simp: pb_get_def dest: map_of_SomeD)

text \<open>\<open>pinned\<close>: root first, every document names its predecessor as parent, the first names none.\<close>

definition pinned :: "vaid list \<Rightarrow> bool" where
  "pinned docs \<longleftrightarrow> docs \<noteq> [] \<and> parent_vaid (hd docs) = None \<and>
     successively (\<lambda>p c. parent_vaid c = Some (vaid_id p)) docs"

fun linked :: "uuid option \<Rightarrow> vaid list \<Rightarrow> bool" where
  "linked nxt [] = (nxt = None)"
| "linked nxt (d # ds) = (nxt = Some (vaid_id d) \<and> linked (parent_vaid d) ds)"

lemma linked_None [simp]: "linked None ds \<longleftrightarrow> ds = []"
  by (cases ds) simp_all

lemma pinned_snoc:
  "pinned (xs @ [d, leaf]) \<longleftrightarrow> pinned (xs @ [d]) \<and> parent_vaid leaf = Some (vaid_id d)"
proof -
  have "successively P (xs @ [d, leaf]) \<longleftrightarrow> successively P (xs @ [d]) \<and> P d leaf" for P
    using successively_append_iff [of P "xs @ [d]" "[leaf]"] by simp
  moreover have "hd (xs @ [d, leaf]) = hd (xs @ [d])" by (cases xs) simp_all
  ultimately show ?thesis by (simp add: pinned_def)
qed

lemma linked_iff_pinned: "linked (parent_vaid leaf) ds \<longleftrightarrow> pinned (rev ds @ [leaf])"
proof (induction ds arbitrary: leaf)
  case Nil
  show ?case by (auto simp: pinned_def)
qed (auto simp: pinned_snoc)

lemma pb_resolve_get:
  "pb_get b i = Some d \<Longrightarrow>
     pb_resolve_parent b i = (case parent_vaid d of None \<Rightarrow> Root | Some p \<Rightarrow> Parent p)"
  "pb_get b i = None \<Longrightarrow> pb_resolve_parent b i = Unknown"
  by (simp_all add: pb_resolve_parent_def pb_get_def)

lemma ancestry_documents:
  assumes "pb_ok b"
  shows "ancestry (pb_resolve_parent b) nxt up \<longleftrightarrow>
     (\<exists>ds. map (pb_get b) up = map Some ds \<and> linked nxt ds)"
proof (induction up arbitrary: nxt)
  case (Cons x up)
  show ?case
  proof (cases "pb_get b x")
    case None
    then show ?thesis by (cases nxt) (auto simp: pb_resolve_get(2) Cons_eq_map_conv)
  next
    case (Some d)
    have "ancestry (pb_resolve_parent b) nxt (x # up) \<longleftrightarrow>
        nxt = Some x \<and> ancestry (pb_resolve_parent b) (parent_vaid d) up"
      by (cases nxt) (auto simp: pb_resolve_get(1) [OF Some] split: option.splits)
    also have "\<dots> \<longleftrightarrow> (\<exists>ds. map (pb_get b) (x # up) = map Some ds \<and> linked nxt ds)"
      using Some pb_get_id [OF assms Some] Cons.IH by (auto simp: Cons_eq_map_conv)
    finally show ?thesis .
  qed
qed simp

text \<open>The documents of a chain: the leaf under its pinned, presented ancestors.\<close>

definition presented_chain :: "vaid \<Rightarrow> presented_bundle \<Rightarrow> vaid list \<Rightarrow> bool" where
  "presented_chain leaf b docs \<longleftrightarrow>
     docs \<noteq> [] \<and> last docs = leaf \<and> pinned docs \<and> distinct (map vaid_id docs) \<and>
     length docs \<le> MAX_LINEAGE_DEPTH \<and> (\<forall>d \<in> set (butlast docs). pb_get b (vaid_id d) = Some d)"

lemma map_Some_ids:
  "pb_ok b \<Longrightarrow> map (pb_get b) up = map Some ds \<Longrightarrow>
     up = map vaid_id ds \<and> (\<forall>d \<in> set ds. pb_get b (vaid_id d) = Some d)"
  by (induction ds arbitrary: up) (auto simp: map_eq_Cons_conv dest: pb_get_id)

lemma assemble_documents:
  assumes b: "pb_ok b"
  shows "(case assemble_lineage leaf (pb_resolve_parent b) of
            Incomplete \<Rightarrow> None | Complete ids \<Rightarrow> chain_documents leaf b ids) = Some docs \<longleftrightarrow>
     presented_chain leaf b docs" (is "?L \<longleftrightarrow> _")
proof
  assume ?L
  then obtain ids where asm: "assemble_lineage leaf (pb_resolve_parent b) = Complete ids"
    and cd: "chain_documents leaf b ids = Some docs" by (auto split: LineageAssembly.splits)
  from asm obtain up where ids: "ids = rev up @ [vaid_id leaf]" "distinct ids" "length ids \<le> MAX_LINEAGE_DEPTH"
    and "ancestry (pb_resolve_parent b) (parent_vaid leaf) up" by (auto simp: assemble_lineage_iff)
  then obtain ds where ds: "map (pb_get b) up = map Some ds" "linked (parent_vaid leaf) ds"
    using ancestry_documents [OF b] by blast
  note up = map_Some_ids [OF b ds(1)]
  have "map (\<lambda>i. if i = vaid_id leaf then Some leaf else pb_get b i) ids = map Some (rev ds @ [leaf])"
    using ids up by (auto simp: rev_map image_iff)
  with cd have "map Some docs = map Some (rev ds @ [leaf])"
    by (simp only: chain_documents_def those_eq_Some)
  then have docs: "docs = rev ds @ [leaf]" by (simp only: inj_map_eq_map inj_Some)
  with ids up ds(2) show "presented_chain leaf b docs"
    by (auto simp: presented_chain_def linked_iff_pinned rev_map)
next
  assume pc: "presented_chain leaf b docs"
  define ds where "ds = rev (butlast docs)"
  have docs: "docs = rev ds @ [leaf]"
    using pc by (metis append_butlast_last_id ds_def presented_chain_def rev_rev_ident)
  have get: "map (pb_get b) (map vaid_id ds) = map Some ds"
    using pc docs by (auto simp: presented_chain_def)
  have "ancestry (pb_resolve_parent b) (parent_vaid leaf) (map vaid_id ds)"
    using get pc docs by (auto simp: ancestry_documents [OF b] linked_iff_pinned presented_chain_def)
  then have "assemble_lineage leaf (pb_resolve_parent b) = Complete (map vaid_id docs)"
    using pc docs by (auto simp: assemble_lineage_iff presented_chain_def rev_map intro!: exI [of _ "map vaid_id ds"])
  moreover have "chain_documents leaf b (map vaid_id docs) = Some docs"
    using pc docs by (auto simp: chain_documents_def those_eq_Some presented_chain_def image_iff)
  ultimately show ?L by simp
qed

lemma presented_chain_unique:
  "pb_ok b \<Longrightarrow> presented_chain leaf b docs \<Longrightarrow> presented_chain leaf b docs' \<Longrightarrow> docs = docs'"
  by (metis assemble_documents option.inject)

section \<open>Verification, exactly\<close>

lemma verify_chain_at_Attenuated:
  assumes "pb_ok b"
  shows "verify_chain_at E keys leaf b atts now = ChainVerification.Attenuated \<longleftrightarrow>
     authenticate E keys leaf \<and> (\<forall>d \<in> snd ` set (pb_documents b). authenticate E keys d) \<and>
     (\<exists>docs. presented_chain leaf b docs \<and>
        (\<forall>d \<in> set (butlast docs). \<not> is_expired_at E d now) \<and>
        successively (hop_ok E keys atts now) docs)"
proof -
  have *: "(\<exists>ids docs. assemble_lineage leaf (pb_resolve_parent b) = Complete ids \<and>
      chain_documents leaf b ids = Some docs \<and> P docs) \<longleftrightarrow> (\<exists>docs. presented_chain leaf b docs \<and> P docs)"
    for P
    unfolding assemble_documents [OF assms, symmetric] by (auto split: LineageAssembly.splits)
  have "verify_chain_at E keys leaf b atts now = ChainVerification.Attenuated \<longleftrightarrow>
     authenticate E keys leaf \<and> (\<forall>d \<in> snd ` set (pb_documents b). authenticate E keys d) \<and>
     (\<exists>ids docs. assemble_lineage leaf (pb_resolve_parent b) = Complete ids \<and>
        chain_documents leaf b ids = Some docs \<and>
        ((\<forall>d \<in> set (butlast docs). \<not> is_expired_at E d now) \<and>
        successively (hop_ok E keys atts now) docs))"
    by (auto simp: verify_chain_at_def hops_verdict_Attenuated list_all_iff list_ex_iff
        split: LineageAssembly.splits option.splits if_splits)
  then show ?thesis unfolding * .
qed

lemma hop_ok_contained: "successively (hop_ok E keys atts now) docs \<Longrightarrow> successively (hop_contained E) docs"
  by (erule successively_mono) (simp add: hop_ok_def)

text \<open>Every document above the end of a contained chain contains it, and is alive while it is.\<close>

lemma chain_member_contains:
  assumes "successively (hop_contained E) chain" and "chain \<noteq> []" and "a \<in> set (butlast chain)"
  shows "hop_contained E a (last chain)"
proof -
  from assms(3) obtain i where i: "i < length chain - 1" "a = chain ! i"
    by (auto simp: in_set_conv_nth nth_butlast)
  with hop_order.chain_within [OF assms(1), of i "length chain - 1"] assms(2)
  show ?thesis by (simp add: last_conv_nth)
qed

lemma chain_alive:
  assumes "successively (hop_contained E) chain" and "chain \<noteq> []" and "\<not> is_expired_at E (last chain) now"
    and "a \<in> set (butlast chain)"
  shows "\<not> is_expired_at E a now"
  using chain_member_contains [OF assms(1,2,4)] assms(3)
  by (auto simp: hop_contained_def dest: expiry_within_alive)

section \<open>The trust decision\<close>

text \<open>
  What a resolver owes the verifier: it answers only with keys its deployment accepted, and only
  under the thumbprint that is the key's own.
\<close>

locale key_resolver =
  fixes E :: ext and keys :: resolve_key and accepted :: "bytes set"
  assumes resolved: "keys t = Some k \<Longrightarrow> k \<in> accepted \<and> kernel_key_thumbprint E k = t"
begin

lemma authenticate_accepted:
  "authenticate E keys d \<Longrightarrow> \<exists>k \<in> accepted. keys (vd_kernel_key_thumbprint d) = Some k \<and> verify_vaid_authenticity E k d"
  using resolved by (auto simp: authenticate_def split: option.splits)

text \<open>Everything an attenuated chain consists of was signed under an accepted key.\<close>

lemma chain_accepted:
  assumes "pb_ok b" and "verify_chain_at E keys leaf b atts now = ChainVerification.Attenuated"
  shows "\<exists>docs. presented_chain leaf b docs \<and> successively (hop_ok E keys atts now) docs \<and>
     (\<forall>d \<in> set docs. \<exists>k \<in> accepted. verify_vaid_authenticity E k d) \<and>
     (\<forall>d \<in> set (butlast docs). \<not> is_expired_at E d now)"
proof -
  from assms(2) obtain docs where docs: "presented_chain leaf b docs"
      "successively (hop_ok E keys atts now) docs" "\<forall>d \<in> set (butlast docs). \<not> is_expired_at E d now"
    and auth: "authenticate E keys leaf" "\<forall>d \<in> snd ` set (pb_documents b). authenticate E keys d"
    unfolding verify_chain_at_Attenuated [OF assms(1)] by blast
  have "authenticate E keys d" if "d \<in> set docs" for d
  proof -
    have "d \<in> set (butlast docs) \<or> d = leaf"
      using that docs(1) by (metis presented_chain_def append_butlast_last_id rotate1.simps(2) set_ConsD set_rotate1)
    with docs(1) auth show ?thesis by (metis presented_chain_def pb_get_in)
  qed
  with docs show ?thesis by (meson authenticate_accepted)
qed

end

interpretation single: key_resolver E "sk_resolve_key (sk_new E pk)" "{pk}" for E pk
  by unfold_locales (auto simp: sk_resolve_key_def sk_new_def split: if_splits)

lemma km_new_keys:
  "km_resolve_key (km_new E ks) t = Some k \<Longrightarrow> k \<in> set ks \<and> kernel_key_thumbprint E k = t"
  using set_map_collect [of "map (\<lambda>k. (kernel_key_thumbprint E k, k)) ks"]
  by (auto simp: km_resolve_key_def km_new_def dest!: map_of_SomeD)

interpretation trust_bundle: key_resolver E "km_resolve_key (km_new E ks)" "set ks" for E ks
  by unfold_locales (rule km_new_keys)

text \<open>Under a single key every hop is a same-key hop, so no attestation is ever consulted.\<close>

lemma single_key_hops:
  assumes "presented_chain leaf b docs" "successively (hop_ok E keys atts now) docs"
    and "\<forall>d \<in> set docs. verify_vaid_authenticity E pk d"
  shows "successively (\<lambda>p c. hop_contained E p c \<and> tenant_attenuates p (vd_trust_domain c) (vd_tenant_id c)) docs"
proof -
  have tp: "\<forall>d \<in> set docs. vd_kernel_key_thumbprint d = kernel_key_thumbprint E pk"
    using assms(3) by (simp add: authentic_iff)
  show ?thesis
    using assms(2) by (rule successively_mono) (use tp in \<open>auto simp: hop_ok_def\<close>)
qed

end
