(* ===== verification/Vaid_Error.thy ===== *)
theory Vaid_Error
  imports Vaid_Prelude
begin

text \<open>
  The error surface of the mint (\<^verbatim>\<open>crates/vaid-mint/src/error.rs\<close>).  Each \<^verbatim>\<open>MintError\<close> variant
  carries a message in the source; here the payload is one constructor per raise site with the
  values the message interpolates, and \<open>Message\<close> for what an injected seam reports.
\<close>

datatype reason =
    NoVerifiedParent
  | DepthUndetermined
  | DepthExceeded nat nat nat
  | CrossTenant string string
  | LineageMismatch "uuid option" uuid
  | ScopeExceeds
  | CapsExceed
  | ParentExpired uuid string
  | IssuerIgnoredNotAfter string string
  | UnreadableNotAfter string
  | PopRequired
  | PopStale int
  | PopReplayed
  | PopBadSignature
  | ByoKeyRequired
  | KernelKeyGeneration
  | KernelKeyParse
  | KernelSeedParse
  | AgentKeyGeneration
  | AgentKeyParse
  | BadTrustDomain string
  | LineageWriteFailed string
  | DepthTooSmall nat
  | DepthTooLarge nat nat
  | Message string

datatype MintError =
    Unauthorized reason
  | Identity reason
  | Audit reason
  | Lineage reason
  | Config reason

type_synonym 'a MintResult = "MintError + 'a"

text \<open>The \<^verbatim>\<open>?\<close> operator on results that carry no state.\<close>

definition and_then :: "'e + 'a \<Rightarrow> ('a \<Rightarrow> 'e + 'b) \<Rightarrow> 'e + 'b" where
  "and_then r f = (case r of Inl e \<Rightarrow> Inl e | Inr x \<Rightarrow> f x)"

lemma and_then_simps [simp]: "and_then (Inl e) f = Inl e" "and_then (Inr x) f = f x"
  by (simp_all add: and_then_def)

lemma and_then_Inr: "and_then r f = Inr y \<longleftrightarrow> (\<exists>x. r = Inr x \<and> f x = Inr y)"
  by (cases r) auto

definition ok_or :: "'e \<Rightarrow> 'a option \<Rightarrow> 'e + 'a" where
  "ok_or e v = (case v of None \<Rightarrow> Inl e | Some x \<Rightarrow> Inr x)"

lemma ok_or_simps [simp]: "ok_or e None = Inl e" "ok_or e (Some x) = Inr x"
  by (simp_all add: ok_or_def)

lemma ok_or_Inr [simp]: "ok_or e v = Inr x \<longleftrightarrow> v = Some x"
  by (cases v) simp_all

end
