(* ===== verification/Vaid_Issuer.thy ===== *)
theory Vaid_Issuer
  imports Vaid_Chain Vaid_Error
begin

text \<open>
  The issuer seam and the reference issuer (\<^verbatim>\<open>crates/vaid-mint/src/issuer.rs\<close>).  Randomness and
  clock reads are the argument \<open>issue_env\<close>.  The trait \<^verbatim>\<open>VaidIssuer\<close> is a dictionary over the
  issuer's state; what the mint relies on is the locale \<open>recording_issuer\<close>, which the reference
  issuer meets for its default store and for every injected store that keeps the laws of
  \<open>lineage_store\<close>.
\<close>

definition DEFAULT_VAID_TTL_HOURS :: int where
  "DEFAULT_VAID_TTL_HOURS = 1"

definition whole_second_now :: "instant \<Rightarrow> instant" where
  "whole_second_now clock = trunc_secs clock"

section \<open>The trait\<close>

text \<open>The arguments of the two issuing methods, and what one issuance reads from outside.\<close>

record issue_args =
  ia_agent_class :: string
  ia_version :: string
  ia_tenant_id :: string
  ia_parent_vaid :: "uuid option"
  ia_scope_boundary :: "scope_entry list"
  ia_capability_set :: "string list"
  ia_not_after :: "string option"

record issue_env =
  ie_agent_id :: uuid
  ie_clock :: instant
  ie_agent_pkcs8 :: "bytes option"

record 'i vaid_issuer =
  vi_issue_with_key :: "'i \<Rightarrow> issue_env \<Rightarrow> issue_args \<Rightarrow> bytes \<Rightarrow> 'i \<times> vaid MintResult"
  vi_issue_with_lineage :: "'i \<Rightarrow> issue_env \<Rightarrow> issue_args \<Rightarrow> 'i \<times> vaid MintResult"
  vi_verify_vaid :: "'i \<Rightarrow> instant \<Rightarrow> vaid \<Rightarrow> bool"
  vi_resolve_delegation_ancestor :: "'i \<Rightarrow> uuid \<Rightarrow> ParentResolution"

section \<open>The reference issuer\<close>

datatype revocation_slot = DefaultStore | InjectedCheck "uuid list \<Rightarrow> RevocationStatus"

datatype 's lineage_slot = DefaultLineage | InjectedLineage "'s lineage_ops" 's

record 's reference_issuer =
  ri_kernel_key_pair :: keypair
  ri_vaid_ttl_hours :: int
  ri_trust_domain :: string
  ri_lineage :: "'s lineage_slot"
  ri_default_lineage :: memory_lineage
  ri_revocation :: revocation_slot
  ri_default_store :: revocation_list

definition with_key :: "keypair \<Rightarrow> int \<Rightarrow> string \<Rightarrow> 's reference_issuer" where
  "with_key kernel_key_pair vaid_ttl_hours trust_domain =
     \<lparr>ri_kernel_key_pair = kernel_key_pair, ri_vaid_ttl_hours = vaid_ttl_hours,
      ri_trust_domain = trust_domain, ri_lineage = DefaultLineage, ri_default_lineage = ml_new,
      ri_revocation = DefaultStore, ri_default_store = rl_new\<rparr>"

definition checked_trust_domain :: "string \<Rightarrow> string MintResult" where
  "checked_trust_domain trust_domain =
     (if \<not> is_valid_trust_domain trust_domain then Inl (Identity (BadTrustDomain trust_domain))
      else Inr trust_domain)"

definition from_pkcs8 :: "ext \<Rightarrow> bytes \<Rightarrow> int \<Rightarrow> string \<Rightarrow> 's reference_issuer MintResult" where
  "from_pkcs8 E pkcs8 vaid_ttl_hours trust_domain =
     and_then (checked_trust_domain trust_domain) (\<lambda>td.
     and_then (ok_or (Identity KernelKeyParse) (ext_from_pkcs8 E pkcs8)) (\<lambda>kp.
     Inr (with_key kp vaid_ttl_hours td)))"

definition ephemeral :: "ext \<Rightarrow> bytes option \<Rightarrow> int \<Rightarrow> string \<Rightarrow> 's reference_issuer MintResult" where
  "ephemeral E generated vaid_ttl_hours trust_domain =
     and_then (ok_or (Identity KernelKeyGeneration) generated) (\<lambda>pkcs8.
     from_pkcs8 E pkcs8 vaid_ttl_hours trust_domain)"

definition from_seed :: "ext \<Rightarrow> bytes \<Rightarrow> int \<Rightarrow> string \<Rightarrow> 's reference_issuer MintResult" where
  "from_seed E seed vaid_ttl_hours trust_domain =
     and_then (checked_trust_domain trust_domain) (\<lambda>td.
     and_then (ok_or (Identity KernelSeedParse) (ext_from_seed E seed)) (\<lambda>kp.
     Inr (with_key kp vaid_ttl_hours td)))"

definition with_revocation_backend ::
  "'s reference_issuer \<Rightarrow> 's revocation_backend \<Rightarrow> 's reference_issuer" where
  "with_revocation_backend iss backend =
     iss\<lparr>ri_revocation := InjectedCheck (rb_check backend),
         ri_lineage := InjectedLineage (rb_ops backend) (rb_lineage backend)\<rparr>"

definition assuming_nothing_revoked :: "'s reference_issuer \<Rightarrow> 's reference_issuer" where
  "assuming_nothing_revoked iss =
     iss\<lparr>ri_revocation := DefaultStore, ri_default_store := rl_assume_nothing_revoked\<rparr>"

definition kernel_public_key :: "ext \<Rightarrow> 's reference_issuer \<Rightarrow> bytes" where
  "kernel_public_key E iss = ext_public_key E (ri_kernel_key_pair iss)"

definition issuer_thumbprint :: "ext \<Rightarrow> 's reference_issuer \<Rightarrow> string" where
  "issuer_thumbprint E iss = kernel_key_thumbprint E (kernel_public_key E iss)"

definition issuer_revoke :: "'s reference_issuer \<Rightarrow> uuid \<Rightarrow> 's reference_issuer" where
  "issuer_revoke iss i = iss\<lparr>ri_default_store := rl_revoke (ri_default_store iss) i\<rparr>"

definition clear_lineage :: "'s reference_issuer \<Rightarrow> 's reference_issuer" where
  "clear_lineage iss = iss\<lparr>ri_default_lineage := ml_clear (ri_default_lineage iss)\<rparr>"

text \<open>The lineage and the revocation objects behind their \<^verbatim>\<open>Arc\<close>s.\<close>

definition issuer_resolve_parent :: "'s reference_issuer \<Rightarrow> uuid \<Rightarrow> ParentResolution" where
  "issuer_resolve_parent iss i =
     (case ri_lineage iss of
        DefaultLineage \<Rightarrow> ml_resolve_parent (ri_default_lineage iss) i
      | InjectedLineage ops s \<Rightarrow> lo_resolve_parent ops s i)"

definition issuer_try_record ::
  "'s reference_issuer \<Rightarrow> uuid \<Rightarrow> uuid option \<Rightarrow> 's reference_issuer \<times> (LineageWriteError + unit)" where
  "issuer_try_record iss i parent =
     (case ri_lineage iss of
        DefaultLineage \<Rightarrow>
          (let (m, r) = ml_try_record (ri_default_lineage iss) i parent
           in (iss\<lparr>ri_default_lineage := m\<rparr>, r))
      | InjectedLineage ops s \<Rightarrow>
          (let (s', r) = lo_try_record ops s i parent
           in (iss\<lparr>ri_lineage := InjectedLineage ops s'\<rparr>, r)))"

definition issuer_check_lineage :: "'s reference_issuer \<Rightarrow> uuid list \<Rightarrow> RevocationStatus" where
  "issuer_check_lineage iss lineage =
     (case ri_revocation iss of
        DefaultStore \<Rightarrow> rl_check_lineage (ri_default_store iss) lineage
      | InjectedCheck check \<Rightarrow> check lineage)"

definition revocation_status :: "'s reference_issuer \<Rightarrow> vaid \<Rightarrow> RevocationStatus" where
  "revocation_status iss d =
     (case assemble_lineage d (issuer_resolve_parent iss) of
        Incomplete \<Rightarrow> Unavailable
      | Complete lineage \<Rightarrow> issuer_check_lineage iss lineage)"

definition attest_delegation ::
  "ext \<Rightarrow> 's reference_issuer \<Rightarrow> instant \<Rightarrow> uuid \<Rightarrow> uuid \<Rightarrow> string \<Rightarrow> string \<Rightarrow> instant \<Rightarrow> scope_entry list \<Rightarrow>
   string list \<Rightarrow> consent_attestation" where
  "attest_delegation E iss clock parent child child_trust_domain child_tenant_id expires scope_boundary
     capability_set =
     (let unsigned = attestation_new parent child child_trust_domain child_tenant_id
            (whole_second_now clock) (trunc_secs expires) scope_boundary capability_set
            (ri_trust_domain iss) (kernel_key_thumbprint E (kernel_public_key E iss));
          signature = ext_sign E (ri_kernel_key_pair iss) (canonical_attestation_signing_bytes E unsigned)
      in with_signature unsigned signature)"

text \<open>The clamp of \<^verbatim>\<open>build_and_sign_vaid\<close>: the expiry to stamp, or the refusal of an unreadable ceiling.\<close>

definition clamp_expiry :: "ext \<Rightarrow> string option \<Rightarrow> instant \<Rightarrow> instant MintResult" where
  "clamp_expiry E not_after expires =
     (case not_after of
        None \<Rightarrow> Inr expires
      | Some ceiling \<Rightarrow>
          (case parse_rfc3339 E ceiling of
             Some cap \<Rightarrow> Inr (min expires cap)
           | None \<Rightarrow> Inl (Unauthorized (UnreadableNotAfter ceiling))))"

definition sign_document ::
  "ext \<Rightarrow> 's reference_issuer \<Rightarrow> uuid \<Rightarrow> instant \<Rightarrow> instant \<Rightarrow> issue_args \<Rightarrow> bytes \<Rightarrow> vaid" where
  "sign_document E iss agent now expires a public_key_der =
     (let lineage_hash = compute_lineage_hash E (ia_parent_vaid a) agent;
          unsigned = with_lineage E agent (ia_agent_class a) (ia_version a) (ia_tenant_id a) now expires
            public_key_der [] (ia_parent_vaid a) (ia_scope_boundary a) lineage_hash (ia_capability_set a)
            (ri_trust_domain iss) (kernel_key_thumbprint E (kernel_public_key E iss));
          signature = ext_sign E (ri_kernel_key_pair iss) (canonical_vaid_signing_bytes E unsigned)
      in with_kernel_signature unsigned signature)"

definition build_and_sign_vaid ::
  "ext \<Rightarrow> 's reference_issuer \<Rightarrow> issue_env \<Rightarrow> issue_args \<Rightarrow> bytes \<Rightarrow> 's reference_issuer \<times> vaid MintResult" where
  "build_and_sign_vaid E iss env a public_key_der =
     (let agent = ie_agent_id env;
          now = whole_second_now (ie_clock env);
          expires = now + ri_vaid_ttl_hours iss * 3600 * nanos_per_sec
      in case clamp_expiry E (ia_not_after a) expires of
           Inl e \<Rightarrow> (iss, Inl e)
         | Inr expires \<Rightarrow>
             (let d = sign_document E iss agent now expires a public_key_der;
                  (iss', r) = issuer_try_record iss (vaid_id d) (ia_parent_vaid a)
              in case r of
                   Inl e \<Rightarrow> (iss', Inl (Lineage (LineageWriteFailed e)))
                 | Inr _ \<Rightarrow> (iss', Inr d)))"

definition issue_vaid_with_key ::
  "ext \<Rightarrow> 's reference_issuer \<Rightarrow> issue_env \<Rightarrow> issue_args \<Rightarrow> bytes \<Rightarrow> 's reference_issuer \<times> vaid MintResult" where
  "issue_vaid_with_key E iss env a public_key_der = build_and_sign_vaid E iss env a public_key_der"

definition issue_vaid_with_lineage ::
  "ext \<Rightarrow> 's reference_issuer \<Rightarrow> issue_env \<Rightarrow> issue_args \<Rightarrow> 's reference_issuer \<times> vaid MintResult" where
  "issue_vaid_with_lineage E iss env a =
     (case ie_agent_pkcs8 env of
        None \<Rightarrow> (iss, Inl (Identity AgentKeyGeneration))
      | Some agent_pkcs8 \<Rightarrow>
          (case ext_from_pkcs8 E agent_pkcs8 of
             None \<Rightarrow> (iss, Inl (Identity AgentKeyParse))
           | Some agent_key \<Rightarrow> build_and_sign_vaid E iss env a (ext_public_key E agent_key)))"

definition issuer_verify_vaid :: "ext \<Rightarrow> 's reference_issuer \<Rightarrow> instant \<Rightarrow> vaid \<Rightarrow> bool" where
  "issuer_verify_vaid E iss now d =
     (if vd_sig_version d \<noteq> VAID_SIG_VERSION_V4 then False
      else if is_expired_at E d now then False
      else (case revocation_status iss d of
              NotRevoked \<Rightarrow> ext_verify E (kernel_public_key E iss) (canonical_vaid_signing_bytes E d)
                              (vd_kernel_signature d)
            | RevocationStatus.Revoked \<Rightarrow> False
            | Unavailable \<Rightarrow> False))"

definition reference_issuer_ops :: "ext \<Rightarrow> ('s reference_issuer) vaid_issuer" where
  "reference_issuer_ops E =
     \<lparr>vi_issue_with_key = issue_vaid_with_key E, vi_issue_with_lineage = issue_vaid_with_lineage E,
      vi_verify_vaid = issuer_verify_vaid E, vi_resolve_delegation_ancestor = issuer_resolve_parent\<rparr>"

section \<open>Signed documents\<close>

lemma sign_document_fields [simp]:
  "vd_sig_version (sign_document E iss i t e a k) = VAID_SIG_VERSION_V4"
  "vaid_id (sign_document E iss i t e a k) = i"
  "agent_id (sign_document E iss i t e a k) = i"
  "vd_agent_class (sign_document E iss i t e a k) = ia_agent_class a"
  "vd_version (sign_document E iss i t e a k) = ia_version a"
  "vd_tenant_id (sign_document E iss i t e a k) = ia_tenant_id a"
  "vd_issued_at (sign_document E iss i t e a k) = format_e6 E t"
  "vd_expires_at (sign_document E iss i t e a k) = format_e6 E e"
  "vd_public_key_der (sign_document E iss i t e a k) = k"
  "parent_vaid (sign_document E iss i t e a k) = ia_parent_vaid a"
  "vd_scope_boundary (sign_document E iss i t e a k) = ia_scope_boundary a"
  "vd_lineage_hash (sign_document E iss i t e a k) = compute_lineage_hash E (ia_parent_vaid a) i"
  "vd_capability_set (sign_document E iss i t e a k) = ia_capability_set a"
  "vd_trust_domain (sign_document E iss i t e a k) = ri_trust_domain iss"
  "vd_kernel_key_thumbprint (sign_document E iss i t e a k) = issuer_thumbprint E iss"
  "vd_unknown_fields (sign_document E iss i t e a k) = []"
  by (simp_all add: sign_document_def with_lineage_def with_kernel_signature_def vaid_id_def agent_id_def
        parent_vaid_def issuer_thumbprint_def Let_def split: option.splits)

lemma sign_document_signature:
  assumes "ed25519_correct E"
  shows "ext_verify E (kernel_public_key E iss)
     (canonical_vaid_signing_bytes E (sign_document E iss i t e a k))
     (vd_kernel_signature (sign_document E iss i t e a k))"
proof -
  have "vd_unknown_fields (with_lineage E i cls ver ten t e k sig p b lh caps td tp) = []"
    for cls ver ten sig p b lh caps td tp by (simp add: with_lineage_def)
  then show ?thesis
    by (simp add: sign_document_def Let_def constructed_signing_bytes)
       (simp add: with_kernel_signature_def kernel_public_key_def ed25519_correctD [OF assms])
qed

lemma sign_document_authentic:
  "ed25519_correct E \<Longrightarrow> is_valid_trust_domain (ri_trust_domain iss) \<Longrightarrow>
     verify_vaid_authenticity E (kernel_public_key E iss) (sign_document E iss i t e a k)"
  by (simp add: authentic_iff sign_document_signature verify_lineage_hash_def issuer_thumbprint_def)

lemma sign_document_ok:
  "uuid_text_ok E \<Longrightarrow> list_all entry_ok (ia_scope_boundary a) \<Longrightarrow> vaid_ok E (sign_document E iss i t e a k)"
  by (simp add: sign_document_def Let_def with_lineage_ok)

lemma attest_delegation_fields [simp]:
  "att_version (attest_delegation E iss clock p c ctd ct e b caps) = ATTESTATION_VERSION"
  "att_parent_vaid (attest_delegation E iss clock p c ctd ct e b caps) = p"
  "att_child_vaid (attest_delegation E iss clock p c ctd ct e b caps) = c"
  "att_child_trust_domain (attest_delegation E iss clock p c ctd ct e b caps) = ctd"
  "att_child_tenant_id (attest_delegation E iss clock p c ctd ct e b caps) = ct"
  "att_issued_at (attest_delegation E iss clock p c ctd ct e b caps) = trunc_secs clock"
  "att_expires_at (attest_delegation E iss clock p c ctd ct e b caps) = trunc_secs e"
  "att_scope_boundary (attest_delegation E iss clock p c ctd ct e b caps) = b"
  "att_capability_set (attest_delegation E iss clock p c ctd ct e b caps) = caps"
  "att_trust_domain (attest_delegation E iss clock p c ctd ct e b caps) = ri_trust_domain iss"
  "att_kernel_key_thumbprint (attest_delegation E iss clock p c ctd ct e b caps) = issuer_thumbprint E iss"
  by (simp_all add: attest_delegation_def attestation_new_def with_signature_def whole_second_now_def
        issuer_thumbprint_def Let_def)

lemma attest_delegation_authentic:
  assumes "ed25519_correct E" and "is_valid_trust_domain (ri_trust_domain iss)"
  shows "verify_attestation_authenticity E (kernel_public_key E iss) (attest_delegation E iss clock p c ctd ct e b caps)"
proof -
  have "ext_verify E (kernel_public_key E iss) (canonical_attestation_signing_bytes E a)
      (ext_sign E (ri_kernel_key_pair iss) (canonical_attestation_signing_bytes E a))" for a
    by (simp add: kernel_public_key_def ed25519_correctD [OF assms(1)])
  then have "ext_verify E (kernel_public_key E iss)
      (canonical_attestation_signing_bytes E (attest_delegation E iss clock p c ctd ct e b caps))
      (att_signature (attest_delegation E iss clock p c ctd ct e b caps))"
    by (simp add: attest_delegation_def Let_def) (simp add: with_signature_def)
  with assms(2) show ?thesis
    by (simp add: verify_attestation_authenticity_def issuer_thumbprint_def)
qed

section \<open>The lineage of an issuer\<close>

definition issuer_ok :: "'s reference_issuer \<Rightarrow> bool" where
  "issuer_ok iss \<longleftrightarrow>
     (case ri_lineage iss of
        DefaultLineage \<Rightarrow> True
      | InjectedLineage ops s \<Rightarrow> lineage_store (lo_resolve_parent ops) (lo_try_record ops))"

lemma issuer_try_record_laws:
  assumes "issuer_ok iss" and "issuer_try_record iss i p = (iss', r)"
  shows "issuer_ok iss'"
    and "r = Inr () \<Longrightarrow> issuer_resolve_parent iss' i = (case p of None \<Rightarrow> Root | Some q \<Rightarrow> Parent q)"
    and "j \<noteq> i \<Longrightarrow> issuer_resolve_parent iss' j = issuer_resolve_parent iss j"
  using assms
  by (auto simp: issuer_ok_def issuer_try_record_def issuer_resolve_parent_def ml_try_record_eq
        ml_resolve_record Let_def split: lineage_slot.splits prod.splits option.splits
        dest: lineage_store.record_resolves lineage_store.record_frame)

lemma issuer_try_record_frame:
  assumes "issuer_try_record iss i p = (iss', r)"
  shows "ri_kernel_key_pair iss' = ri_kernel_key_pair iss" "ri_trust_domain iss' = ri_trust_domain iss"
    "ri_vaid_ttl_hours iss' = ri_vaid_ttl_hours iss" "ri_revocation iss' = ri_revocation iss"
    "ri_default_store iss' = ri_default_store iss"
  using assms by (auto simp: issuer_try_record_def Let_def split: lineage_slot.splits prod.splits)

text \<open>An issuance that succeeds: the document and the recorded hop.\<close>

lemma build_and_sign_Inr:
  assumes "build_and_sign_vaid E iss env a k = (iss', Inr d)"
  obtains expires where
    "clamp_expiry E (ia_not_after a) (trunc_secs (ie_clock env) + ri_vaid_ttl_hours iss * 3600 * nanos_per_sec)
       = Inr expires"
    "d = sign_document E iss (ie_agent_id env) (trunc_secs (ie_clock env)) expires a k"
    "issuer_try_record iss (ie_agent_id env) (ia_parent_vaid a) = (iss', Inr ())"
  using assms
  by (auto simp: build_and_sign_vaid_def whole_second_now_def Let_def split: sum.splits prod.splits)

lemma build_and_sign_Inl:
  assumes "build_and_sign_vaid E iss env a k = (iss', Inl e)"
  shows "iss' = iss \<or> (\<exists>m. issuer_try_record iss (ie_agent_id env) (ia_parent_vaid a) = (iss', Inl m) \<and>
     e = Lineage (LineageWriteFailed m))"
  using assms
  by (auto simp: build_and_sign_vaid_def whole_second_now_def Let_def split: sum.splits prod.splits)

section \<open>What the mint relies on\<close>

definition issued_as :: "issue_args \<Rightarrow> vaid \<Rightarrow> bool" where
  "issued_as a d \<longleftrightarrow>
     vd_agent_class d = ia_agent_class a \<and> vd_version d = ia_version a \<and> vd_tenant_id d = ia_tenant_id a \<and>
     parent_vaid d = ia_parent_vaid a \<and> vd_scope_boundary d = ia_scope_boundary a \<and>
     vd_capability_set d = ia_capability_set a"

text \<open>
  The contract of an issuer whose states meet \<open>inv\<close>: an issued document carries the arguments and
  a fresh identifier, its hop is recorded before it is returned, and no other hop changes.
\<close>

locale recording_issuer =
  fixes issue :: "'i \<Rightarrow> issue_env \<Rightarrow> issue_args \<Rightarrow> bytes \<Rightarrow> 'i \<times> vaid MintResult"
    and resolve :: "'i \<Rightarrow> uuid \<Rightarrow> ParentResolution"
    and inv :: "'i \<Rightarrow> bool"
  assumes issue_inv: "inv s \<Longrightarrow> issue s env a k = (s', r) \<Longrightarrow> inv s'"
    and issue_document: "inv s \<Longrightarrow> issue s env a k = (s', Inr d) \<Longrightarrow>
      issued_as a d \<and> vaid_id d = ie_agent_id env \<and> vd_public_key_der d = k \<and> resolves_as (resolve s') d"
    and issue_frame: "inv s \<Longrightarrow> issue s env a k = (s', r) \<Longrightarrow> j \<noteq> ie_agent_id env \<Longrightarrow> resolve s' j = resolve s j"
begin

text \<open>Issuing under a fresh identifier leaves every assembled lineage as it was.\<close>

lemma issue_keeps_lineage:
  assumes "inv s" and "issue s env a k = (s', r)" and "assemble_lineage p (resolve s) = Complete ids"
    and "ie_agent_id env \<notin> set ids"
  shows "assemble_lineage p (resolve s') = Complete ids"
proof -
  from assms(3) obtain up where up: "ids = rev up @ [vaid_id p]" "ancestry (resolve s) (parent_vaid p) up"
    "distinct ids" "length ids \<le> MAX_LINEAGE_DEPTH" by (auto simp: assemble_lineage_iff)
  have "ancestry (resolve s') (parent_vaid p) up"
    using up(1) assms(4) issue_frame [OF assms(1,2)]
    by (intro ancestry_cong [OF up(2)]) (metis in_set_conv_decomp set_rev Un_iff set_append)
  with up show ?thesis by (auto simp: assemble_lineage_iff)
qed

text \<open>A child issued under a parent of complete lineage has the parent's lineage and itself.\<close>

lemma issued_child_lineage:
  assumes inv: "inv s" and iss: "issue s env a k = (s', Inr c)"
    and parent: "assemble_lineage p (resolve s) = Complete ids" "resolves_as (resolve s) p"
    and link: "ia_parent_vaid a = Some (vaid_id p)" and fresh: "ie_agent_id env \<notin> set ids"
    and depth: "length ids < MAX_LINEAGE_DEPTH"
  shows "assemble_lineage c (resolve s') = Complete (ids @ [vaid_id c])"
proof -
  note d = issue_document [OF inv iss]
  have "vaid_id p \<in> set ids" using parent(1) by (auto simp: assemble_lineage_iff)
  with fresh have "vaid_id p \<noteq> ie_agent_id env" by metis
  with issue_frame [OF inv iss] parent(2) have "resolves_as (resolve s') p" by (simp add: resolves_as_def)
  then show ?thesis
    using issue_keeps_lineage [OF inv iss parent(1) fresh] d link fresh depth
    by (intro assemble_child) (simp_all add: issued_as_def)
qed

end

interpretation reference: recording_issuer "issue_vaid_with_key E" issuer_resolve_parent issuer_ok for E
proof
  fix s s' :: "'s reference_issuer" and env a k r d j
  assume ok: "issuer_ok s"
  { assume "issue_vaid_with_key E s env a k = (s', r)"
    then have "s' = s \<or> (\<exists>r'. issuer_try_record s (ie_agent_id env) (ia_parent_vaid a) = (s', r'))"
      unfolding issue_vaid_with_key_def
      by (cases r) (auto dest: build_and_sign_Inl elim: build_and_sign_Inr)
    then show "issuer_ok s'" and "j \<noteq> ie_agent_id env \<Longrightarrow> issuer_resolve_parent s' j = issuer_resolve_parent s j"
      using ok issuer_try_record_laws(1,3) by blast+ }
  assume "issue_vaid_with_key E s env a k = (s', Inr d)"
  then obtain expires where "d = sign_document E s (ie_agent_id env) (trunc_secs (ie_clock env)) expires a k"
    and "issuer_try_record s (ie_agent_id env) (ia_parent_vaid a) = (s', Inr ())"
    unfolding issue_vaid_with_key_def by (rule build_and_sign_Inr)
  then show "issued_as a d \<and> vaid_id d = ie_agent_id env \<and> vd_public_key_der d = k \<and>
      resolves_as (issuer_resolve_parent s') d"
    using issuer_try_record_laws(2) [OF ok] by (auto simp: issued_as_def resolves_as_def split: option.splits)
qed

end
