(* ===== verification/Vaid_Pop.thy ===== *)
theory Vaid_Pop
  imports Vaid_External
begin

text \<open>
  The \<^verbatim>\<open>vaid-pop\<close> crate: the one signing primitive (\<^verbatim>\<open>vaid_pop.rs\<close>), the request payload and the
  principal (\<^verbatim>\<open>request_auth.rs\<close>) and the completion record (\<^verbatim>\<open>request_completion.rs\<close>), with
  the derived serialization and deserialization of both payloads.  A payload
  type meets the interface \<open>pop_payload\<close> when its serialization loses no field; a signature over
  such a payload binds every field of it.
\<close>

section \<open>The primitive\<close>

text \<open>The argument is the payload's \<^verbatim>\<open>serde_json::to_value\<close>.\<close>

definition canonical_request_signing_bytes :: "ext \<Rightarrow> json \<Rightarrow> bytes" where
  "canonical_request_signing_bytes E payload = ext_sha256 E (ext_jcs E payload)"

definition sign_payload :: "ext \<Rightarrow> json \<Rightarrow> keypair \<Rightarrow> bytes" where
  "sign_payload E payload key_pair = ext_sign E key_pair (canonical_request_signing_bytes E payload)"

definition verify_signed_payload :: "ext \<Rightarrow> json \<Rightarrow> bytes \<Rightarrow> bytes \<Rightarrow> bool" where
  "verify_signed_payload E payload public_key_der signature =
     ext_verify E public_key_der (canonical_request_signing_bytes E payload) signature"

section \<open>Payloads\<close>

definition OPERATOR_TENANT_ID :: string where
  "OPERATOR_TENANT_ID = ''synthera-control-plane''"

definition CONTROL_PLANE_CAPABILITY :: string where
  "CONTROL_PLANE_CAPABILITY = ''synthera:control-plane''"

definition HEADER_VAID :: string where "HEADER_VAID = ''x-synthera-vaid''"
definition HEADER_TIMESTAMP :: string where "HEADER_TIMESTAMP = ''x-synthera-timestamp''"
definition HEADER_NONCE :: string where "HEADER_NONCE = ''x-synthera-nonce''"
definition HEADER_SIGNATURE :: string where "HEADER_SIGNATURE = ''x-synthera-signature''"

record request_auth_payload =
  rap_vaid_id :: uuid
  rap_method :: string
  rap_path :: string
  rap_body_sha256 :: string
  rap_tenant_id :: string
  rap_timestamp :: instant
  rap_client_nonce :: string

definition ser_request_auth :: "ext \<Rightarrow> request_auth_payload \<Rightarrow> json" where
  "ser_request_auth E p = JObject (map_collect
     [(''vaidId'', ser_uuid E (rap_vaid_id p)),
      (''method'', JString (rap_method p)),
      (''path'', JString (rap_path p)),
      (''bodySha256'', JString (rap_body_sha256 p)),
      (''tenantId'', JString (rap_tenant_id p)),
      (''timestamp'', ser_datetime E (rap_timestamp p)),
      (''clientNonce'', JString (rap_client_nonce p))])"

definition request_field_names :: "string list" where
  "request_field_names = [''vaidId'', ''method'', ''path'', ''bodySha256'', ''tenantId'', ''timestamp'', ''clientNonce'']"

definition de_request_auth :: "ext \<Rightarrow> json \<Rightarrow> request_auth_payload option" where
  "de_request_auth E v = do {
     f \<leftarrow> struct_fields request_field_names v;
     vid \<leftarrow> f ''vaidId'' \<bind> de_uuid E;
     method \<leftarrow> f ''method'' \<bind> as_str;
     path \<leftarrow> f ''path'' \<bind> as_str;
     body_sha256 \<leftarrow> f ''bodySha256'' \<bind> as_str;
     tenant_id \<leftarrow> f ''tenantId'' \<bind> as_str;
     timestamp \<leftarrow> f ''timestamp'' \<bind> de_datetime E;
     client_nonce \<leftarrow> f ''clientNonce'' \<bind> as_str;
     Some \<lparr>rap_vaid_id = vid, rap_method = method, rap_path = path, rap_body_sha256 = body_sha256,
       rap_tenant_id = tenant_id, rap_timestamp = timestamp, rap_client_nonce = client_nonce\<rparr> }"

record principal =
  pr_vaid_id :: uuid
  pr_tenant_id :: string

definition is_operator :: "principal \<Rightarrow> bool" where
  "is_operator p = (pr_tenant_id p = OPERATOR_TENANT_ID)"

datatype AssuranceTier = SelfReported | CounterSigned | ThirdPartyAttested

fun ser_tier :: "AssuranceTier \<Rightarrow> json" where
  "ser_tier SelfReported = JString ''selfReported''"
| "ser_tier CounterSigned = JString ''counterSigned''"
| "ser_tier ThirdPartyAttested = JString ''thirdPartyAttested''"

record completion_record =
  cr_vaid_id :: uuid
  cr_request_digest_sha256 :: string
  cr_tenant_id :: string
  cr_status :: string
  cr_result_sha256 :: string
  cr_completed_at :: instant
  cr_signer_vaid_id :: uuid
  cr_assurance_tier :: AssuranceTier
  cr_record_nonce :: string

definition ser_completion :: "ext \<Rightarrow> completion_record \<Rightarrow> json" where
  "ser_completion E r = JObject (map_collect
     [(''vaidId'', ser_uuid E (cr_vaid_id r)),
      (''requestDigestSha256'', JString (cr_request_digest_sha256 r)),
      (''tenantId'', JString (cr_tenant_id r)),
      (''status'', JString (cr_status r)),
      (''resultSha256'', JString (cr_result_sha256 r)),
      (''completedAt'', ser_datetime E (cr_completed_at r)),
      (''signerVaidId'', ser_uuid E (cr_signer_vaid_id r)),
      (''assuranceTier'', ser_tier (cr_assurance_tier r)),
      (''recordNonce'', JString (cr_record_nonce r))])"

text \<open>A unit variant is its name, or an object of the name with a null.\<close>

definition tier_of_name :: "string \<Rightarrow> AssuranceTier option" where
  "tier_of_name s =
     (if s = ''selfReported'' then Some SelfReported
      else if s = ''counterSigned'' then Some CounterSigned
      else if s = ''thirdPartyAttested'' then Some ThirdPartyAttested
      else None)"

definition de_tier :: "json \<Rightarrow> AssuranceTier option" where
  "de_tier v = (case v of
      JString s \<Rightarrow> tier_of_name s
    | JObject [(s, w)] \<Rightarrow> (if w = Null then tier_of_name s else None)
    | _ \<Rightarrow> None)"

definition completion_field_names :: "string list" where
  "completion_field_names = [''vaidId'', ''requestDigestSha256'', ''tenantId'', ''status'', ''resultSha256'',
     ''completedAt'', ''signerVaidId'', ''assuranceTier'', ''recordNonce'']"

definition de_completion :: "ext \<Rightarrow> json \<Rightarrow> completion_record option" where
  "de_completion E v = do {
     f \<leftarrow> struct_fields completion_field_names v;
     vid \<leftarrow> f ''vaidId'' \<bind> de_uuid E;
     request_digest \<leftarrow> f ''requestDigestSha256'' \<bind> as_str;
     tenant_id \<leftarrow> f ''tenantId'' \<bind> as_str;
     status \<leftarrow> f ''status'' \<bind> as_str;
     result_sha256 \<leftarrow> f ''resultSha256'' \<bind> as_str;
     completed \<leftarrow> f ''completedAt'' \<bind> de_datetime E;
     signer \<leftarrow> f ''signerVaidId'' \<bind> de_uuid E;
     tier \<leftarrow> f ''assuranceTier'' \<bind> de_tier;
     nonce \<leftarrow> f ''recordNonce'' \<bind> as_str;
     Some \<lparr>cr_vaid_id = vid, cr_request_digest_sha256 = request_digest, cr_tenant_id = tenant_id,
       cr_status = status, cr_result_sha256 = result_sha256, cr_completed_at = completed,
       cr_signer_vaid_id = signer, cr_assurance_tier = tier, cr_record_nonce = nonce\<rparr> }"

lemma de_ser_tier [simp]: "de_tier (ser_tier t) = Some t"
  by (cases t) (simp_all add: de_tier_def tier_of_name_def)

lemma de_ser_request_auth:
  assumes "uuid_text_ok E" and "datetime_text_ok E" and "e6_range (rap_timestamp p)"
  shows "de_request_auth E (ser_request_auth E p) = Some p"
proof -
  have "struct_fields request_field_names (ser_request_auth E p) = Some (map_of
     [(''vaidId'', ser_uuid E (rap_vaid_id p)),
      (''method'', JString (rap_method p)),
      (''path'', JString (rap_path p)),
      (''bodySha256'', JString (rap_body_sha256 p)),
      (''tenantId'', JString (rap_tenant_id p)),
      (''timestamp'', ser_datetime E (rap_timestamp p)),
      (''clientNonce'', JString (rap_client_nonce p))])"
    unfolding ser_request_auth_def by (rule struct_fields_collect) (simp_all add: request_field_names_def)
  with assms show ?thesis by (simp add: de_request_auth_def)
qed

lemma de_ser_completion:
  assumes "uuid_text_ok E" and "datetime_text_ok E" and "e6_range (cr_completed_at r)"
  shows "de_completion E (ser_completion E r) = Some r"
proof -
  have "struct_fields completion_field_names (ser_completion E r) = Some (map_of
     [(''vaidId'', ser_uuid E (cr_vaid_id r)),
      (''requestDigestSha256'', JString (cr_request_digest_sha256 r)),
      (''tenantId'', JString (cr_tenant_id r)),
      (''status'', JString (cr_status r)),
      (''resultSha256'', JString (cr_result_sha256 r)),
      (''completedAt'', ser_datetime E (cr_completed_at r)),
      (''signerVaidId'', ser_uuid E (cr_signer_vaid_id r)),
      (''assuranceTier'', ser_tier (cr_assurance_tier r)),
      (''recordNonce'', JString (cr_record_nonce r))])"
    unfolding ser_completion_def by (rule struct_fields_collect) (simp_all add: completion_field_names_def)
  with assms show ?thesis by (simp add: de_completion_def)
qed

section \<open>The interface of a payload\<close>

text \<open>
  \<open>ser\<close> is the payload's serialization and \<open>dated\<close> the condition that its instants are
  printable; the law is that no field is lost.
\<close>

locale pop_payload =
  fixes ser :: "ext \<Rightarrow> 'p \<Rightarrow> json" and dated :: "'p \<Rightarrow> bool"
  assumes ser_inj: "uuid_text_ok E \<Longrightarrow> datetime_json_ok E \<Longrightarrow> dated p \<Longrightarrow> dated q \<Longrightarrow>
      ser E p = ser E q \<Longrightarrow> p = q"
begin

lemma digest_binds:
  assumes "uuid_text_ok E" and "datetime_json_ok E" and "dated p" and "dated q"
    and "no_collision E (ser E p) (ser E q)"
  shows "canonical_request_signing_bytes E (ser E p) = canonical_request_signing_bytes E (ser E q) \<longleftrightarrow> p = q"
  using assms ser_inj [of E p q] by (auto simp: canonical_request_signing_bytes_def no_collision_def)

lemma signed_verifies:
  "ed25519_correct E \<Longrightarrow>
     verify_signed_payload E (ser E p) (ext_public_key E kp) (sign_payload E (ser E p) kp)"
  by (simp add: verify_signed_payload_def sign_payload_def ed25519_correctD)

end

lemma ser_tier_inj [simp]: "ser_tier a = ser_tier b \<longleftrightarrow> a = b"
  by (cases a; cases b) simp_all

interpretation request_auth: pop_payload ser_request_auth "\<lambda>p. e6_range (rap_timestamp p)"
proof
  fix E and p q :: request_auth_payload
  assume "uuid_text_ok E" "datetime_json_ok E" "e6_range (rap_timestamp p)" "e6_range (rap_timestamp q)"
    and "ser_request_auth E p = ser_request_auth E q"
  then show "p = q"
    by (cases p; cases q) (simp add: ser_request_auth_def map_collect_def ser_uuid_inj ser_datetime_inj)
qed

interpretation completion: pop_payload ser_completion "\<lambda>r. e6_range (cr_completed_at r)"
proof
  fix E and p q :: completion_record
  assume "uuid_text_ok E" "datetime_json_ok E" "e6_range (cr_completed_at p)" "e6_range (cr_completed_at q)"
    and "ser_completion E p = ser_completion E q"
  then show "p = q"
    by (cases p; cases q) (simp add: ser_completion_def map_collect_def ser_uuid_inj ser_datetime_inj)
qed

section \<open>Properties\<close>

text \<open>
  A request signature binds the whole request: two payloads the digest tells apart have the same
  signing bytes if and only if they agree on identity, method, path, body hash, tenant, timestamp
  and nonce.
\<close>

lemma request_digest_binds:
  assumes "uuid_text_ok E" and "datetime_json_ok E" and "e6_range (rap_timestamp p)" and "e6_range (rap_timestamp q)"
    and "no_collision E (ser_request_auth E p) (ser_request_auth E q)"
  shows "canonical_request_signing_bytes E (ser_request_auth E p) =
    canonical_request_signing_bytes E (ser_request_auth E q) \<longleftrightarrow> p = q"
  using assms by (rule request_auth.digest_binds)

end
