(* ===== verification/Vaid_Mint_Types.thy ===== *)
theory Vaid_Mint_Types
  imports Vaid_Pop Vaid_Scope Vaid_Error
begin

text \<open>
  The wire types of the mint (\<^verbatim>\<open>mint_types.rs\<close>) with the proof-of-possession payload, the root
  authorization seam (\<^verbatim>\<open>authz.rs\<close>) and the audit seam with its two sinks (\<^verbatim>\<open>audit.rs\<close>).
\<close>

section \<open>Requests and the possession payload\<close>

record vaid_seed =
  seed_agent_class :: string
  seed_version :: string
  seed_tenant_id :: string
  seed_parent_vaid :: "uuid option"
  seed_scope_boundary :: "scope_entry list"
  seed_capability_set :: "string list"
  seed_public_key_der :: "bytes option"

record mint_pop =
  pop_nonce :: string
  pop_issued_at :: instant
  pop_signature :: bytes

record mint_request =
  req_seed :: vaid_seed
  req_pop :: "mint_pop option"

record mint_pop_payload =
  mpp_public_key_der :: bytes
  mpp_tenant_id :: string
  mpp_agent_class :: string
  mpp_version :: string
  mpp_parent_vaid :: "uuid option"
  mpp_scope_boundary :: "scope_entry list"
  mpp_capability_set :: "string list"
  mpp_nonce :: string
  mpp_issued_at :: instant

definition pop_payload_of :: "vaid_seed \<Rightarrow> bytes \<Rightarrow> string \<Rightarrow> instant \<Rightarrow> mint_pop_payload" where
  "pop_payload_of seed public_key_der nonce issued =
     \<lparr>mpp_public_key_der = public_key_der, mpp_tenant_id = seed_tenant_id seed,
      mpp_agent_class = seed_agent_class seed, mpp_version = seed_version seed,
      mpp_parent_vaid = seed_parent_vaid seed, mpp_scope_boundary = seed_scope_boundary seed,
      mpp_capability_set = seed_capability_set seed, mpp_nonce = nonce, mpp_issued_at = issued\<rparr>"

definition ser_opt_uuid :: "ext \<Rightarrow> uuid option \<Rightarrow> json" where
  "ser_opt_uuid E u = (case u of None \<Rightarrow> Null | Some i \<Rightarrow> ser_uuid E i)"

definition ser_boundary :: "scope_entry list \<Rightarrow> json" where
  "ser_boundary b = JArray (map ser_scope_entry b)"

definition ser_pop_payload :: "ext \<Rightarrow> mint_pop_payload \<Rightarrow> json" where
  "ser_pop_payload E p = JObject (map_collect
     [(''publicKeyDer'', ser_bytes (mpp_public_key_der p)),
      (''tenantId'', JString (mpp_tenant_id p)),
      (''agentClass'', JString (mpp_agent_class p)),
      (''version'', JString (mpp_version p)),
      (''parentVaid'', ser_opt_uuid E (mpp_parent_vaid p)),
      (''scopeBoundary'', ser_boundary (mpp_scope_boundary p)),
      (''capabilitySet'', ser_strings (mpp_capability_set p)),
      (''nonce'', JString (mpp_nonce p)),
      (''issuedAt'', ser_datetime E (mpp_issued_at p))])"

lemma ser_opt_uuid_inj: "uuid_text_ok E \<Longrightarrow> ser_opt_uuid E u = ser_opt_uuid E v \<longleftrightarrow> u = v"
  by (cases u; cases v) (simp_all add: ser_opt_uuid_def ser_uuid_inj, simp_all add: ser_uuid_def)

lemma ser_boundary_inj [simp]: "ser_boundary a = ser_boundary b \<longleftrightarrow> a = b"
proof -
  have "inj ser_scope_entry" by (simp add: inj_def)
  then show ?thesis by (simp add: ser_boundary_def inj_map_eq_map)
qed

interpretation mint_possession: pop_payload ser_pop_payload "\<lambda>p. e6_range (mpp_issued_at p)"
proof
  fix E and p q :: mint_pop_payload
  assume "uuid_text_ok E" "datetime_json_ok E" "e6_range (mpp_issued_at p)" "e6_range (mpp_issued_at q)"
    and "ser_pop_payload E p = ser_pop_payload E q"
  then show "p = q"
    by (cases p; cases q)
       (simp add: ser_pop_payload_def map_collect_def ser_opt_uuid_inj ser_datetime_inj)
qed

section \<open>The authorization seam\<close>

type_synonym authorization_gate = "vaid_seed \<Rightarrow> unit MintResult"

definition permit_all :: authorization_gate where
  "permit_all seed = Inr ()"

section \<open>The audit seam\<close>

record audit_entry =
  ae_event_type :: string
  ae_details :: json

text \<open>A sink over its state: a write returns the state it leaves and its result.\<close>

type_synonym 'a audit_sink = "'a \<Rightarrow> string \<Rightarrow> json \<Rightarrow> 'a \<times> unit MintResult"

record memory_audit =
  ma_entries :: "audit_entry list"

definition ma_new :: memory_audit where
  "ma_new = \<lparr>ma_entries = []\<rparr>"

definition ma_len :: "memory_audit \<Rightarrow> nat" where
  "ma_len a = length (ma_entries a)"

definition ma_is_empty :: "memory_audit \<Rightarrow> bool" where
  "ma_is_empty a = (ma_len a = 0)"

definition ma_record :: "memory_audit audit_sink" where
  "ma_record a event_type details =
     (a\<lparr>ma_entries := ma_entries a @ [\<lparr>ae_event_type = event_type, ae_details = details\<rparr>]\<rparr>, Inr ())"

definition noop_record :: "unit audit_sink" where
  "noop_record a event_type details = ((), Inr ())"

section \<open>What the digest binds\<close>

text \<open>
  The proof of possession binds the whole mint request: the key being registered, every requested
  attribute and the freshness material.  Two seeds with their proofs give the same signing bytes,
  if the digest tells the payloads apart, only when they ask for the same document with the same
  key, nonce and time.
\<close>

lemma mint_possession_binds:
  assumes "uuid_text_ok E" and "datetime_json_ok E" and "e6_range t" and "e6_range t'"
    and "no_collision E (ser_pop_payload E (pop_payload_of seed key nonce t))
          (ser_pop_payload E (pop_payload_of seed' key' nonce' t'))"
    and "canonical_request_signing_bytes E (ser_pop_payload E (pop_payload_of seed key nonce t)) =
          canonical_request_signing_bytes E (ser_pop_payload E (pop_payload_of seed' key' nonce' t'))"
  shows "key = key' \<and> nonce = nonce' \<and> t = t' \<and>
    seed\<lparr>seed_public_key_der := None\<rparr> = seed'\<lparr>seed_public_key_der := None\<rparr>"
proof -
  have "pop_payload_of seed key nonce t = pop_payload_of seed' key' nonce' t'"
    using mint_possession.digest_binds [OF assms(1,2) _ _ assms(5)] assms(3,4,6) by (simp add: pop_payload_of_def)
  then show ?thesis by (cases seed; cases seed') (simp add: pop_payload_of_def)
qed

definition demo_seed :: vaid_seed where
  "demo_seed = \<lparr>seed_agent_class = ''a'', seed_version = ''1'', seed_tenant_id = ''acme'', seed_parent_vaid = None,
     seed_scope_boundary = [], seed_capability_set = [], seed_public_key_der = Some [1]\<rparr>"

lemma demo_possession_binds:
  "([1] :: bytes) = [1] \<and> demo_seed\<lparr>seed_public_key_der := None\<rparr> =
     (demo_seed\<lparr>seed_public_key_der := Some [2]\<rparr>)\<lparr>seed_public_key_der := None\<rparr>"
proof -
  have same: "pop_payload_of demo_seed [1] ''n'' 0 = pop_payload_of (demo_seed\<lparr>seed_public_key_der := Some [2]\<rparr>) [1] ''n'' 0"
    by (simp add: pop_payload_of_def)
  have "e6_range 0" by (simp add: e6_range_def nanos_per_sec_def)
  then show ?thesis
    using mint_possession_binds [OF demo_uuid_text_ok demo_datetime_json_ok, of 0 0 demo_seed "[1]" "''n''"
        "demo_seed\<lparr>seed_public_key_der := Some [2]\<rparr>" "[1]" "''n''"] same by (simp add: no_collision_def)
qed

end
