(* ===== verification/Vaid_Mint.thy ===== *)
theory Vaid_Mint
  imports Vaid_Issuer Vaid_Mint_Types
begin

text \<open>
  The mint service (\<^verbatim>\<open>crates/vaid-mint/src/mint.rs\<close>): construction with a validated delegation
  depth, the proof of possession with its single-use nonces, root mints and attenuated child
  mints.  The service is a record of its seams (issuer, audit sink, gate) with their states; an
  operation returns the service it leaves and its result.  Each wall-clock read is an argument
  of its own.
\<close>

definition DEFAULT_MAX_DELEGATION_DEPTH :: nat where
  "DEFAULT_MAX_DELEGATION_DEPTH = 1"

definition validate_max_delegation_depth :: "nat \<Rightarrow> nat MintResult" where
  "validate_max_delegation_depth max_delegation_depth =
     (if max_delegation_depth < 1 then Inl (Config (DepthTooSmall max_delegation_depth))
      else if max_delegation_depth > MAX_LINEAGE_DEPTH
      then Inl (Config (DepthTooLarge max_delegation_depth MAX_LINEAGE_DEPTH))
      else Inr max_delegation_depth)"

section \<open>The service\<close>

record ('i, 'a) mint_service =
  ms_issuer_ops :: "'i vaid_issuer"
  ms_issuer :: 'i
  ms_audit_ops :: "'a audit_sink"
  ms_audit :: 'a
  ms_authz :: authorization_gate
  ms_consumed_pop_nonces :: "string set"
  ms_max_delegation_depth :: nat

definition with_max_delegation_depth ::
  "'i vaid_issuer \<Rightarrow> 'i \<Rightarrow> 'a audit_sink \<Rightarrow> 'a \<Rightarrow> authorization_gate \<Rightarrow> nat \<Rightarrow> ('i, 'a) mint_service MintResult" where
  "with_max_delegation_depth issuer_ops issuer audit_ops audit authz max_delegation_depth =
     and_then (validate_max_delegation_depth max_delegation_depth) (\<lambda>depth.
     Inr \<lparr>ms_issuer_ops = issuer_ops, ms_issuer = issuer, ms_audit_ops = audit_ops, ms_audit = audit,
          ms_authz = authz, ms_consumed_pop_nonces = {}, ms_max_delegation_depth = depth\<rparr>)"

text \<open>\<^verbatim>\<open>expect\<close> panics on an error: \<^term>\<open>None\<close>.\<close>

definition with_authorization ::
  "'i vaid_issuer \<Rightarrow> 'i \<Rightarrow> 'a audit_sink \<Rightarrow> 'a \<Rightarrow> authorization_gate \<Rightarrow> ('i, 'a) mint_service option" where
  "with_authorization issuer_ops issuer audit_ops audit authz =
     (case with_max_delegation_depth issuer_ops issuer audit_ops audit authz DEFAULT_MAX_DELEGATION_DEPTH of
        Inl e \<Rightarrow> None
      | Inr ms \<Rightarrow> Some ms)"

definition mint_new :: "'i vaid_issuer \<Rightarrow> 'i \<Rightarrow> 'a audit_sink \<Rightarrow> 'a \<Rightarrow> ('i, 'a) mint_service option" where
  "mint_new issuer_ops issuer audit_ops audit = with_authorization issuer_ops issuer audit_ops audit permit_all"

text \<open>What one mint reads from outside: the clock at the possession check and at the expiry check,
  and what the issuer reads.\<close>

record mint_env =
  me_pop_clock :: instant
  me_expiry_clock :: instant
  me_issue :: issue_env

record mint_response =
  mr_vaid :: vaid
  mr_expiry_bounded_by_parent :: bool
  mr_parent_expires_at :: "string option"

section \<open>Proof of possession\<close>

definition pop_skew :: "instant \<Rightarrow> mint_pop \<Rightarrow> int" where
  "pop_skew clock pop = \<bar>num_seconds (clock - pop_issued_at pop)\<bar>"

definition verify_pop_at_mint ::
  "ext \<Rightarrow> instant \<Rightarrow> ('i, 'a) mint_service \<Rightarrow> vaid_seed \<Rightarrow> bytes \<Rightarrow> mint_pop option \<Rightarrow>
   ('i, 'a) mint_service \<times> unit MintResult" where
  "verify_pop_at_mint E clock ms seed registered_key pop_opt =
     (case pop_opt of
        None \<Rightarrow> (ms, Inl (Identity PopRequired))
      | Some pop \<Rightarrow>
          if pop_skew clock pop > MINT_POP_FRESHNESS_SECS
          then (ms, Inl (Identity (PopStale (pop_skew clock pop))))
          else if pop_nonce pop \<in> ms_consumed_pop_nonces ms then (ms, Inl (Identity PopReplayed))
          else
            let ms' = ms\<lparr>ms_consumed_pop_nonces := insert (pop_nonce pop) (ms_consumed_pop_nonces ms)\<rparr>;
                payload = pop_payload_of seed registered_key (pop_nonce pop) (pop_issued_at pop)
            in if \<not> verify_signed_payload E (ser_pop_payload E payload) registered_key (pop_signature pop)
               then (ms', Inl (Identity PopBadSignature))
               else (ms', Inr ()))"

section \<open>Root mints\<close>

definition ser_usize :: "nat \<Rightarrow> json" where
  "ser_usize n = JNumber (PosInt (word_of_nat n))"

definition root_issue_args :: "vaid_seed \<Rightarrow> issue_args" where
  "root_issue_args seed =
     \<lparr>ia_agent_class = seed_agent_class seed, ia_version = seed_version seed,
      ia_tenant_id = seed_tenant_id seed, ia_parent_vaid = seed_parent_vaid seed,
      ia_scope_boundary = seed_scope_boundary seed, ia_capability_set = seed_capability_set seed,
      ia_not_after = None\<rparr>"

definition root_audit_details :: "ext \<Rightarrow> vaid_seed \<Rightarrow> bool \<Rightarrow> json" where
  "root_audit_details E seed byo_key = JObject (map_collect
     [(''agent_class'', JString (seed_agent_class seed)),
      (''version'', JString (seed_version seed)),
      (''tenant_id'', JString (seed_tenant_id seed)),
      (''parent_vaid'', ser_opt_uuid E (seed_parent_vaid seed)),
      (''scope_boundary'', ser_boundary (seed_scope_boundary seed)),
      (''capability_set_len'', ser_usize (length (seed_capability_set seed))),
      (''byo_key'', JBool byo_key),
      (''pop_verified'', JBool byo_key),
      (''delegated'', JBool False)])"

text \<open>Record the event; the response is handed out only if the sink accepted it.\<close>

definition audited ::
  "('i, 'a) mint_service \<Rightarrow> json \<Rightarrow> mint_response \<Rightarrow> ('i, 'a) mint_service \<times> mint_response MintResult" where
  "audited ms details response =
     (let (au, r) = ms_audit_ops ms (ms_audit ms) ''vaid_minted'' details;
          ms' = ms\<lparr>ms_audit := au\<rparr>
      in case r of Inl e \<Rightarrow> (ms', Inl e) | Inr _ \<Rightarrow> (ms', Inr response))"

definition mint_root ::
  "ext \<Rightarrow> mint_env \<Rightarrow> ('i, 'a) mint_service \<Rightarrow> mint_request \<Rightarrow> ('i, 'a) mint_service \<times> mint_response MintResult" where
  "mint_root E env ms request =
     (let seed = req_seed request in
      case ms_authz ms seed of
        Inl e \<Rightarrow> (ms, Inl e)
      | Inr _ \<Rightarrow>
          let byo_key = (seed_public_key_der seed \<noteq> None);
              (ms2, issued) =
                (case seed_public_key_der seed of
                   Some key \<Rightarrow>
                     (let (ms1, p) = verify_pop_at_mint E (me_pop_clock env) ms seed key (req_pop request)
                      in case p of
                           Inl e \<Rightarrow> (ms1, Inl e)
                         | Inr _ \<Rightarrow>
                             (let (st, r) = vi_issue_with_key (ms_issuer_ops ms1) (ms_issuer ms1)
                                    (me_issue env) (root_issue_args seed) key
                              in (ms1\<lparr>ms_issuer := st\<rparr>, r)))
                 | None \<Rightarrow>
                     (let (st, r) = vi_issue_with_lineage (ms_issuer_ops ms) (ms_issuer ms)
                            (me_issue env) (root_issue_args seed)
                      in (ms\<lparr>ms_issuer := st\<rparr>, r)))
          in case issued of
               Inl e \<Rightarrow> (ms2, Inl e)
             | Inr d \<Rightarrow> audited ms2 (root_audit_details E seed byo_key)
                 \<lparr>mr_vaid = d, mr_expiry_bounded_by_parent = False, mr_parent_expires_at = None\<rparr>)"

section \<open>Child mints\<close>

text \<open>Step (1b): the parent's depth, from the lineage the issuer can resolve.\<close>

definition parent_depth_of :: "lineage_resolver \<Rightarrow> vaid \<Rightarrow> nat MintResult" where
  "parent_depth_of resolver parent =
     (case assemble_lineage parent resolver of
        Complete chain \<Rightarrow> Inr (length chain - 1)
      | Incomplete \<Rightarrow> Inl (Unauthorized DepthUndetermined))"

text \<open>Steps (1b) to (5a): the refusals that come before any key work or nonce.\<close>

definition check_delegation ::
  "ext \<Rightarrow> instant \<Rightarrow> ('i, 'a) mint_service \<Rightarrow> vaid_seed \<Rightarrow> vaid \<Rightarrow> unit MintResult" where
  "check_delegation E now ms seed parent =
     (case parent_depth_of (vi_resolve_delegation_ancestor (ms_issuer_ops ms) (ms_issuer ms)) parent of
        Inl e \<Rightarrow> Inl e
      | Inr parent_depth \<Rightarrow>
          let child_depth = parent_depth + 1 in
          if child_depth > ms_max_delegation_depth ms
          then Inl (Unauthorized (DepthExceeded child_depth (ms_max_delegation_depth ms) parent_depth))
          else if \<not> tenant_attenuates parent (vd_trust_domain parent) (seed_tenant_id seed)
          then Inl (Unauthorized (CrossTenant (seed_tenant_id seed) (vd_tenant_id parent)))
          else if seed_parent_vaid seed \<noteq> Some (vaid_id parent)
          then Inl (Unauthorized (LineageMismatch (seed_parent_vaid seed) (vaid_id parent)))
          else if \<not> scope_attenuates parent (seed_scope_boundary seed)
          then Inl (Unauthorized ScopeExceeds)
          else if \<not> caps_attenuate parent (seed_capability_set seed)
          then Inl (Unauthorized CapsExceed)
          else if is_expired_at E parent now
          then Inl (Unauthorized (ParentExpired (vaid_id parent) (vd_expires_at parent)))
          else Inr ())"

definition child_issue_args :: "vaid_seed \<Rightarrow> vaid \<Rightarrow> issue_args" where
  "child_issue_args seed parent =
     \<lparr>ia_agent_class = seed_agent_class seed, ia_version = seed_version seed,
      ia_tenant_id = seed_tenant_id seed, ia_parent_vaid = seed_parent_vaid seed,
      ia_scope_boundary = seed_scope_boundary seed, ia_capability_set = seed_capability_set seed,
      ia_not_after = Some (vd_expires_at parent)\<rparr>"

definition child_audit_details :: "ext \<Rightarrow> vaid_seed \<Rightarrow> vaid \<Rightarrow> vaid \<Rightarrow> bool \<Rightarrow> json" where
  "child_audit_details E seed parent d bounded = JObject (map_collect
     [(''agent_class'', JString (seed_agent_class seed)),
      (''version'', JString (seed_version seed)),
      (''parent_vaid'', ser_opt_uuid E (seed_parent_vaid seed)),
      (''scope_boundary'', ser_boundary (seed_scope_boundary seed)),
      (''capability_set_len'', ser_usize (length (seed_capability_set seed))),
      (''byo_key'', JBool True),
      (''pop_verified'', JBool True),
      (''delegated'', JBool True),
      (''attenuation_verified'', JBool True),
      (''parent_tenant'', JString (vd_tenant_id parent)),
      (''expiry_bounded_by_parent'', JBool bounded),
      (''expires_at'', JString (vd_expires_at d)),
      (''parent_expires_at'', JString (vd_expires_at parent))])"

text \<open>Steps (7) to (9): issue, check what came back, record it.\<close>

definition issue_child ::
  "ext \<Rightarrow> mint_env \<Rightarrow> ('i, 'a) mint_service \<Rightarrow> vaid_seed \<Rightarrow> bytes \<Rightarrow> vaid \<Rightarrow>
   ('i, 'a) mint_service \<times> mint_response MintResult" where
  "issue_child E env ms seed key parent =
     (let (st, r) = vi_issue_with_key (ms_issuer_ops ms) (ms_issuer ms) (me_issue env)
            (child_issue_args seed parent) key;
          ms' = ms\<lparr>ms_issuer := st\<rparr>
      in case r of
           Inl e \<Rightarrow> (ms', Inl e)
         | Inr d \<Rightarrow>
             if \<not> expiry_attenuates E parent (Some (vd_expires_at d))
             then (ms', Inl (Unauthorized (IssuerIgnoredNotAfter (vd_expires_at d) (vd_expires_at parent))))
             else
               let bounded = (vd_expires_at d = vd_expires_at parent)
               in audited ms' (child_audit_details E seed parent d bounded)
                    \<lparr>mr_vaid = d, mr_expiry_bounded_by_parent = bounded,
                     mr_parent_expires_at = Some (vd_expires_at parent)\<rparr>)"

definition mint_child ::
  "ext \<Rightarrow> mint_env \<Rightarrow> ('i, 'a) mint_service \<Rightarrow> mint_request \<Rightarrow> vaid option \<Rightarrow>
   ('i, 'a) mint_service \<times> mint_response MintResult" where
  "mint_child E env ms request parent_opt =
     (case parent_opt of
        None \<Rightarrow> (ms, Inl (Unauthorized NoVerifiedParent))
      | Some parent \<Rightarrow>
          let seed = req_seed request in
          case check_delegation E (me_expiry_clock env) ms seed parent of
            Inl e \<Rightarrow> (ms, Inl e)
          | Inr _ \<Rightarrow>
              (case seed_public_key_der seed of
                 None \<Rightarrow> (ms, Inl (Identity ByoKeyRequired))
               | Some key \<Rightarrow>
                   (let (ms1, p) = verify_pop_at_mint E (me_pop_clock env) ms seed key (req_pop request)
                    in case p of
                         Inl e \<Rightarrow> (ms1, Inl e)
                       | Inr _ \<Rightarrow> issue_child E env ms1 seed key parent)))"

section \<open>Inversion lemmas\<close>

lemma validate_depth_Inr: "validate_max_delegation_depth n = Inr m \<longleftrightarrow> m = n \<and> 1 \<le> n \<and> n \<le> MAX_LINEAGE_DEPTH"
  by (auto simp: validate_max_delegation_depth_def)

lemma with_authorization_total: "with_authorization iops i aops a g \<noteq> None"
  by (simp add: with_authorization_def with_max_delegation_depth_def validate_max_delegation_depth_def
        DEFAULT_MAX_DELEGATION_DEPTH_def MAX_LINEAGE_DEPTH_def)

definition pop_accepted ::
  "ext \<Rightarrow> instant \<Rightarrow> vaid_seed \<Rightarrow> bytes \<Rightarrow> mint_pop \<Rightarrow> string set \<Rightarrow> bool" where
  "pop_accepted E clock seed key pop nonces \<longleftrightarrow>
     pop_skew clock pop \<le> 300 \<and> pop_nonce pop \<notin> nonces \<and>
     verify_signed_payload E (ser_pop_payload E (pop_payload_of seed key (pop_nonce pop) (pop_issued_at pop)))
       key (pop_signature pop)"

lemma verify_pop_Inr:
  "verify_pop_at_mint E clock ms seed key p = (ms', Inr ()) \<longleftrightarrow>
     (\<exists>pop. p = Some pop \<and> pop_accepted E clock seed key pop (ms_consumed_pop_nonces ms) \<and>
        ms' = ms\<lparr>ms_consumed_pop_nonces := insert (pop_nonce pop) (ms_consumed_pop_nonces ms)\<rparr>)"
  by (auto simp: verify_pop_at_mint_def pop_accepted_def MINT_POP_FRESHNESS_SECS_def Let_def
        split: option.splits if_splits)

text \<open>Whatever the outcome, the check touches nothing but the nonces, and only adds the one shown.\<close>

lemma verify_pop_state:
  "verify_pop_at_mint E clock ms seed key p = (ms', r) \<Longrightarrow>
     ms' = ms \<or> (\<exists>pop. p = Some pop \<and>
       ms' = ms\<lparr>ms_consumed_pop_nonces := insert (pop_nonce pop) (ms_consumed_pop_nonces ms)\<rparr>)"
  by (auto simp: verify_pop_at_mint_def Let_def split: option.splits if_splits)

lemma parent_depth_Inr:
  "parent_depth_of resolver parent = Inr n \<longleftrightarrow>
     (\<exists>ids. assemble_lineage parent resolver = Complete ids \<and> length ids = n + 1)"
  using assemble_lineage_nonempty [of parent resolver]
  by (auto simp: parent_depth_of_def Suc_diff_Suc split: LineageAssembly.splits)

lemma check_delegation_Inr:
  "check_delegation E now ms seed parent = Inr () \<longleftrightarrow>
     (\<exists>ids. assemble_lineage parent (vi_resolve_delegation_ancestor (ms_issuer_ops ms) (ms_issuer ms)) = Complete ids
        \<and> length ids \<le> ms_max_delegation_depth ms)
     \<and> vd_tenant_id parent = seed_tenant_id seed \<and> seed_parent_vaid seed = Some (vaid_id parent)
     \<and> scope_attenuates parent (seed_scope_boundary seed) \<and> caps_attenuate parent (seed_capability_set seed)
     \<and> \<not> is_expired_at E parent now"
proof (cases "parent_depth_of (vi_resolve_delegation_ancestor (ms_issuer_ops ms) (ms_issuer ms)) parent")
  case (Inl e)
  then show ?thesis
    by (auto simp: check_delegation_def parent_depth_of_def split: LineageAssembly.splits)
next
  case (Inr n)
  then obtain ids where
    "assemble_lineage parent (vi_resolve_delegation_ancestor (ms_issuer_ops ms) (ms_issuer ms)) = Complete ids"
    "length ids = n + 1" by (auto simp: parent_depth_Inr)
  with Inr show ?thesis
    by (auto simp: check_delegation_def tenant_attenuates_def Let_def)
qed

text \<open>Every refusal before the possession check is an authorization error.\<close>

lemma check_delegation_Inl:
  "check_delegation E now ms seed parent = Inl e \<Longrightarrow> \<exists>why. e = Unauthorized why"
  by (auto simp: check_delegation_def parent_depth_of_def Let_def split: LineageAssembly.splits if_splits)

lemma audited_Inr:
  "audited ms details response = (ms', Inr resp) \<longleftrightarrow>
     resp = response \<and> (\<exists>au. ms_audit_ops ms (ms_audit ms) ''vaid_minted'' details = (au, Inr ()) \<and>
        ms' = ms\<lparr>ms_audit := au\<rparr>)"
  by (auto simp: audited_def Let_def split: prod.splits sum.splits)

lemma audited_state: "audited ms details response = (ms', r) \<Longrightarrow> \<exists>au. ms' = ms\<lparr>ms_audit := au\<rparr>"
  by (auto simp: audited_def Let_def split: prod.splits sum.splits)

lemma issue_child_Inr:
  assumes "issue_child E env ms seed key parent = (ms', Inr resp)"
  obtains st d au where
    "vi_issue_with_key (ms_issuer_ops ms) (ms_issuer ms) (me_issue env) (child_issue_args seed parent) key
       = (st, Inr d)"
    "expiry_attenuates E parent (Some (vd_expires_at d))"
    "mr_vaid resp = d" "mr_expiry_bounded_by_parent resp = (vd_expires_at d = vd_expires_at parent)"
    "mr_parent_expires_at resp = Some (vd_expires_at parent)"
    "ms_audit_ops ms (ms_audit ms) ''vaid_minted''
       (child_audit_details E seed parent d (vd_expires_at d = vd_expires_at parent)) = (au, Inr ())"
    "ms' = ms\<lparr>ms_issuer := st, ms_audit := au\<rparr>"
  using assms
  by (auto simp: issue_child_def audited_Inr Let_def split: prod.splits sum.splits if_splits)

lemma mint_child_Inr:
  assumes "mint_child E env ms request po = (ms', Inr resp)"
  obtains parent key pop where
    "po = Some parent" "check_delegation E (me_expiry_clock env) ms (req_seed request) parent = Inr ()"
    "seed_public_key_der (req_seed request) = Some key" "req_pop request = Some pop"
    "pop_accepted E (me_pop_clock env) (req_seed request) key pop (ms_consumed_pop_nonces ms)"
    "issue_child E env
       (ms\<lparr>ms_consumed_pop_nonces := insert (pop_nonce pop) (ms_consumed_pop_nonces ms)\<rparr>)
       (req_seed request) key parent = (ms', Inr resp)"
  using assms
  by (auto simp: mint_child_def verify_pop_Inr Let_def split: option.splits prod.splits sum.splits)

lemma mint_root_Inr:
  assumes "mint_root E env ms request = (ms', Inr resp)"
  obtains (byo) key pop st d au where
    "ms_authz ms (req_seed request) = Inr ()"
    "seed_public_key_der (req_seed request) = Some key" "req_pop request = Some pop"
    "pop_accepted E (me_pop_clock env) (req_seed request) key pop (ms_consumed_pop_nonces ms)"
    "vi_issue_with_key (ms_issuer_ops ms) (ms_issuer ms) (me_issue env) (root_issue_args (req_seed request)) key
       = (st, Inr d)"
    "ms_audit_ops ms (ms_audit ms) ''vaid_minted'' (root_audit_details E (req_seed request) True) = (au, Inr ())"
    "ms' = ms\<lparr>ms_consumed_pop_nonces := insert (pop_nonce pop) (ms_consumed_pop_nonces ms),
             ms_issuer := st, ms_audit := au\<rparr>"
    "resp = \<lparr>mr_vaid = d, mr_expiry_bounded_by_parent = False, mr_parent_expires_at = None\<rparr>"
  | (generated) st d au where
    "ms_authz ms (req_seed request) = Inr ()" "seed_public_key_der (req_seed request) = None"
    "vi_issue_with_lineage (ms_issuer_ops ms) (ms_issuer ms) (me_issue env) (root_issue_args (req_seed request))
       = (st, Inr d)"
    "ms_audit_ops ms (ms_audit ms) ''vaid_minted'' (root_audit_details E (req_seed request) False) = (au, Inr ())"
    "ms' = ms\<lparr>ms_issuer := st, ms_audit := au\<rparr>"
    "resp = \<lparr>mr_vaid = d, mr_expiry_bounded_by_parent = False, mr_parent_expires_at = None\<rparr>"
proof (cases "seed_public_key_der (req_seed request)")
  case None
  with assms show ?thesis
    by (auto simp: mint_root_def audited_Inr Let_def split: sum.splits prod.splits intro: generated)
next
  case (Some key)
  with assms obtain ms1 where
    "verify_pop_at_mint E (me_pop_clock env) ms (req_seed request) key (req_pop request) = (ms1, Inr ())"
    by (auto simp: mint_root_def Let_def split: sum.splits prod.splits)
  with Some assms show ?thesis
    by (auto simp: mint_root_def audited_Inr verify_pop_Inr Let_def split: sum.splits prod.splits intro: byo)
qed

section \<open>What the operations keep\<close>

text \<open>The part of the service no operation changes, and the nonces that only grow.\<close>

definition same_config :: "('i, 'a) mint_service \<Rightarrow> ('i, 'a) mint_service \<Rightarrow> bool" where
  "same_config ms ms' \<longleftrightarrow>
     ms_issuer_ops ms' = ms_issuer_ops ms \<and> ms_audit_ops ms' = ms_audit_ops ms \<and> ms_authz ms' = ms_authz ms \<and>
     ms_max_delegation_depth ms' = ms_max_delegation_depth ms \<and>
     ms_consumed_pop_nonces ms \<subseteq> ms_consumed_pop_nonces ms'"

lemma same_config_refl [simp]: "same_config ms ms"
  by (simp add: same_config_def)

lemma same_config_trans: "same_config a b \<Longrightarrow> same_config b c \<Longrightarrow> same_config a c"
  by (auto simp: same_config_def)

lemma same_config_updates:
  "same_config ms (ms\<lparr>ms_audit := au\<rparr>)" "same_config ms (ms\<lparr>ms_issuer := st\<rparr>)"
  "same_config ms (ms\<lparr>ms_consumed_pop_nonces := insert n (ms_consumed_pop_nonces ms)\<rparr>)"
  by (auto simp: same_config_def)

lemma verify_pop_config: "verify_pop_at_mint E clock ms seed key p = (ms', r) \<Longrightarrow> same_config ms ms'"
  by (drule verify_pop_state) (auto simp: same_config_updates)

lemma audited_config: "audited ms details response = (ms', r) \<Longrightarrow> same_config ms ms'"
  by (drule audited_state) (auto simp: same_config_updates)

lemma issue_child_config:
  assumes "issue_child E env ms seed key parent = (ms', r)"
  shows "same_config ms ms'"
proof -
  obtain st i where i: "vi_issue_with_key (ms_issuer_ops ms) (ms_issuer ms) (me_issue env)
      (child_issue_args seed parent) key = (st, i)" by (metis surj_pair)
  have "same_config (ms\<lparr>ms_issuer := st\<rparr>) ms'"
    using assms i by (auto simp: issue_child_def Let_def split: sum.splits if_splits dest: audited_config)
  then show ?thesis by (rule same_config_trans [OF same_config_updates(2)])
qed

lemma mint_child_config:
  assumes "mint_child E env ms request po = (ms', r)"
  shows "same_config ms ms'"
  using assms
  by (auto simp: mint_child_def Let_def split: option.splits sum.splits prod.splits
        dest: verify_pop_config issue_child_config intro: same_config_trans)

lemma mint_root_config:
  assumes "mint_root E env ms request = (ms', r)"
  shows "same_config ms ms'"
proof (cases "ms_authz ms (req_seed request)")
  case (Inl e)
  with assms show ?thesis by (simp add: mint_root_def)
next
  case (Inr u)
  show ?thesis
  proof (cases "seed_public_key_der (req_seed request)")
    case None
    with assms Inr show ?thesis
      by (auto simp: mint_root_def Let_def split: sum.splits prod.splits
            dest!: audited_config intro: same_config_trans same_config_updates)
  next
    case (Some key)
    obtain ms1 p where p: "verify_pop_at_mint E (me_pop_clock env) ms (req_seed request) key (req_pop request) = (ms1, p)"
      by (metis surj_pair)
    have "same_config ms1 ms'"
      using assms Inr Some p
      by (auto simp: mint_root_def Let_def split: sum.splits prod.splits
            dest!: audited_config intro: same_config_trans same_config_updates)
    then show ?thesis using verify_pop_config [OF p] same_config_trans by blast
  qed
qed

section \<open>Sequences of mints\<close>

datatype mint_op =
    RootOp mint_env mint_request
  | ChildOp mint_env mint_request "vaid option"

fun op_request :: "mint_op \<Rightarrow> mint_request" where
  "op_request (RootOp env request) = request"
| "op_request (ChildOp env request po) = request"

fun mint_apply :: "ext \<Rightarrow> ('i, 'a) mint_service \<Rightarrow> mint_op \<Rightarrow> ('i, 'a) mint_service \<times> mint_response MintResult" where
  "mint_apply E ms (RootOp env request) = mint_root E env ms request"
| "mint_apply E ms (ChildOp env request po) = mint_child E env ms request po"

fun mint_run ::
  "ext \<Rightarrow> ('i, 'a) mint_service \<Rightarrow> mint_op list \<Rightarrow> ('i, 'a) mint_service \<times> mint_response MintResult list" where
  "mint_run E ms [] = (ms, [])"
| "mint_run E ms (op # ops) =
     (let (ms1, r) = mint_apply E ms op; (ms2, rs) = mint_run E ms1 ops in (ms2, r # rs))"

text \<open>The nonce a successful bring-your-own-key mint spent.\<close>

definition spent_nonce :: "mint_op \<Rightarrow> mint_response MintResult \<Rightarrow> string option" where
  "spent_nonce op r =
     (case r of
        Inl e \<Rightarrow> None
      | Inr resp \<Rightarrow>
          if seed_public_key_der (req_seed (op_request op)) = None then None
          else map_option pop_nonce (req_pop (op_request op)))"

definition spent_nonces :: "mint_op list \<Rightarrow> mint_response MintResult list \<Rightarrow> string list" where
  "spent_nonces ops rs = List.map_filter id (map2 spent_nonce ops rs)"

lemma mint_apply_config: "mint_apply E ms op = (ms', r) \<Longrightarrow> same_config ms ms'"
  by (cases op) (auto dest: mint_root_config mint_child_config)

lemma mint_run_config: "mint_run E ms ops = (ms', rs) \<Longrightarrow> same_config ms ms'"
  by (induction ops arbitrary: ms rs) (auto split: prod.splits dest!: mint_apply_config intro: same_config_trans)

lemma mint_apply_spends:
  assumes "mint_apply E ms op = (ms', r)" and "spent_nonce op r = Some n"
  shows "n \<notin> ms_consumed_pop_nonces ms \<and> n \<in> ms_consumed_pop_nonces ms'"
proof -
  from assms(2) obtain resp where r: "r = Inr resp" by (auto simp: spent_nonce_def split: sum.splits)
  show ?thesis
  proof (cases op)
    case (RootOp env request)
    with assms r have "mint_root E env ms request = (ms', Inr resp)" by simp
    then show ?thesis
      using assms(2) RootOp r
      by (cases rule: mint_root_Inr) (auto simp: spent_nonce_def pop_accepted_def)
  next
    case (ChildOp env request po)
    with assms r have "mint_child E env ms request po = (ms', Inr resp)" by simp
    then show ?thesis
    proof (cases rule: mint_child_Inr)
      case (1 parent key pop)
      with issue_child_config [OF 1(6)] assms(2) ChildOp r show ?thesis
        by (auto simp: spent_nonce_def pop_accepted_def same_config_def)
    qed
  qed
qed

lemma spent_nonces_Cons:
  "spent_nonces (op # ops) (r # rs) =
     (case spent_nonce op r of None \<Rightarrow> [] | Some n \<Rightarrow> [n]) @ spent_nonces ops rs"
  by (simp add: spent_nonces_def List.map_filter_simps split: option.splits)

lemma mint_run_spends:
  "mint_run E ms ops = (ms', rs) \<Longrightarrow>
     distinct (spent_nonces ops rs) \<and> set (spent_nonces ops rs) \<inter> ms_consumed_pop_nonces ms = {}"
proof (induction ops arbitrary: ms rs)
  case (Cons op ops)
  obtain ms1 r where app: "mint_apply E ms op = (ms1, r)" by (metis surj_pair)
  obtain rs' where rs: "rs = r # rs'" and run: "mint_run E ms1 ops = (ms', rs')"
    using Cons.prems app by (auto split: prod.splits)
  from Cons.IH [OF run] mint_apply_config [OF app] mint_apply_spends [OF app] show ?case
    by (auto simp: rs spent_nonces_Cons same_config_def split: option.splits)
qed (simp add: spent_nonces_def List.map_filter_simps)

section \<open>The audit trail\<close>

definition success_count :: "mint_response MintResult \<Rightarrow> nat" where
  "success_count r = (case r of Inl e \<Rightarrow> 0 | Inr resp \<Rightarrow> 1)"

lemma success_count_simps [simp]: "success_count (Inl e) = 0" "success_count (Inr resp) = 1"
  by (simp_all add: success_count_def)

lemma audited_memory:
  assumes "audited ms details response = (ms', r)" and "ms_audit_ops ms = ma_record"
  shows "ma_len (ms_audit ms') = ma_len (ms_audit ms) + success_count r"
  using assms by (auto simp: audited_def ma_record_def ma_len_def Let_def)

lemma verify_pop_audit:
  "verify_pop_at_mint E clock ms seed key p = (ms', r) \<Longrightarrow>
     ms_audit ms' = ms_audit ms \<and> ms_audit_ops ms' = ms_audit_ops ms"
  by (drule verify_pop_state) auto

lemma issue_child_audit:
  assumes "issue_child E env ms seed key parent = (ms', r)" and "ms_audit_ops ms = ma_record"
  shows "ma_len (ms_audit ms') = ma_len (ms_audit ms) + success_count r"
proof -
  obtain st i where i: "vi_issue_with_key (ms_issuer_ops ms) (ms_issuer ms) (me_issue env)
      (child_issue_args seed parent) key = (st, i)" by (metis surj_pair)
  show ?thesis
    using assms i
    by (cases i) (auto simp: issue_child_def Let_def split: if_splits dest!: audited_memory)
qed

lemma mint_child_cases:
  assumes "mint_child E env ms request po = (ms', r)"
  obtains (early) "ms' = ms" and "\<exists>e. r = Inl e"
  | (pop) key e where "verify_pop_at_mint E (me_pop_clock env) ms (req_seed request) key (req_pop request) = (ms', Inl e)"
      and "r = Inl e"
  | (issued) key ms1 parent where
      "verify_pop_at_mint E (me_pop_clock env) ms (req_seed request) key (req_pop request) = (ms1, Inr ())"
      and "issue_child E env ms1 (req_seed request) key parent = (ms', r)"
  using assms
  by (auto simp: mint_child_def Let_def split: option.splits sum.splits prod.splits)

lemma mint_child_audit:
  assumes "mint_child E env ms request po = (ms', r)" and "ms_audit_ops ms = ma_record"
  shows "ma_len (ms_audit ms') = ma_len (ms_audit ms) + success_count r"
  using assms(1)
proof (cases rule: mint_child_cases)
  case (pop key e)
  with verify_pop_audit [OF pop(1)] show ?thesis by simp
next
  case (issued key ms1 parent)
  with verify_pop_audit [OF issued(1)] issue_child_audit [OF issued(2)] assms(2) show ?thesis by simp
qed auto

lemma mint_root_audit:
  assumes "mint_root E env ms request = (ms', r)" and "ms_audit_ops ms = ma_record"
  shows "ma_len (ms_audit ms') = ma_len (ms_audit ms) + success_count r"
proof (cases "seed_public_key_der (req_seed request)")
  case None
  with assms show ?thesis
    by (auto simp: mint_root_def Let_def split: sum.splits prod.splits dest!: audited_memory)
next
  case (Some key)
  obtain ms1 p where p: "verify_pop_at_mint E (me_pop_clock env) ms (req_seed request) key (req_pop request) = (ms1, p)"
    by (metis surj_pair)
  with assms Some verify_pop_audit [OF p] show ?thesis
    by (auto simp: mint_root_def Let_def split: sum.splits prod.splits dest!: audited_memory)
qed

lemma mint_run_audit:
  "mint_run E ms ops = (ms', rs) \<Longrightarrow> ms_audit_ops ms = ma_record \<Longrightarrow>
     ma_len (ms_audit ms') = ma_len (ms_audit ms) + sum_list (map success_count rs)"
proof (induction ops arbitrary: ms rs)
  case (Cons op ops)
  obtain ms1 r where app: "mint_apply E ms op = (ms1, r)" by (metis surj_pair)
  obtain rs' where rs: "rs = r # rs'" and run: "mint_run E ms1 ops = (ms', rs')"
    using Cons.prems app by (auto split: prod.splits)
  have "ma_len (ms_audit ms1) = ma_len (ms_audit ms) + success_count r"
    using app Cons.prems(2) by (cases op) (auto dest: mint_root_audit mint_child_audit)
  with Cons.IH [OF run] mint_apply_config [OF app] Cons.prems(2) show ?case
    by (simp add: rs same_config_def)
qed simp

end
