(* ===== verification/Vaid_World.thy ===== *)
theory Vaid_World
  imports Vaid_Mint
begin

text \<open>
  A running reference mint as a state machine.  A state is the service with the rooted documents it
  has handed out, those that go back by delegations to a root mint that claimed no parent.  The
  steps are root mints without a claimed parent, child mints under a rooted document, any other
  root or child mint whatever its outcome, and revocations.  The others include root mints whose seed
  claims a parent, which the mint signs unchecked: such a document and what is delegated under it need
  not verify, so it is not among the rooted ones.  The invariant of the reachable states is that every
  rooted document is authentic, resolved by the issuer as it says of itself, and the end of a chain of
  rooted documents in which each hop is contained; from it follow that every one verifies
  end to end without the issuer, and that the issuer and the offline verifier agree.
\<close>

type_synonym ('s, 'a) reference_mint = "('s reference_issuer, 'a) mint_service"

text \<open>
  Identifiers are random; the premise on \<open>ie_agent_id\<close> is that a drawn identifier is not one of
  a rooted document already handed out.
\<close>

inductive mint_world ::
  "ext \<Rightarrow> ('s, 'a) reference_mint \<Rightarrow> ('s, 'a) reference_mint \<Rightarrow> vaid list \<Rightarrow> bool"
  for E :: ext and ms0 :: "('s, 'a) reference_mint" where
  world_start: "mint_world E ms0 ms0 []"
| world_root: "mint_world E ms0 ms ds \<Longrightarrow> seed_parent_vaid (req_seed request) = None \<Longrightarrow>
     ie_agent_id (me_issue env) \<notin> vaid_id ` set ds \<Longrightarrow>
     mint_root E env ms request = (ms', Inr resp) \<Longrightarrow> mint_world E ms0 ms' (mr_vaid resp # ds)"
| world_child: "mint_world E ms0 ms ds \<Longrightarrow> parent \<in> set ds \<Longrightarrow>
     ie_agent_id (me_issue env) \<notin> vaid_id ` set ds \<Longrightarrow>
     mint_child E env ms request (Some parent) = (ms', Inr resp) \<Longrightarrow> mint_world E ms0 ms' (mr_vaid resp # ds)"
| world_other_root: "mint_world E ms0 ms ds \<Longrightarrow> ie_agent_id (me_issue env) \<notin> vaid_id ` set ds \<Longrightarrow>
     mint_root E env ms request = (ms', r) \<Longrightarrow> mint_world E ms0 ms' ds"
| world_other_child: "mint_world E ms0 ms ds \<Longrightarrow> ie_agent_id (me_issue env) \<notin> vaid_id ` set ds \<Longrightarrow>
     mint_child E env ms request po = (ms', r) \<Longrightarrow> mint_world E ms0 ms' ds"
| world_revoke: "mint_world E ms0 ms ds \<Longrightarrow>
     mint_world E ms0 (ms\<lparr>ms_issuer := issuer_revoke (ms_issuer ms) i\<rparr>) ds"

text \<open>The services the machine starts from: a reference issuer on its default stores.\<close>

definition reference_start :: "ext \<Rightarrow> ('s, 'a) reference_mint \<Rightarrow> bool" where
  "reference_start E ms \<longleftrightarrow>
     ms_issuer_ops ms = reference_issuer_ops E \<and> ri_lineage (ms_issuer ms) = DefaultLineage \<and>
     is_valid_trust_domain (ri_trust_domain (ms_issuer ms)) \<and>
     ms_max_delegation_depth ms < MAX_LINEAGE_DEPTH"

section \<open>How an operation changes the issuer\<close>

text \<open>Either nothing, or one recorded hop of the drawn identifier.\<close>

definition issuer_step :: "issue_env \<Rightarrow> 's reference_issuer \<Rightarrow> 's reference_issuer \<Rightarrow> bool" where
  "issuer_step env iss iss' \<longleftrightarrow>
     iss' = iss \<or> (\<exists>p r. issuer_try_record iss (ie_agent_id env) p = (iss', r))"

lemma issuer_step_refl [simp]: "issuer_step env iss iss"
  by (simp add: issuer_step_def)

lemma build_and_sign_step: "build_and_sign_vaid E iss env a k = (iss', r) \<Longrightarrow> issuer_step env iss iss'"
  by (cases r) (auto simp: issuer_step_def dest: build_and_sign_Inl elim: build_and_sign_Inr)

lemma issue_step:
  "issue_vaid_with_key E iss env a k = (iss', r) \<Longrightarrow> issuer_step env iss iss'"
  "issue_vaid_with_lineage E iss env a = (iss', r) \<Longrightarrow> issuer_step env iss iss'"
  by (auto simp: issue_vaid_with_key_def issue_vaid_with_lineage_def split: option.splits
        dest: build_and_sign_step)

text \<open>The facts about an issuer that a step of the machine keeps.\<close>

lemma issuer_step_keeps:
  assumes "issuer_step env iss iss'" and "ri_lineage iss = DefaultLineage"
  shows "ri_lineage iss' = DefaultLineage" "ri_kernel_key_pair iss' = ri_kernel_key_pair iss"
    "ri_trust_domain iss' = ri_trust_domain iss" "ri_vaid_ttl_hours iss' = ri_vaid_ttl_hours iss"
    "j \<noteq> ie_agent_id env \<Longrightarrow> issuer_resolve_parent iss' j = issuer_resolve_parent iss j"
  using assms
  by (auto simp: issuer_step_def issuer_try_record_def issuer_resolve_parent_def ml_try_record_eq
        ml_resolve_record Let_def)

lemma verify_pop_issuer:
  "verify_pop_at_mint E clock ms seed key p = (ms', r) \<Longrightarrow> ms_issuer ms' = ms_issuer ms"
  by (drule verify_pop_state) auto

lemma audited_issuer: "audited ms details response = (ms', r) \<Longrightarrow> ms_issuer ms' = ms_issuer ms"
  by (drule audited_state) auto

lemma issue_child_step:
  assumes "issue_child E env ms seed key parent = (ms', r)" and "ms_issuer_ops ms = reference_issuer_ops E"
  shows "issuer_step (me_issue env) (ms_issuer ms) (ms_issuer ms')"
  using assms
  by (auto simp: issue_child_def reference_issuer_ops_def Let_def split: prod.splits sum.splits if_splits
        dest!: audited_issuer dest: issue_step)

lemma mint_child_step:
  assumes "mint_child E env ms request po = (ms', r)" and "ms_issuer_ops ms = reference_issuer_ops E"
  shows "issuer_step (me_issue env) (ms_issuer ms) (ms_issuer ms')"
proof -
  have "same_config ms ms1 \<and> ms_issuer ms1 = ms_issuer ms"
    if "verify_pop_at_mint E clock ms seed key p = (ms1, r1)" for clock seed key p ms1 r1
    using that by (auto dest: verify_pop_issuer verify_pop_config)
  with assms show ?thesis
    by (auto simp: mint_child_def Let_def split: option.splits sum.splits prod.splits
          dest!: issue_child_step) (force simp: same_config_def)+
qed

lemma mint_root_step:
  assumes "mint_root E env ms request = (ms', r)" and "ms_issuer_ops ms = reference_issuer_ops E"
  shows "issuer_step (me_issue env) (ms_issuer ms) (ms_issuer ms')"
proof (cases "seed_public_key_der (req_seed request)")
  case None
  with assms show ?thesis
    by (auto simp: mint_root_def reference_issuer_ops_def Let_def split: sum.splits prod.splits
          dest!: audited_issuer dest: issue_step)
next
  case (Some key)
  obtain ms1 p where p: "verify_pop_at_mint E (me_pop_clock env) ms (req_seed request) key (req_pop request) = (ms1, p)"
    by (metis surj_pair)
  have "ms_issuer ms1 = ms_issuer ms" "ms_issuer_ops ms1 = reference_issuer_ops E"
    using verify_pop_issuer [OF p] verify_pop_config [OF p] assms(2) by (auto simp: same_config_def)
  with assms Some p show ?thesis
    by (auto simp: mint_root_def reference_issuer_ops_def Let_def split: sum.splits prod.splits
          dest!: audited_issuer dest: issue_step)
qed

section \<open>The invariant\<close>

definition good_hop :: "ext \<Rightarrow> vaid \<Rightarrow> vaid \<Rightarrow> bool" where
  "good_hop E p c \<longleftrightarrow> hop_contained E p c \<and> tenant_attenuates p (vd_trust_domain c) (vd_tenant_id c)"

definition good_chain :: "ext \<Rightarrow> nat \<Rightarrow> vaid list \<Rightarrow> vaid \<Rightarrow> vaid list \<Rightarrow> bool" where
  "good_chain E maxd ds d chain \<longleftrightarrow>
     chain \<noteq> [] \<and> last chain = d \<and> set chain \<subseteq> set ds \<and> pinned chain \<and> distinct (map vaid_id chain) \<and>
     length chain \<le> maxd + 1 \<and> successively (good_hop E) chain"

definition good_document :: "ext \<Rightarrow> ('s, 'a) reference_mint \<Rightarrow> vaid list \<Rightarrow> vaid \<Rightarrow> bool" where
  "good_document E ms ds d \<longleftrightarrow>
     verify_vaid_authenticity E (kernel_public_key E (ms_issuer ms)) d \<and>
     resolves_as (issuer_resolve_parent (ms_issuer ms)) d \<and>
     vd_trust_domain d = ri_trust_domain (ms_issuer ms) \<and>
     (\<exists>chain. good_chain E (ms_max_delegation_depth ms) ds d chain)"

definition world_inv :: "ext \<Rightarrow> ('s, 'a) reference_mint \<Rightarrow> vaid list \<Rightarrow> bool" where
  "world_inv E ms ds \<longleftrightarrow>
     reference_start E ms \<and> distinct (map vaid_id ds) \<and> (\<forall>d \<in> set ds. good_document E ms ds d)"

lemma assemble_pinned:
  assumes "pinned chain" and "\<forall>d \<in> set chain. resolves_as r d" and "distinct (map vaid_id chain)"
    and "length chain \<le> MAX_LINEAGE_DEPTH"
  shows "assemble_lineage (last chain) r = Complete (map vaid_id chain)"
proof -
  have lift: "linked nxt ds \<Longrightarrow> \<forall>d \<in> set ds. resolves_as r d \<Longrightarrow> ancestry r nxt (map vaid_id ds)" for nxt ds
    by (induction ds arbitrary: nxt) (auto simp: resolves_as_def split: option.splits)
  define ds where "ds = rev (butlast chain)"
  have chain: "chain = rev ds @ [last chain]" using assms(1) by (simp add: ds_def pinned_def)
  then have "linked (parent_vaid (last chain)) ds" using assms(1) linked_iff_pinned by metis
  moreover have "\<forall>d \<in> set ds. resolves_as r d" using assms(2) chain by (metis Un_iff set_append set_rev)
  ultimately have "ancestry r (parent_vaid (last chain)) (map vaid_id ds)" by (rule lift)
  moreover have "map vaid_id chain = rev (map vaid_id ds) @ [vaid_id (last chain)]"
    by (subst chain) (simp add: rev_map)
  ultimately show ?thesis
    using assms(3,4) unfolding assemble_lineage_iff by (metis length_map)
qed

lemma world_inv_lineage:
  assumes "world_inv E ms ds" and "good_chain E (ms_max_delegation_depth ms) ds d chain"
  shows "assemble_lineage d (issuer_resolve_parent (ms_issuer ms)) = Complete (map vaid_id chain)"
proof -
  have "\<forall>x \<in> set chain. resolves_as (issuer_resolve_parent (ms_issuer ms)) x"
    using assms by (auto simp: world_inv_def good_document_def good_chain_def)
  moreover have "length chain \<le> MAX_LINEAGE_DEPTH"
    using assms by (simp add: world_inv_def reference_start_def good_chain_def)
  ultimately show ?thesis
    using assms(2) assemble_pinned [of chain] by (auto simp: good_chain_def)
qed

lemma world_inv_frame:
  assumes inv: "world_inv E ms ds" and cfg: "same_config ms ms'"
    and step: "issuer_step env (ms_issuer ms) (ms_issuer ms')" and fresh: "ie_agent_id env \<notin> vaid_id ` set ds"
  shows "world_inv E ms' ds"
proof -
  have dl: "ri_lineage (ms_issuer ms) = DefaultLineage" using inv by (simp add: world_inv_def reference_start_def)
  note k = issuer_step_keeps [OF step dl]
  have "resolves_as (issuer_resolve_parent (ms_issuer ms')) d"
    if "d \<in> set ds" "resolves_as (issuer_resolve_parent (ms_issuer ms)) d" for d
    using that k(5) fresh unfolding resolves_as_def by (metis imageI)
  with inv cfg k show ?thesis
    by (auto simp: world_inv_def reference_start_def good_document_def same_config_def kernel_public_key_def)
qed

lemma good_chain_mono: "good_chain E m ds d chain \<Longrightarrow> set ds \<subseteq> set ds' \<Longrightarrow> good_chain E m ds' d chain"
  by (auto simp: good_chain_def)

lemma good_document_mono:
  "good_document E ms ds d \<Longrightarrow> set ds \<subseteq> set ds' \<Longrightarrow> good_document E ms ds' d"
  unfolding good_document_def by (blast intro: good_chain_mono)

lemma world_inv_add:
  "world_inv E ms ds \<Longrightarrow> good_document E ms (d # ds) d \<Longrightarrow> vaid_id d \<notin> vaid_id ` set ds \<Longrightarrow>
     world_inv E ms (d # ds)"
  by (auto simp: world_inv_def intro: good_document_mono)

text \<open>What a successful issuance of the reference issuer hands out.\<close>

lemma built_document:
  assumes "build_and_sign_vaid E iss env a k = (iss', Inr d)" and "ri_lineage iss = DefaultLineage"
    and "ed25519_correct E" and "is_valid_trust_domain (ri_trust_domain iss)"
  shows "verify_vaid_authenticity E (kernel_public_key E iss') d \<and> resolves_as (issuer_resolve_parent iss') d \<and>
     vd_trust_domain d = ri_trust_domain iss' \<and> issued_as a d \<and> vaid_id d = ie_agent_id env"
proof -
  from assms(1) obtain expires where
      d: "d = sign_document E iss (ie_agent_id env) (trunc_secs (ie_clock env)) expires a k"
    and rec: "issuer_try_record iss (ie_agent_id env) (ia_parent_vaid a) = (iss', Inr ())"
    by (rule build_and_sign_Inr)
  have "issuer_ok iss" using assms(2) by (simp add: issuer_ok_def)
  from issuer_try_record_laws(2) [OF this rec]
  have "resolves_as (issuer_resolve_parent iss') d" by (simp add: d resolves_as_def split: option.splits)
  moreover have "kernel_public_key E iss' = kernel_public_key E iss" "ri_trust_domain iss' = ri_trust_domain iss"
    using issuer_try_record_frame [OF rec] by (simp_all add: kernel_public_key_def)
  ultimately show ?thesis
    using sign_document_authentic [OF assms(3,4)] by (simp add: d issued_as_def)
qed

lemma built_key_or_lineage:
  "issue_vaid_with_lineage E iss env a = (iss', Inr d) \<Longrightarrow> \<exists>k. build_and_sign_vaid E iss env a k = (iss', Inr d)"
  by (auto simp: issue_vaid_with_lineage_def split: option.splits)

lemma mint_root_builds:
  assumes "mint_root E env ms request = (ms', Inr resp)" and "ms_issuer_ops ms = reference_issuer_ops E"
  shows "\<exists>k. build_and_sign_vaid E (ms_issuer ms) (me_issue env) (root_issue_args (req_seed request)) k
     = (ms_issuer ms', Inr (mr_vaid resp))"
  using assms(1)
proof (cases rule: mint_root_Inr)
  case (byo key pop st d au)
  with assms(2) show ?thesis by (auto simp: reference_issuer_ops_def issue_vaid_with_key_def)
next
  case (generated st d au)
  then have "issue_vaid_with_lineage E (ms_issuer ms) (me_issue env) (root_issue_args (req_seed request)) = (st, Inr d)"
    using assms(2) by (simp add: reference_issuer_ops_def)
  from built_key_or_lineage [OF this] generated show ?thesis by auto
qed

lemma mint_child_builds:
  assumes "mint_child E env ms request (Some parent) = (ms', Inr resp)" and "ms_issuer_ops ms = reference_issuer_ops E"
  shows "\<exists>k. build_and_sign_vaid E (ms_issuer ms) (me_issue env) (child_issue_args (req_seed request) parent) k
       = (ms_issuer ms', Inr (mr_vaid resp))"
    and "check_delegation E (me_expiry_clock env) ms (req_seed request) parent = Inr ()"
    and "expiry_attenuates E parent (Some (vd_expires_at (mr_vaid resp)))"
proof -
  from assms(1) obtain key and pop :: mint_pop where
    chk: "check_delegation E (me_expiry_clock env) ms (req_seed request) parent = Inr ()"
    and ic: "issue_child E env (ms\<lparr>ms_consumed_pop_nonces := insert (pop_nonce pop) (ms_consumed_pop_nonces ms)\<rparr>)
      (req_seed request) key parent = (ms', Inr resp)"
    by (cases rule: mint_child_Inr) auto
  show "check_delegation E (me_expiry_clock env) ms (req_seed request) parent = Inr ()" by (rule chk)
  from ic assms(2) show "\<exists>k. build_and_sign_vaid E (ms_issuer ms) (me_issue env)
      (child_issue_args (req_seed request) parent) k = (ms_issuer ms', Inr (mr_vaid resp))"
    and "expiry_attenuates E parent (Some (vd_expires_at (mr_vaid resp)))"
    by (cases rule: issue_child_Inr; auto simp: reference_issuer_ops_def issue_vaid_with_key_def)+
qed

lemma good_hop_child:
  assumes chk: "check_delegation E now ms seed parent = Inr ()"
    and doc: "issued_as (child_issue_args seed parent) d"
    and exp: "expiry_attenuates E parent (Some (vd_expires_at d))"
    and td: "vd_trust_domain d = vd_trust_domain parent"
  shows "good_hop E parent d" and "parent_vaid d = Some (vaid_id parent)"
  using assms
  by (auto simp: check_delegation_Inr good_hop_def hop_contained_def tenant_attenuates_def issued_as_def
        child_issue_args_def)

lemma good_chain_root:
  assumes "parent_vaid d = None" shows "good_chain E m (d # ds) d [d]"
  using assms by (simp add: good_chain_def pinned_def)

lemma good_chain_child:
  assumes "good_chain E m ds p chain" and "length chain \<le> m" and "vaid_id d \<notin> vaid_id ` set ds"
    and "parent_vaid d = Some (vaid_id p)" and "good_hop E p d"
  shows "good_chain E m (d # ds) d (chain @ [d])"
proof -
  from assms(1) obtain xs where chain: "chain = xs @ [p]"
    by (metis append_butlast_last_id good_chain_def)
  have "successively (good_hop E) (chain @ [d])"
    using assms(1,5) by (simp add: good_chain_def successively_append_iff)
  moreover have "pinned (chain @ [d])"
    using assms(1,4) by (simp add: chain pinned_snoc good_chain_def)
  ultimately show ?thesis
    using assms(1-3) by (auto simp: good_chain_def)
qed

lemma world_inv_root:
  assumes inv: "world_inv E ms ds" and sig: "ed25519_correct E" and root: "seed_parent_vaid (req_seed request) = None"
    and fresh: "ie_agent_id (me_issue env) \<notin> vaid_id ` set ds"
    and mint: "mint_root E env ms request = (ms', Inr resp)"
  shows "world_inv E ms' (mr_vaid resp # ds)"
proof -
  have st: "reference_start E ms" using inv by (simp add: world_inv_def)
  then have ops: "ms_issuer_ops ms = reference_issuer_ops E" by (simp add: reference_start_def)
  from mint_root_builds [OF mint ops] obtain k where
    b: "build_and_sign_vaid E (ms_issuer ms) (me_issue env) (root_issue_args (req_seed request)) k
      = (ms_issuer ms', Inr (mr_vaid resp))" by blast
  from built_document [OF b _ sig] st have d:
    "verify_vaid_authenticity E (kernel_public_key E (ms_issuer ms')) (mr_vaid resp)"
    "resolves_as (issuer_resolve_parent (ms_issuer ms')) (mr_vaid resp)"
    "vd_trust_domain (mr_vaid resp) = ri_trust_domain (ms_issuer ms')"
    "issued_as (root_issue_args (req_seed request)) (mr_vaid resp)" "vaid_id (mr_vaid resp) = ie_agent_id (me_issue env)"
    by (auto simp: reference_start_def)
  have "parent_vaid (mr_vaid resp) = None" using d(4) root by (simp add: issued_as_def root_issue_args_def)
  then have "good_chain E (ms_max_delegation_depth ms') (mr_vaid resp # ds) (mr_vaid resp) [mr_vaid resp]"
    by (rule good_chain_root)
  with d have "good_document E ms' (mr_vaid resp # ds) (mr_vaid resp)" by (auto simp: good_document_def)
  with d fresh show ?thesis
    using world_inv_frame [OF inv mint_root_config [OF mint] mint_root_step [OF mint ops] fresh]
    by (intro world_inv_add) simp_all
qed

lemma world_inv_child:
  assumes inv: "world_inv E ms ds" and sig: "ed25519_correct E" and p: "parent \<in> set ds"
    and fresh: "ie_agent_id (me_issue env) \<notin> vaid_id ` set ds"
    and mint: "mint_child E env ms request (Some parent) = (ms', Inr resp)"
  shows "world_inv E ms' (mr_vaid resp # ds)"
proof -
  let ?d = "mr_vaid resp"
  have st: "reference_start E ms" using inv by (simp add: world_inv_def)
  then have ops: "ms_issuer_ops ms = reference_issuer_ops E" by (simp add: reference_start_def)
  note bc = mint_child_builds [OF mint ops]
  from bc(1) obtain k where
    b: "build_and_sign_vaid E (ms_issuer ms) (me_issue env) (child_issue_args (req_seed request) parent) k
      = (ms_issuer ms', Inr ?d)" by blast
  from built_document [OF b _ sig] st have d:
    "verify_vaid_authenticity E (kernel_public_key E (ms_issuer ms')) ?d"
    "resolves_as (issuer_resolve_parent (ms_issuer ms')) ?d" "vd_trust_domain ?d = ri_trust_domain (ms_issuer ms')"
    "issued_as (child_issue_args (req_seed request) parent) ?d" "vaid_id ?d = ie_agent_id (me_issue env)"
    by (auto simp: reference_start_def)
  have inv': "world_inv E ms' ds"
    by (rule world_inv_frame [OF inv mint_child_config [OF mint] mint_child_step [OF mint ops] fresh])
  then have td: "vd_trust_domain ?d = vd_trust_domain parent"
    using p d(3) by (auto simp: world_inv_def good_document_def)
  obtain chain where chain: "good_chain E (ms_max_delegation_depth ms) ds parent chain"
    using inv p by (auto simp: world_inv_def good_document_def)
  have "length chain \<le> ms_max_delegation_depth ms"
    using bc(2) world_inv_lineage [OF inv chain] ops chain
    by (auto simp: check_delegation_Inr reference_issuer_ops_def good_chain_def)
  moreover have "ms_max_delegation_depth ms' = ms_max_delegation_depth ms"
    using mint_child_config [OF mint] by (simp add: same_config_def)
  ultimately have "good_chain E (ms_max_delegation_depth ms') (?d # ds) ?d (chain @ [?d])"
    using good_chain_child chain fresh d(5) good_hop_child [OF bc(2) d(4) bc(3) td] by simp
  with d fresh inv' show ?thesis by (intro world_inv_add) (auto simp: good_document_def)
qed

lemma issuer_revoke_keeps [simp]:
  "issuer_resolve_parent (issuer_revoke iss i) = issuer_resolve_parent iss"
  "kernel_public_key E (issuer_revoke iss i) = kernel_public_key E iss"
  "ri_trust_domain (issuer_revoke iss i) = ri_trust_domain iss"
  "ri_lineage (issuer_revoke iss i) = ri_lineage iss"
  "ri_revocation (issuer_revoke iss i) = ri_revocation iss"
  "ri_default_store (issuer_revoke iss i) = rl_revoke (ri_default_store iss) i"
proof -
  show "issuer_resolve_parent (issuer_revoke iss i) = issuer_resolve_parent iss"
    by (rule ext, cases "ri_lineage iss") (simp_all add: issuer_resolve_parent_def issuer_revoke_def)
qed (simp_all add: issuer_revoke_def kernel_public_key_def)

lemma world_inv_revoke:
  "world_inv E ms ds \<Longrightarrow> world_inv E (ms\<lparr>ms_issuer := issuer_revoke (ms_issuer ms) i\<rparr>) ds"
  by (simp add: world_inv_def reference_start_def good_document_def)

lemma world_inv_ops: "world_inv E ms ds \<Longrightarrow> ms_issuer_ops ms = reference_issuer_ops E"
  by (simp add: world_inv_def reference_start_def)

lemma mint_world_inv:
  assumes "mint_world E ms0 ms ds" and "reference_start E ms0" and "ed25519_correct E"
  shows "world_inv E ms ds"
  using assms(1)
proof induction
  case world_start
  then show ?case using assms(2) by (simp add: world_inv_def)
next
  case (world_root ms ds request env ms' resp)
  then show ?case using assms(3) by (intro world_inv_root)
next
  case (world_child ms ds parent env request ms' resp)
  then show ?case using assms(3) by (intro world_inv_child)
next
  case (world_other_root ms ds env request ms' r)
  note inv = world_other_root.IH and mint = world_other_root(3)
  show ?case
    by (rule world_inv_frame [OF inv mint_root_config [OF mint] mint_root_step [OF mint world_inv_ops [OF inv]]
          world_other_root(2)])
next
  case (world_other_child ms ds env request po ms' r)
  note inv = world_other_child.IH and mint = world_other_child(3)
  show ?case
    by (rule world_inv_frame [OF inv mint_child_config [OF mint] mint_child_step [OF mint world_inv_ops [OF inv]]
          world_other_child(2)])
next
  case (world_revoke ms ds i)
  then show ?case by (intro world_inv_revoke)
qed

section \<open>Every rooted document verifies\<close>

lemma pb_new_get:
  assumes "distinct (map vaid_id ds)" and "d \<in> set ds"
  shows "pb_get (pb_new ds) (vaid_id d) = Some d"
proof -
  let ?kvs = "map (\<lambda>d. (vaid_id d, d)) ds"
  have "distinct (map fst ?kvs)" using assms(1) by (simp add: comp_def)
  then show ?thesis
    using assms(2) by (simp add: pb_get_def pb_new_def map_of_collect_distinct image_iff comp_def)
qed

lemma pb_new_documents: "snd ` set (pb_documents (pb_new ds)) \<subseteq> set ds"
  using set_map_collect [of "map (\<lambda>d. (vaid_id d, d)) ds"] by (auto simp: pb_new_def)

lemma authentic_under:
  "verify_vaid_authenticity E pk d \<Longrightarrow> keys (kernel_key_thumbprint E pk) = Some pk \<Longrightarrow> authenticate E keys d"
  by (simp add: authenticate_def authentic_iff)

lemma single_key_resolves: "sk_resolve_key (sk_new E pk) (kernel_key_thumbprint E pk) = Some pk"
  by (simp add: sk_resolve_key_def sk_new_def)

lemma good_hops_ok:
  assumes "successively (good_hop E) chain" and "\<forall>d \<in> set chain. verify_vaid_authenticity E pk d"
  shows "successively (hop_ok E keys atts now) chain"
  using assms(1)
proof (rule successively_mono)
  fix p c assume "p \<in> set chain" "c \<in> set chain" "good_hop E p c"
  with assms(2) show "hop_ok E keys atts now p c" by (auto simp: hop_ok_def good_hop_def authentic_iff)
qed

lemma world_chain_verifies:
  assumes inv: "world_inv E ms ds" and d: "d \<in> set ds" and alive: "\<not> is_expired_at E d now"
    and keys: "keys (kernel_key_thumbprint E (kernel_public_key E (ms_issuer ms))) = Some (kernel_public_key E (ms_issuer ms))"
  shows "verify_chain_at E keys d (pb_new ds) atts now = ChainVerification.Attenuated"
proof -
  let ?pk = "kernel_public_key E (ms_issuer ms)"
  have auth: "\<forall>x \<in> set ds. verify_vaid_authenticity E ?pk x"
    using inv by (simp add: world_inv_def good_document_def)
  obtain chain where chain: "good_chain E (ms_max_delegation_depth ms) ds d chain"
    using inv d by (auto simp: world_inv_def good_document_def)
  have hops: "successively (hop_contained E) chain"
    using chain by (auto simp: good_chain_def good_hop_def elim: successively_mono)
  have "\<forall>x \<in> set (butlast chain). pb_get (pb_new ds) (vaid_id x) = Some x"
    using chain inv by (auto simp: good_chain_def world_inv_def dest: in_set_butlastD intro!: pb_new_get)
  then have pres: "presented_chain d (pb_new ds) chain"
    using chain inv by (simp add: presented_chain_def good_chain_def world_inv_def reference_start_def)
  have ok: "successively (hop_ok E keys atts now) chain"
    using chain auth by (intro good_hops_ok) (auto simp: good_chain_def)
  have "\<forall>x \<in> set (butlast chain). \<not> is_expired_at E x now"
    using chain alive chain_alive [OF hops] by (auto simp: good_chain_def)
  with pres ok show ?thesis
    unfolding verify_chain_at_Attenuated [OF pb_ok_new(1)]
    using auth d pb_new_documents [of ds] keys by (blast intro: authentic_under)
qed

text \<open>The issuer's own verdict, when its store can vouch: unexpired, and nothing above it revoked.\<close>

lemma world_issuer_verdict:
  assumes inv: "world_inv E ms ds" and d: "d \<in> set ds"
    and chain: "good_chain E (ms_max_delegation_depth ms) ds d chain"
    and store: "ri_revocation (ms_issuer ms) = DefaultStore" "rl_state (ri_default_store (ms_issuer ms)) = Some revoked"
  shows "issuer_verify_vaid E (ms_issuer ms) now d \<longleftrightarrow>
     \<not> is_expired_at E d now \<and> revoked \<inter> vaid_id ` set chain = {}"
proof -
  have "verify_vaid_authenticity E (kernel_public_key E (ms_issuer ms)) d"
    using inv d by (simp add: world_inv_def good_document_def)
  moreover have "revocation_status (ms_issuer ms) d = rl_check_lineage (ri_default_store (ms_issuer ms)) (map vaid_id chain)"
    using world_inv_lineage [OF inv chain] store by (simp add: revocation_status_def issuer_check_lineage_def)
  ultimately show ?thesis
    using store(2) rl_check_iff [of "ri_default_store (ms_issuer ms)" "map vaid_id chain"]
    by (auto simp: issuer_verify_vaid_def authentic_iff split: RevocationStatus.splits)
qed

section \<open>The documents of the program are well formed\<close>

text \<open>
  Where documents come from: read from text or from a value, answered by a mint with the
  reference issuer in any state it can be in, and either of these with another signature.  The scope
  entries of a request are values of \<^verbatim>\<open>ScopeBoundaryEntry\<close>, which only its validation constructs.
\<close>

inductive program_document :: "ext \<Rightarrow> ('s, 'a) reference_mint \<Rightarrow> vaid \<Rightarrow> bool"
  for E :: ext and ms0 :: "('s, 'a) reference_mint" where
  document_from_str: "vaid_from_str E text = Some d \<Longrightarrow> program_document E ms0 d"
| document_from_value: "de_vaid E v = Some d \<Longrightarrow> program_document E ms0 d"
| document_minted: "same_config ms0 ms \<Longrightarrow> mint_apply E ms op = (ms', Inr resp) \<Longrightarrow>
     list_all entry_ok (seed_scope_boundary (req_seed (op_request op))) \<Longrightarrow> program_document E ms0 (mr_vaid resp)"
| document_resigned: "program_document E ms0 d \<Longrightarrow> program_document E ms0 (with_kernel_signature d sig)"

lemma built_ok:
  assumes "build_and_sign_vaid E iss env a k = (iss', Inr d)" and "uuid_text_ok E" and "list_all entry_ok (ia_scope_boundary a)"
  shows "vaid_ok E d"
  using assms(1) by (rule build_and_sign_Inr) (simp add: sign_document_ok [OF assms(2,3)])

lemma minted_ok:
  assumes mint: "mint_apply E ms op = (ms', Inr resp)" and ops: "ms_issuer_ops ms = reference_issuer_ops E"
    and uuid: "uuid_text_ok E" and scope: "list_all entry_ok (seed_scope_boundary (req_seed (op_request op)))"
  shows "vaid_ok E (mr_vaid resp)"
proof (cases op)
  case (RootOp env request)
  with mint have "mint_root E env ms request = (ms', Inr resp)" by simp
  from mint_root_builds [OF this ops] RootOp scope built_ok [OF _ uuid] show ?thesis
    by (fastforce simp: root_issue_args_def)
next
  case (ChildOp env request po)
  with mint obtain parent where "mint_child E env ms request (Some parent) = (ms', Inr resp)"
    by (cases po) (simp_all add: mint_child_def)
  from mint_child_builds(1) [OF this ops] ChildOp scope built_ok [OF _ uuid] show ?thesis
    by (fastforce simp: child_issue_args_def)
qed

lemma program_document_ok:
  assumes "program_document E ms0 d" and "ms_issuer_ops ms0 = reference_issuer_ops E" and "uuid_text_ok E"
  shows "vaid_ok E d"
  using assms(1)
proof induction
  case (document_from_str doc d)
  then show ?case by (auto simp: vaid_from_str_def bind_eq_Some_conv dest: de_vaid_ok)
next
  case (document_minted ms op ms' resp)
  have "ms_issuer_ops ms = reference_issuer_ops E" using document_minted(1) assms(2) by (simp add: same_config_def)
  from minted_ok [OF document_minted(2) this assms(3) document_minted(3)] show ?case .
qed (auto dest: de_vaid_ok)

end
