(* ===== verification/Vaid_Demo.thy ===== *)
theory Vaid_Demo
  imports Vaid_World
begin

text \<open>
  A concrete run of the reference mint over \<open>demo_ext\<close>: a root mint, then a child mint under it
  with a proof of possession.  The equations below compute both operations; they are the inputs
  at which the properties with hypotheses are applied.
\<close>

definition demo_now :: instant where
  "demo_now = 1700000000 * nanos_per_sec"

definition demo_kernel :: keypair where
  "demo_kernel = replicate 32 7"

definition demo_holder :: keypair where
  "demo_holder = replicate 32 9"

definition demo_issuer :: "memory_lineage reference_issuer" where
  "demo_issuer = assuming_nothing_revoked (with_key demo_kernel 1 ''vaid.example'')"

definition demo_service :: "(memory_lineage, memory_audit) reference_mint" where
  "demo_service = \<lparr>ms_issuer_ops = reference_issuer_ops demo_ext, ms_issuer = demo_issuer,
     ms_audit_ops = ma_record, ms_audit = ma_new, ms_authz = permit_all,
     ms_consumed_pop_nonces = {}, ms_max_delegation_depth = 1\<rparr>"

definition demo_root_seed :: vaid_seed where
  "demo_root_seed = \<lparr>seed_agent_class = ''planner'', seed_version = ''1'', seed_tenant_id = ''acme'',
     seed_parent_vaid = None, seed_scope_boundary = [prefix_entry ''data/''],
     seed_capability_set = [''read'', ''write''], seed_public_key_der = None\<rparr>"

definition demo_root_env :: mint_env where
  "demo_root_env = \<lparr>me_pop_clock = demo_now, me_expiry_clock = demo_now,
     me_issue = \<lparr>ie_agent_id = 1, ie_clock = demo_now, ie_agent_pkcs8 = Some [1]\<rparr>\<rparr>"

definition demo_root_request :: mint_request where
  "demo_root_request = \<lparr>req_seed = demo_root_seed, req_pop = None\<rparr>"

definition demo_root :: vaid where
  "demo_root = sign_document demo_ext demo_issuer 1 demo_now (demo_now + 3600 * nanos_per_sec)
     (root_issue_args demo_root_seed) (ext_public_key demo_ext [1])"

definition demo_service1 :: "(memory_lineage, memory_audit) reference_mint" where
  "demo_service1 = demo_service
     \<lparr>ms_issuer := demo_issuer\<lparr>ri_default_lineage := \<lparr>ml_entries = [(1, None)]\<rparr>\<rparr>,
      ms_audit := \<lparr>ma_entries = [\<lparr>ae_event_type = ''vaid_minted'',
        ae_details = root_audit_details demo_ext demo_root_seed False\<rparr>]\<rparr>\<rparr>"

lemma demo_range: "e6_range (demo_now + k * nanos_per_sec)" if "0 \<le> k" "k \<le> 1000000000"
  using that by (simp add: e6_range_def demo_now_def nanos_per_sec_def)

lemma demo_trunc [simp]: "trunc_secs (demo_now + k * nanos_per_sec) = demo_now + k * nanos_per_sec"
  "trunc_secs demo_now = demo_now"
  by (simp_all add: demo_now_def trunc_secs_def nanos_per_sec_def flip: distrib_right)

lemma demo_trust_domain: "is_valid_trust_domain ''vaid.example''"
  by code_simp

lemma demo_mint_root:
  "mint_root demo_ext demo_root_env demo_service demo_root_request =
     (demo_service1, Inr \<lparr>mr_vaid = demo_root, mr_expiry_bounded_by_parent = False, mr_parent_expires_at = None\<rparr>)"
  by (simp add: mint_root_def demo_root_env_def demo_service_def demo_root_request_def demo_service1_def
        demo_root_def demo_root_seed_def permit_all_def reference_issuer_ops_def issue_vaid_with_lineage_def
        build_and_sign_vaid_def whole_second_now_def clamp_expiry_def root_issue_args_def audited_def
        ma_record_def ma_new_def issuer_try_record_def demo_issuer_def with_key_def assuming_nothing_revoked_def
        ml_try_record_eq ml_record_def ml_new_def demo_ext_def Let_def)

lemma demo_built:
  "build_and_sign_vaid demo_ext demo_issuer (me_issue demo_root_env) (root_issue_args demo_root_seed)
     (ext_public_key demo_ext [1]) = (ms_issuer demo_service1, Inr demo_root)"
  by (simp add: demo_root_env_def demo_service1_def demo_root_def demo_root_seed_def build_and_sign_vaid_def
        whole_second_now_def clamp_expiry_def root_issue_args_def issuer_try_record_def demo_issuer_def
        with_key_def assuming_nothing_revoked_def ml_try_record_eq ml_record_def ml_new_def Let_def)

section \<open>A delegation\<close>

definition demo_child_seed :: vaid_seed where
  "demo_child_seed = \<lparr>seed_agent_class = ''worker'', seed_version = ''1'', seed_tenant_id = ''acme'',
     seed_parent_vaid = Some 1, seed_scope_boundary = [prefix_entry ''data/a''],
     seed_capability_set = [''read''], seed_public_key_der = Some (ext_public_key demo_ext demo_holder)\<rparr>"

definition demo_child_payload :: mint_pop_payload where
  "demo_child_payload = pop_payload_of demo_child_seed (ext_public_key demo_ext demo_holder) ''n1'' demo_now"

definition demo_child_request :: mint_request where
  "demo_child_request = \<lparr>req_seed = demo_child_seed,
     req_pop = Some \<lparr>pop_nonce = ''n1'', pop_issued_at = demo_now,
       pop_signature = sign_payload demo_ext (ser_pop_payload demo_ext demo_child_payload) demo_holder\<rparr>\<rparr>"

definition demo_child_env :: mint_env where
  "demo_child_env = \<lparr>me_pop_clock = demo_now + 60 * nanos_per_sec, me_expiry_clock = demo_now + 60 * nanos_per_sec,
     me_issue = \<lparr>ie_agent_id = 2, ie_clock = demo_now + 60 * nanos_per_sec, ie_agent_pkcs8 = None\<rparr>\<rparr>"

text \<open>The issuer's own hour would end a minute after the parent: the child is cut to the parent's expiry.\<close>

definition demo_child :: vaid where
  "demo_child = sign_document demo_ext (ms_issuer demo_service1) 2 (demo_now + 60 * nanos_per_sec)
     (demo_now + 3600 * nanos_per_sec) (child_issue_args demo_child_seed demo_root)
     (ext_public_key demo_ext demo_holder)"

definition demo_service2 :: "(memory_lineage, memory_audit) reference_mint" where
  "demo_service2 = demo_service1
     \<lparr>ms_consumed_pop_nonces := {''n1''},
      ms_issuer := demo_issuer\<lparr>ri_default_lineage := \<lparr>ml_entries = [(1, None), (2, Some 1)]\<rparr>\<rparr>,
      ms_audit := \<lparr>ma_entries = ma_entries (ms_audit demo_service1) @ [\<lparr>ae_event_type = ''vaid_minted'',
        ae_details = child_audit_details demo_ext demo_child_seed demo_root demo_child True\<rparr>]\<rparr>\<rparr>"

lemma demo_parse_expiry:
  "0 \<le> k \<Longrightarrow> k \<le> 1000000000 \<Longrightarrow>
     parse_rfc3339 demo_ext (format_e6 demo_ext (demo_now + k * nanos_per_sec)) = Some (demo_now + k * nanos_per_sec)"
  using parse_format_e6 [OF demo_rfc3339_ok demo_range] by simp

lemma demo_root_facts [simp]:
  "vaid_id demo_root = 1" "parent_vaid demo_root = None" "vd_tenant_id demo_root = ''acme''"
  "vd_scope_boundary demo_root = [prefix_entry ''data/'']" "vd_capability_set demo_root = [''read'', ''write'']"
  "vd_expires_at demo_root = format_e6 demo_ext (demo_now + 3600 * nanos_per_sec)"
  "vd_trust_domain demo_root = ''vaid.example''"
  by (simp_all add: demo_root_def root_issue_args_def demo_root_seed_def demo_issuer_def with_key_def
        assuming_nothing_revoked_def)

lemma demo_child_facts [simp]:
  "vaid_id demo_child = 2" "parent_vaid demo_child = Some 1" "vd_tenant_id demo_child = ''acme''"
  "vd_scope_boundary demo_child = [prefix_entry ''data/a'']" "vd_capability_set demo_child = [''read'']"
  "vd_expires_at demo_child = format_e6 demo_ext (demo_now + 3600 * nanos_per_sec)"
  "vd_trust_domain demo_child = ''vaid.example''"
  by (simp_all add: demo_child_def child_issue_args_def demo_child_seed_def demo_service1_def demo_issuer_def
        with_key_def assuming_nothing_revoked_def demo_service_def)

lemma demo_scope: "scope_attenuates demo_root [prefix_entry ''data/a'']"
  unfolding scope_attenuates_def by simp code_simp

lemma demo_check: "check_delegation demo_ext (demo_now + 60 * nanos_per_sec) demo_service1 demo_child_seed demo_root = Inr ()"
proof -
  have "\<not> is_expired_at demo_ext demo_root (demo_now + 60 * nanos_per_sec)"
    by (simp add: is_expired_at_def expires_at_def demo_parse_expiry) (simp add: nanos_per_sec_def)
  then show ?thesis
    using demo_scope
    by (simp add: check_delegation_Inr assemble_root demo_child_seed_def caps_attenuate_def
          caps_attenuate_within_iff)
       (simp add: demo_service1_def demo_service_def)
qed

lemma demo_pop:
  "verify_pop_at_mint demo_ext (demo_now + 60 * nanos_per_sec) demo_service1 demo_child_seed
     (ext_public_key demo_ext demo_holder) (req_pop demo_child_request) =
     (demo_service1\<lparr>ms_consumed_pop_nonces := {''n1''}\<rparr>, Inr ())"
proof -
  have "pop_accepted demo_ext (demo_now + 60 * nanos_per_sec) demo_child_seed (ext_public_key demo_ext demo_holder)
      (the (req_pop demo_child_request)) {}"
    using mint_possession.signed_verifies [OF demo_ed25519_correct, of demo_child_payload demo_holder]
    by (simp add: pop_accepted_def demo_child_request_def pop_skew_def num_seconds_def nanos_per_sec_def
          demo_child_payload_def)
  moreover have "ms_consumed_pop_nonces demo_service1 = {}"
    by (simp add: demo_service1_def demo_service_def)
  ultimately show ?thesis
    unfolding verify_pop_Inr by (intro exI [of _ "the (req_pop demo_child_request)"]) (simp add: demo_child_request_def)
qed

lemma demo_issue:
  "issue_vaid_with_key demo_ext (ms_issuer demo_service1) (me_issue demo_child_env)
     (child_issue_args demo_child_seed demo_root) (ext_public_key demo_ext demo_holder) =
     (ms_issuer demo_service2, Inr demo_child)"
proof -
  have "clamp_expiry demo_ext (Some (vd_expires_at demo_root)) (3660 * nanos_per_sec + demo_now) =
      Inr (demo_now + 3600 * nanos_per_sec)"
    by (simp add: clamp_expiry_def demo_parse_expiry) (simp add: nanos_per_sec_def)
  then show ?thesis
    by (simp add: issue_vaid_with_key_def build_and_sign_vaid_def demo_child_env_def whole_second_now_def
          child_issue_args_def demo_child_seed_def demo_service1_def demo_service2_def demo_child_def
          demo_issuer_def with_key_def assuming_nothing_revoked_def issuer_try_record_def ml_try_record_eq
          ml_record_def Let_def)
qed

lemma demo_mint_child:
  "mint_child demo_ext demo_child_env demo_service1 demo_child_request (Some demo_root) =
     (demo_service2, Inr \<lparr>mr_vaid = demo_child, mr_expiry_bounded_by_parent = True,
        mr_parent_expires_at = Some (vd_expires_at demo_root)\<rparr>)"
proof -
  have "expiry_attenuates demo_ext demo_root (Some (vd_expires_at demo_child))"
    by (simp add: expiry_attenuates_def expiry_attenuates_within_iff demo_parse_expiry)
  then have "issue_child demo_ext demo_child_env (demo_service1\<lparr>ms_consumed_pop_nonces := {''n1''}\<rparr>) demo_child_seed
      (ext_public_key demo_ext demo_holder) demo_root = (demo_service2, Inr \<lparr>mr_vaid = demo_child,
        mr_expiry_bounded_by_parent = True, mr_parent_expires_at = Some (vd_expires_at demo_root)\<rparr>)"
    using demo_issue
    by (simp add: issue_child_def Let_def)
       (simp add: demo_service1_def demo_service2_def demo_service_def reference_issuer_ops_def ma_record_def
          audited_def Let_def)
  moreover have "req_seed demo_child_request = demo_child_seed"
    and "seed_public_key_der demo_child_seed = Some (ext_public_key demo_ext demo_holder)"
    and "me_pop_clock demo_child_env = demo_now + 60 * nanos_per_sec"
    and "me_expiry_clock demo_child_env = demo_now + 60 * nanos_per_sec"
    by (simp_all add: demo_child_request_def demo_child_seed_def demo_child_env_def)
  ultimately show ?thesis
    using demo_check demo_pop by (simp add: mint_child_def)
qed

section \<open>The run as a world\<close>

lemma demo_start: "reference_start demo_ext demo_service"
  using demo_trust_domain
  by (simp add: reference_start_def demo_service_def demo_issuer_def assuming_nothing_revoked_def with_key_def
        MAX_LINEAGE_DEPTH_def)

lemma demo_world: "mint_world demo_ext demo_service demo_service2 [demo_child, demo_root]"
proof -
  have "mint_world demo_ext demo_service demo_service1 [demo_root]"
    using world_root [OF world_start _ _ demo_mint_root]
    by (simp add: demo_root_request_def demo_root_seed_def)
  from world_child [OF this _ _ demo_mint_child] show ?thesis
    by (simp add: demo_child_env_def)
qed

lemma demo_child_alive: "\<not> is_expired_at demo_ext demo_child (demo_now + 60 * nanos_per_sec)"
  by (simp add: is_expired_at_def expires_at_def demo_parse_expiry) (simp add: nanos_per_sec_def)

lemma demo_world_inv: "world_inv demo_ext demo_service2 [demo_child, demo_root]"
  by (rule mint_world_inv [OF demo_world demo_start demo_ed25519_correct])

lemma demo_chain_verifies:
  "verify_chain_at demo_ext (sk_resolve_key (sk_new demo_ext (kernel_public_key demo_ext (ms_issuer demo_service2))))
     demo_child (pb_new [demo_child, demo_root]) ab_empty (demo_now + 60 * nanos_per_sec) = ChainVerification.Attenuated"
  using demo_child_alive
  by (intro world_chain_verifies [OF demo_world_inv] single_key_resolves) simp_all

section \<open>A delegation across two kernel keys\<close>

definition demo_partner :: "memory_lineage reference_issuer" where
  "demo_partner = with_key (replicate 32 8) 1 ''partner.example''"

definition demo_partner_args :: issue_args where
  "demo_partner_args = \<lparr>ia_agent_class = ''worker'', ia_version = ''1'', ia_tenant_id = ''beta'',
     ia_parent_vaid = Some 1, ia_scope_boundary = [prefix_entry ''data/a''], ia_capability_set = [''read''],
     ia_not_after = None\<rparr>"

definition demo_partner_child :: vaid where
  "demo_partner_child = sign_document demo_ext demo_partner 5 demo_now (demo_now + 1800 * nanos_per_sec)
     demo_partner_args (ext_public_key demo_ext demo_holder)"

definition demo_consent :: consent_attestation where
  "demo_consent = attest_delegation demo_ext demo_issuer demo_now 1 5 ''partner.example'' ''beta''
     (demo_now + 600 * nanos_per_sec) [prefix_entry ''data/''] [''read'']"

definition demo_keys :: resolve_key where
  "demo_keys = km_resolve_key (km_new demo_ext
     [kernel_public_key demo_ext demo_issuer, kernel_public_key demo_ext demo_partner])"

lemma bytes_of_string_of_bytes: "bytes_of_string (string_of_bytes bs) = bs"
proof -
  have "word_of_nat (of_char (char_of (unat b) :: char)) = b" for b :: u8
    using unat_u8_lt [of b] by (simp add: of_char_of)
  then show ?thesis by (simp add: bytes_of_string_def string_of_bytes_def comp_def)
qed

lemma string_of_bytes_eq: "string_of_bytes a = string_of_bytes b \<longleftrightarrow> a = b"
  by (metis bytes_of_string_of_bytes)

lemma demo_thumbprint_inj:
  "kernel_key_thumbprint demo_ext a = kernel_key_thumbprint demo_ext b \<longleftrightarrow> a = b"
proof
  assume "kernel_key_thumbprint demo_ext a = kernel_key_thumbprint demo_ext b"
  then have "demo_jcs (JObject [(''crv'', JString ''Ed25519''), (''kty'', JString ''OKP''), (''x'', JString (string_of_bytes a))]) =
      demo_jcs (JObject [(''crv'', JString ''Ed25519''), (''kty'', JString ''OKP''), (''x'', JString (string_of_bytes b))])"
    by (simp add: kernel_key_thumbprint_def demo_ext_def map_collect_def string_of_bytes_eq Let_def)
  then have "bytes_of_string (string_of_bytes a) = bytes_of_string (string_of_bytes b)" by simp
  then show "a = b" by (simp add: bytes_of_string_of_bytes)
qed simp

lemma demo_keys_differ: "kernel_public_key demo_ext demo_issuer \<noteq> kernel_public_key demo_ext demo_partner"
  by (simp add: kernel_public_key_def demo_issuer_def demo_partner_def assuming_nothing_revoked_def with_key_def
        demo_kernel_def demo_ext_def replicate_eq_replicate)

lemma demo_keys_resolve:
  "demo_keys (kernel_key_thumbprint demo_ext (kernel_public_key demo_ext demo_issuer)) = Some (kernel_public_key demo_ext demo_issuer)"
  "demo_keys (kernel_key_thumbprint demo_ext (kernel_public_key demo_ext demo_partner)) = Some (kernel_public_key demo_ext demo_partner)"
  using demo_keys_differ
  by (simp_all add: demo_keys_def km_resolve_key_def km_new_def map_of_collect_distinct demo_thumbprint_inj)

lemma demo_partner_facts [simp]:
  "vaid_id demo_partner_child = 5" "parent_vaid demo_partner_child = Some 1"
  "vd_tenant_id demo_partner_child = ''beta''" "vd_trust_domain demo_partner_child = ''partner.example''"
  "vd_scope_boundary demo_partner_child = [prefix_entry ''data/a'']" "vd_capability_set demo_partner_child = [''read'']"
  "vd_expires_at demo_partner_child = format_e6 demo_ext (demo_now + 1800 * nanos_per_sec)"
  "vd_kernel_key_thumbprint demo_partner_child = kernel_key_thumbprint demo_ext (kernel_public_key demo_ext demo_partner)"
  by (simp_all add: demo_partner_child_def demo_partner_args_def demo_partner_def with_key_def issuer_thumbprint_def)

lemma demo_root_thumbprint [simp]:
  "vd_kernel_key_thumbprint demo_root = kernel_key_thumbprint demo_ext (kernel_public_key demo_ext demo_issuer)"
  by (simp add: demo_root_def issuer_thumbprint_def)

lemma demo_authentic:
  "verify_vaid_authenticity demo_ext (kernel_public_key demo_ext demo_issuer) demo_root"
  "verify_vaid_authenticity demo_ext (kernel_public_key demo_ext demo_partner) demo_partner_child"
proof -
  show "verify_vaid_authenticity demo_ext (kernel_public_key demo_ext demo_issuer) demo_root"
    unfolding demo_root_def using demo_trust_domain
    by (intro sign_document_authentic [OF demo_ed25519_correct])
       (simp add: demo_issuer_def assuming_nothing_revoked_def with_key_def)
  have "is_valid_trust_domain ''partner.example''" by code_simp
  then show "verify_vaid_authenticity demo_ext (kernel_public_key demo_ext demo_partner) demo_partner_child"
    unfolding demo_partner_child_def
    by (intro sign_document_authentic [OF demo_ed25519_correct]) (simp add: demo_partner_def with_key_def)
qed

text \<open>The root of one issuer, the child of another, and the consent of the first.\<close>

lemma demo_consent_facts [simp]:
  "att_kernel_key_thumbprint demo_consent = kernel_key_thumbprint demo_ext (kernel_public_key demo_ext demo_issuer)"
  "att_trust_domain demo_consent = ''vaid.example''" "att_child_trust_domain demo_consent = ''partner.example''"
  "att_child_tenant_id demo_consent = ''beta''" "att_scope_boundary demo_consent = [prefix_entry ''data/'']"
  "att_capability_set demo_consent = [''read'']" "att_hop demo_consent = (1, 5)"
  by (simp_all add: demo_consent_def issuer_thumbprint_def att_hop_def)
     (simp add: demo_issuer_def assuming_nothing_revoked_def with_key_def)

lemma demo_consented:
  "consented demo_ext demo_keys (ab_new [demo_consent]) demo_now demo_root demo_partner_child"
proof -
  have "ab_get (ab_new [demo_consent]) 1 5 = Some demo_consent"
    by (simp add: ab_get_def ab_new_def map_collect_def)
  moreover have "verify_attestation_authenticity demo_ext (kernel_public_key demo_ext demo_issuer) demo_consent"
    unfolding demo_consent_def using demo_trust_domain
    by (intro attest_delegation_authentic [OF demo_ed25519_correct])
       (simp add: demo_issuer_def assuming_nothing_revoked_def with_key_def)
  moreover have "is_current demo_consent demo_now"
    by (simp add: is_current_iff demo_consent_def) (simp add: nanos_per_sec_def)
  moreover have "scope_attenuates_within [prefix_entry ''data/''] [prefix_entry ''data/a'']"
    "scope_attenuates_within [prefix_entry ''data/''] [prefix_entry ''data/'']" by code_simp+
  ultimately show ?thesis
    by (simp add: consented_def demo_keys_resolve scope_attenuates_def caps_attenuate_def caps_attenuate_within_iff)
qed

lemma demo_cross_hop: "hop_ok demo_ext demo_keys (ab_new [demo_consent]) demo_now demo_root demo_partner_child"
proof -
  have "hop_contained demo_ext demo_root demo_partner_child"
    using demo_scope
    by (simp add: hop_contained_def caps_attenuate_def caps_attenuate_within_iff expiry_attenuates_def
          expiry_attenuates_within_iff demo_parse_expiry) (simp add: nanos_per_sec_def)
  then show ?thesis using demo_consented demo_keys_differ by (simp add: hop_ok_def demo_thumbprint_inj)
qed

lemma demo_cross_chain: "presented_chain demo_partner_child (pb_new [demo_root]) [demo_root, demo_partner_child]"
  by (simp add: presented_chain_def pinned_def MAX_LINEAGE_DEPTH_def pb_get_def pb_new_def map_collect_def)

lemma demo_cross_verifies:
  "verify_chain_at demo_ext demo_keys demo_partner_child (pb_new [demo_root]) (ab_new [demo_consent]) demo_now =
     ChainVerification.Attenuated"
proof -
  have "authenticate demo_ext demo_keys demo_root" "authenticate demo_ext demo_keys demo_partner_child"
    using demo_authentic demo_keys_resolve by (simp_all add: authenticate_def)
  moreover have "\<not> is_expired_at demo_ext demo_root demo_now"
    by (simp add: is_expired_at_def expires_at_def demo_parse_expiry) (simp add: nanos_per_sec_def)
  moreover have "snd ` set (pb_documents (pb_new [demo_root])) \<subseteq> {demo_root}"
    using pb_new_documents [of "[demo_root]"] by simp
  ultimately show ?thesis
    unfolding verify_chain_at_Attenuated [OF pb_ok_new(1)]
    using demo_cross_chain demo_cross_hop
    by (intro conjI exI [of _ "[demo_root, demo_partner_child]"]) auto
qed

section \<open>A root mint that claims a parent\<close>

text \<open>A root mint on that service whose seed claims the first document as parent, in another tenant.\<close>

definition demo_claim_request :: mint_request where
  "demo_claim_request = \<lparr>req_seed = demo_root_seed\<lparr>seed_parent_vaid := Some 1, seed_tenant_id := ''other''\<rparr>,
     req_pop = None\<rparr>"

definition demo_claim_env :: mint_env where
  "demo_claim_env = \<lparr>me_pop_clock = demo_now, me_expiry_clock = demo_now,
     me_issue = \<lparr>ie_agent_id = 3, ie_clock = demo_now, ie_agent_pkcs8 = Some [1]\<rparr>\<rparr>"

lemma demo_claim_mint:
  "\<exists>ms' resp. mint_root demo_ext demo_claim_env demo_service1 demo_claim_request = (ms', Inr resp)"
  by (simp add: mint_root_def demo_claim_env_def demo_service_def demo_claim_request_def demo_service1_def
        demo_root_seed_def permit_all_def reference_issuer_ops_def issue_vaid_with_lineage_def
        build_and_sign_vaid_def whole_second_now_def clamp_expiry_def root_issue_args_def audited_def
        ma_record_def ma_new_def issuer_try_record_def demo_issuer_def with_key_def assuming_nothing_revoked_def
        ml_try_record_eq ml_record_def ml_new_def demo_ext_def Let_def)

text \<open>The first document is still rooted after it: what the second mint hands out is not.\<close>

lemma demo_claim_world:
  "mint_root demo_ext demo_claim_env demo_service1 demo_claim_request = (ms', r) \<Longrightarrow>
     mint_world demo_ext demo_service ms' [demo_root]"
proof -
  assume mint: "mint_root demo_ext demo_claim_env demo_service1 demo_claim_request = (ms', r)"
  have "mint_world demo_ext demo_service demo_service1 [demo_root]"
    using world_root [OF world_start _ _ demo_mint_root] by (simp add: demo_root_request_def demo_root_seed_def)
  from world_other_root [OF this _ mint] show ?thesis by (simp add: demo_claim_env_def)
qed

section \<open>A lineage of the greatest length\<close>

definition line_resolver :: lineage_resolver where
  "line_resolver i = (if i = 0 then Root else Parent (i - 1))"

lemma line_ancestry:
  "Suc n < 2 ^ 128 \<Longrightarrow> ancestry line_resolver (Some (word_of_nat n)) (map word_of_nat (rev [0..<Suc n]))"
proof (induction n)
  case (Suc n)
  then have "unat (word_of_nat (Suc n) :: uuid) = Suc n" by (simp add: unat_of_nat del: of_nat_Suc)
  then have "word_of_nat (Suc n) \<noteq> (0 :: uuid)" by (metis nat.simps(3) unat_0)
  with Suc show ?case by (simp add: line_resolver_def)
qed (simp add: line_resolver_def)

lemma line_assemble:
  assumes "vaid_id p = word_of_nat (Suc n)" and "parent_vaid p = Some (word_of_nat n)" and "Suc (Suc n) \<le> MAX_LINEAGE_DEPTH"
  shows "assemble_lineage p line_resolver = Complete (map word_of_nat [0..<Suc (Suc n)])"
proof -
  have b: "Suc n < 2 ^ 128" using assms(3) by (simp add: MAX_LINEAGE_DEPTH_def)
  have "inj_on (word_of_nat :: nat \<Rightarrow> uuid) {..<2 ^ 128}"
    by (rule inj_on_inverseI [of _ unat]) (simp add: unat_of_nat)
  then have "distinct (map (word_of_nat :: nat \<Rightarrow> uuid) [0..<Suc (Suc n)])"
    using b unfolding distinct_map by (auto intro: inj_on_subset simp del: upt_Suc)
  then show ?thesis
    using line_ancestry [OF b] assms
    by (auto simp: assemble_lineage_iff rev_map intro!: exI [of _ "map word_of_nat (rev [0..<Suc n])"])
qed

text \<open>
  A service of the greatest depth, with that lineage in an injected store that is a function, and a parent at
  its end.
\<close>

definition function_lineage :: "lineage_resolver lineage_ops" where
  "function_lineage = \<lparr>lo_resolve_parent = id,
     lo_try_record = (\<lambda>s i p. (s(i := (case p of None \<Rightarrow> Root | Some q \<Rightarrow> Parent q)), Inr ()))\<rparr>"

definition deep_service :: "(lineage_resolver, memory_audit) reference_mint" where
  "deep_service = \<lparr>ms_issuer_ops = reference_issuer_ops demo_ext,
     ms_issuer = (with_key demo_kernel 1 ''vaid.example'')\<lparr>ri_lineage := InjectedLineage function_lineage line_resolver\<rparr>,
     ms_audit_ops = ma_record, ms_audit = ma_new, ms_authz = permit_all,
     ms_consumed_pop_nonces = {}, ms_max_delegation_depth = MAX_LINEAGE_DEPTH\<rparr>"

definition deep_parent :: vaid where
  "deep_parent = demo_root\<lparr>vd_vaid_id := presented_of_uuid demo_ext 1023,
     vd_parent_vaid := Some (Some (presented_of_uuid demo_ext 1022))\<rparr>"

definition deep_request :: mint_request where
  "deep_request =
     (let seed = demo_child_seed\<lparr>seed_parent_vaid := Some 1023\<rparr>;
          payload = pop_payload_of seed (ext_public_key demo_ext demo_holder) ''n1'' demo_now
      in \<lparr>req_seed = seed, req_pop = Some \<lparr>pop_nonce = ''n1'', pop_issued_at = demo_now,
           pop_signature = sign_payload demo_ext (ser_pop_payload demo_ext payload) demo_holder\<rparr>\<rparr>)"

definition deep_env :: mint_env where
  "deep_env = demo_child_env\<lparr>me_issue := (me_issue demo_child_env)\<lparr>ie_agent_id := 5000\<rparr>\<rparr>"

lemma deep_parent_facts [simp]:
  "vaid_id deep_parent = 1023" "parent_vaid deep_parent = Some 1022" "vd_tenant_id deep_parent = ''acme''"
  "vd_scope_boundary deep_parent = [prefix_entry ''data/'']" "vd_capability_set deep_parent = [''read'', ''write'']"
  "vd_expires_at deep_parent = format_e6 demo_ext (demo_now + 3600 * nanos_per_sec)"
  by (simp_all add: deep_parent_def vaid_id_def parent_vaid_def)

lemma deep_seed_facts [simp]:
  "seed_parent_vaid (req_seed deep_request) = Some 1023" "seed_tenant_id (req_seed deep_request) = ''acme''"
  "seed_scope_boundary (req_seed deep_request) = [prefix_entry ''data/a'']" "seed_capability_set (req_seed deep_request) = [''read'']"
  "seed_public_key_der (req_seed deep_request) = Some (ext_public_key demo_ext demo_holder)"
  by (simp_all add: deep_request_def demo_child_seed_def Let_def)

lemma deep_lineage:
  "assemble_lineage deep_parent (issuer_resolve_parent (ms_issuer deep_service)) = Complete (map word_of_nat [0..<1024])"
  "resolves_as (issuer_resolve_parent (ms_issuer deep_service)) deep_parent" "issuer_ok (ms_issuer deep_service)"
proof -
  have r: "issuer_resolve_parent (ms_issuer deep_service) = line_resolver"
    by (rule ext) (simp add: issuer_resolve_parent_def deep_service_def function_lineage_def)
  have "assemble_lineage deep_parent line_resolver = Complete (map word_of_nat [0..<Suc (Suc 1022)])"
    by (intro line_assemble) (simp_all add: MAX_LINEAGE_DEPTH_def)
  then show "assemble_lineage deep_parent (issuer_resolve_parent (ms_issuer deep_service)) = Complete (map word_of_nat [0..<1024])"
    by (simp add: r del: upt_Suc)
  show "resolves_as (issuer_resolve_parent (ms_issuer deep_service)) deep_parent"
    by (simp add: r resolves_as_def line_resolver_def)
  show "issuer_ok (ms_issuer deep_service)"
    by (simp add: issuer_ok_def deep_service_def) (unfold_locales; auto simp: function_lineage_def split: option.splits)
qed

lemma deep_pop:
  "verify_pop_at_mint demo_ext (me_pop_clock deep_env) deep_service (req_seed deep_request) (ext_public_key demo_ext demo_holder)
     (req_pop deep_request) = (deep_service\<lparr>ms_consumed_pop_nonces := {''n1''}\<rparr>, Inr ())"
proof -
  have "pop_accepted demo_ext (me_pop_clock deep_env) (req_seed deep_request) (ext_public_key demo_ext demo_holder)
      (the (req_pop deep_request)) {}"
    using mint_possession.signed_verifies [OF demo_ed25519_correct,
        of "pop_payload_of (req_seed deep_request) (ext_public_key demo_ext demo_holder) ''n1'' demo_now" demo_holder]
    by (simp add: pop_accepted_def deep_request_def deep_env_def demo_child_env_def pop_skew_def num_seconds_def nanos_per_sec_def Let_def)
  moreover have "ms_consumed_pop_nonces deep_service = {}" by (simp add: deep_service_def)
  ultimately show ?thesis
    unfolding verify_pop_Inr by (intro exI [of _ "the (req_pop deep_request)"]) (simp add: deep_request_def Let_def)
qed

lemma deep_issue:
  "\<exists>ms' resp. issue_child demo_ext deep_env (deep_service\<lparr>ms_consumed_pop_nonces := {''n1''}\<rparr>) (req_seed deep_request)
     (ext_public_key demo_ext demo_holder) deep_parent = (ms', Inr resp)"
proof -
  let ?iss = "ms_issuer deep_service" and ?a = "child_issue_args (req_seed deep_request) deep_parent"
  have "clamp_expiry demo_ext (Some (vd_expires_at deep_parent)) (3660 * nanos_per_sec + demo_now) =
      Inr (demo_now + 3600 * nanos_per_sec)"
    by (simp add: clamp_expiry_def demo_parse_expiry) (simp add: nanos_per_sec_def)
  then obtain st where "issue_vaid_with_key demo_ext ?iss (me_issue deep_env) ?a (ext_public_key demo_ext demo_holder) =
      (st, Inr (sign_document demo_ext ?iss 5000 (demo_now + 60 * nanos_per_sec) (demo_now + 3600 * nanos_per_sec) ?a
        (ext_public_key demo_ext demo_holder)))"
    by (simp add: issue_vaid_with_key_def build_and_sign_vaid_def deep_env_def demo_child_env_def whole_second_now_def
          child_issue_args_def deep_service_def with_key_def issuer_try_record_def function_lineage_def Let_def)
  moreover have "expiry_attenuates demo_ext deep_parent (Some (vd_expires_at
      (sign_document demo_ext ?iss 5000 (demo_now + 60 * nanos_per_sec) (demo_now + 3600 * nanos_per_sec) ?a
        (ext_public_key demo_ext demo_holder))))"
    by (simp add: expiry_attenuates_def expiry_attenuates_within_iff demo_parse_expiry)
  ultimately show ?thesis
    by (simp add: issue_child_def Let_def) (simp add: deep_service_def reference_issuer_ops_def ma_record_def audited_def Let_def)
qed

end
