(* ===== verification/Vaid_Client.thy ===== *)
theory Vaid_Client
  imports Vaid_Pop
begin

text \<open>
  The client SDK (\<^verbatim>\<open>crates/vaid-client/src/auth.rs\<close>): the identity read from a minted document,
  the request payload, and the two signers.  The random source and the wall clock are
  arguments.  The headers are proved sufficient: what a verifier rebuilds from them is the
  payload that was signed.
\<close>

datatype PopError = InvalidVaid | Nonce | Signing string

record pop_headers =
  ph_vaid :: string
  ph_timestamp :: string
  ph_nonce :: string
  ph_signature :: string

definition into_pairs :: "pop_headers \<Rightarrow> (string \<times> string) list" where
  "into_pairs h =
     [(HEADER_VAID, ph_vaid h), (HEADER_TIMESTAMP, ph_timestamp h),
      (HEADER_NONCE, ph_nonce h), (HEADER_SIGNATURE, ph_signature h)]"

record pop_identity =
  pi_vaid_header :: string
  pi_vaid_id :: uuid
  pi_tenant_id :: string

text \<open>
  The derived \<^verbatim>\<open>Deserialize\<close> of the private \<^verbatim>\<open>VaidIdentity\<close>: two named members, neither repeated,
  the others ignored; a two-element array is read in field order.
\<close>

definition de_vaid_identity :: "ext \<Rightarrow> json \<Rightarrow> (uuid \<times> string) option" where
  "de_vaid_identity E v = (case v of
      JObject ms \<Rightarrow>
        (if distinct (filter (\<lambda>k. k = ''vaid_id'' \<or> k = ''tenant_id'') (map fst ms))
         then do { i \<leftarrow> map_of ms ''vaid_id''; raw \<leftarrow> as_str i; u \<leftarrow> ext_uuid_parse E raw;
                   t \<leftarrow> map_of ms ''tenant_id''; tenant \<leftarrow> as_str t; Some (u, tenant) }
         else None)
    | JArray [i, t] \<Rightarrow>
        do { raw \<leftarrow> as_str i; u \<leftarrow> ext_uuid_parse E raw; tenant \<leftarrow> as_str t; Some (u, tenant) }
    | _ \<Rightarrow> None)"

definition pop_identity_from_vaid_json :: "ext \<Rightarrow> string \<Rightarrow> PopError + pop_identity" where
  "pop_identity_from_vaid_json E vaid_json =
     (case ext_parse_json E vaid_json \<bind> de_vaid_identity E of
        None \<Rightarrow> Inl InvalidVaid
      | Some (i, tenant) \<Rightarrow>
          Inr \<lparr>pi_vaid_header = ext_base64 E (bytes_of_string vaid_json), pi_vaid_id = i, pi_tenant_id = tenant\<rparr>)"

definition hex_sha256 :: "ext \<Rightarrow> bytes \<Rightarrow> string" where
  "hex_sha256 E body = to_hex (ext_sha256 E body)"

definition request_payload ::
  "ext \<Rightarrow> pop_identity \<Rightarrow> string \<Rightarrow> string \<Rightarrow> bytes \<Rightarrow> instant \<Rightarrow> string \<Rightarrow> request_auth_payload \<times> string" where
  "request_payload E i method path body now nonce =
     (let now = trunc_secs now;
          timestamp = ext_rfc3339_secs E now
      in (\<lparr>rap_vaid_id = pi_vaid_id i, rap_method = ext_to_uppercase E method, rap_path = path,
           rap_body_sha256 = hex_sha256 E body, rap_tenant_id = pi_tenant_id i, rap_timestamp = now,
           rap_client_nonce = nonce\<rparr>, timestamp))"

definition pop_headers_of :: "ext \<Rightarrow> pop_identity \<Rightarrow> string \<Rightarrow> string \<Rightarrow> bytes \<Rightarrow> pop_headers" where
  "pop_headers_of E i timestamp nonce signature =
     \<lparr>ph_vaid = pi_vaid_header i, ph_timestamp = timestamp, ph_nonce = nonce,
      ph_signature = ext_base64 E signature\<rparr>"

record request_signer =
  rs_identity :: pop_identity
  rs_key :: keypair

definition signer_from_vaid_json :: "ext \<Rightarrow> string \<Rightarrow> keypair \<Rightarrow> PopError + request_signer" where
  "signer_from_vaid_json E vaid_json key =
     map_sum id (\<lambda>i. \<lparr>rs_identity = i, rs_key = key\<rparr>) (pop_identity_from_vaid_json E vaid_json)"

definition sign_headers_at ::
  "ext \<Rightarrow> request_signer \<Rightarrow> string \<Rightarrow> string \<Rightarrow> bytes \<Rightarrow> instant \<Rightarrow> string \<Rightarrow> PopError + pop_headers" where
  "sign_headers_at E s method path body now nonce =
     (let (payload, timestamp) = request_payload E (rs_identity s) method path body now nonce;
          signature = sign_payload E (ser_request_auth E payload) (rs_key s)
      in Inr (pop_headers_of E (rs_identity s) timestamp nonce signature))"

text \<open>The random source gives sixteen bytes or fails.\<close>

definition fresh_nonce :: "bytes option \<Rightarrow> PopError + string" where
  "fresh_nonce rng = (case rng of None \<Rightarrow> Inl Nonce | Some bs \<Rightarrow> Inr (to_hex bs))"

definition sign_headers ::
  "ext \<Rightarrow> request_signer \<Rightarrow> bytes option \<Rightarrow> instant \<Rightarrow> string \<Rightarrow> string \<Rightarrow> bytes \<Rightarrow> PopError + pop_headers" where
  "sign_headers E s rng now method path body =
     (case fresh_nonce rng of
        Inl e \<Rightarrow> Inl e
      | Inr nonce \<Rightarrow> sign_headers_at E s method path body now nonce)"

text \<open>The external-custody signer: the port is given the digest and may fail.\<close>

type_synonym signing_port = "bytes \<Rightarrow> string + bytes"

definition port_sign_headers_at ::
  "ext \<Rightarrow> pop_identity \<Rightarrow> signing_port \<Rightarrow> string \<Rightarrow> string \<Rightarrow> bytes \<Rightarrow> instant \<Rightarrow> string \<Rightarrow> PopError + pop_headers" where
  "port_sign_headers_at E i port method path body now nonce =
     (let (payload, timestamp) = request_payload E i method path body now nonce;
          digest = canonical_request_signing_bytes E (ser_request_auth E payload)
      in case port digest of
           Inl e \<Rightarrow> Inl (Signing e)
         | Inr signature \<Rightarrow> Inr (pop_headers_of E i timestamp nonce signature))"

definition port_sign_headers ::
  "ext \<Rightarrow> pop_identity \<Rightarrow> signing_port \<Rightarrow> bytes option \<Rightarrow> instant \<Rightarrow> string \<Rightarrow> string \<Rightarrow> bytes \<Rightarrow>
   PopError + pop_headers" where
  "port_sign_headers E i port rng now method path body =
     (case fresh_nonce rng of
        Inl e \<Rightarrow> Inl e
      | Inr nonce \<Rightarrow> port_sign_headers_at E i port method path body now nonce)"

section \<open>What a verifier rebuilds\<close>

text \<open>
  The payload a conforming verifier reconstructs: the identity from the verified document, the
  request it received, the timestamp and the nonce from the headers.
\<close>

definition rebuilt_payload ::
  "ext \<Rightarrow> uuid \<Rightarrow> string \<Rightarrow> string \<Rightarrow> string \<Rightarrow> bytes \<Rightarrow> pop_headers \<Rightarrow> request_auth_payload option" where
  "rebuilt_payload E vid tenant method path body h =
     map_option (\<lambda>t. \<lparr>rap_vaid_id = vid, rap_method = ext_to_uppercase E method, rap_path = path,
        rap_body_sha256 = hex_sha256 E body, rap_tenant_id = tenant, rap_timestamp = t,
        rap_client_nonce = ph_nonce h\<rparr>) (ext_parse_rfc3339 E (ph_timestamp h))"

lemma e6_range_trunc: "e6_range t \<Longrightarrow> e6_range (trunc_secs t)"
proof -
  assume t: "e6_range t"
  have "trunc_secs (- 62167219200 * nanos_per_sec) \<le> trunc_secs t"
    using t by (intro trunc_secs_mono) (simp add: e6_range_def)
  then show ?thesis
    using t trunc_secs_le [of t] by (simp add: e6_range_def trunc_secs_def nanos_per_sec_def)
qed

lemma rebuilt_from_headers:
  assumes "datetime_json_ok E" and "e6_range now"
    and "request_payload E i method path body now nonce = (payload, timestamp)"
  shows "rebuilt_payload E (pi_vaid_id i) (pi_tenant_id i) method path body
     (pop_headers_of E i timestamp nonce sig) = Some payload"
  using assms e6_range_trunc [OF assms(2)]
  by (auto simp: request_payload_def rebuilt_payload_def pop_headers_of_def datetime_json_ok_def Let_def)

lemma sign_headers_at_verifies:
  assumes "ed25519_correct E" and "datetime_json_ok E" and "e6_range now"
  shows "\<exists>h payload sig.
     sign_headers_at E s method path body now nonce = Inr h \<and>
     rebuilt_payload E (pi_vaid_id (rs_identity s)) (pi_tenant_id (rs_identity s)) method path body h = Some payload \<and>
     ph_signature h = ext_base64 E sig \<and>
     verify_signed_payload E (ser_request_auth E payload) (ext_public_key E (rs_key s)) sig"
proof -
  obtain payload timestamp where
    p: "request_payload E (rs_identity s) method path body now nonce = (payload, timestamp)"
    by (metis surj_pair)
  let ?sig = "sign_payload E (ser_request_auth E payload) (rs_key s)"
  have "sign_headers_at E s method path body now nonce = Inr (pop_headers_of E (rs_identity s) timestamp nonce ?sig)"
    using p by (simp add: sign_headers_at_def)
  moreover have "ph_signature (pop_headers_of E (rs_identity s) timestamp nonce ?sig) = ext_base64 E ?sig"
    by (simp add: pop_headers_of_def)
  ultimately show ?thesis
    using rebuilt_from_headers [OF assms(2,3) p] request_auth.signed_verifies [OF assms(1)] by blast
qed

lemma fresh_nonce_length: "fresh_nonce (Some bs) = Inr n \<Longrightarrow> length n = 2 * length bs"
  by (auto simp: fresh_nonce_def length_to_hex)

section \<open>Properties\<close>

text \<open>
  C31.  What the client signs is what a verifier checks: from the headers of \<^verbatim>\<open>sign_headers_at\<close>, the
  request and the verified document's identity, a verifier rebuilds the signed payload, the
  timestamp included, and the signature in the headers verifies over it under the holder's key.
\<close>

theorem headers_verify:
  assumes "ed25519_correct E" and "datetime_json_ok E" and "e6_range now"
  shows "\<exists>h payload sig.
     sign_headers_at E s method path body now nonce = Inr h \<and> ph_nonce h = nonce \<and>
     rebuilt_payload E (pi_vaid_id (rs_identity s)) (pi_tenant_id (rs_identity s)) method path body h = Some payload \<and>
     rap_timestamp payload = trunc_secs now \<and> ph_signature h = ext_base64 E sig \<and>
     verify_signed_payload E (ser_request_auth E payload) (ext_public_key E (rs_key s)) sig"
proof -
  from sign_headers_at_verifies [OF assms] obtain h payload sig where
    h: "sign_headers_at E s method path body now nonce = Inr h"
    and p: "rebuilt_payload E (pi_vaid_id (rs_identity s)) (pi_tenant_id (rs_identity s)) method path body h = Some payload"
    and sig: "ph_signature h = ext_base64 E sig"
      "verify_signed_payload E (ser_request_auth E payload) (ext_public_key E (rs_key s)) sig" by blast
  have "ph_nonce h = nonce" "ph_timestamp h = ext_rfc3339_secs E (trunc_secs now)"
    using h by (auto simp: sign_headers_at_def request_payload_def pop_headers_of_def Let_def)
  moreover have "rap_timestamp payload = trunc_secs now"
    using p \<open>ph_timestamp h = ext_rfc3339_secs E (trunc_secs now)\<close> assms(2) e6_range_trunc [OF assms(3)]
    by (auto simp: rebuilt_payload_def datetime_json_ok_def)
  ultimately show ?thesis using h p sig by blast
qed

theorem headers_verify_witness:
  "\<exists>h payload sig.
     sign_headers_at demo_ext \<lparr>rs_identity = \<lparr>pi_vaid_header = ''doc'', pi_vaid_id = 5, pi_tenant_id = ''acme''\<rparr>, rs_key = [1, 2]\<rparr>
       ''post'' ''/a'' [1] (1700000000 * nanos_per_sec + 5) ''n1'' = Inr h \<and>
     ph_signature h = ext_base64 demo_ext sig \<and>
     verify_signed_payload demo_ext (ser_request_auth demo_ext payload) (80 # [1, 2]) sig"
proof -
  have "e6_range (1700000000 * nanos_per_sec + 5)" by (simp add: e6_range_def nanos_per_sec_def)
  from headers_verify [OF demo_ed25519_correct demo_datetime_json_ok this,
      of "\<lparr>rs_identity = \<lparr>pi_vaid_header = ''doc'', pi_vaid_id = 5, pi_tenant_id = ''acme''\<rparr>, rs_key = [1, 2]\<rparr>"
        "''post''" "''/a''" "[1]" "''n1''"]
  obtain h payload sig where
    "sign_headers_at demo_ext \<lparr>rs_identity = \<lparr>pi_vaid_header = ''doc'', pi_vaid_id = 5, pi_tenant_id = ''acme''\<rparr>, rs_key = [1, 2]\<rparr>
       ''post'' ''/a'' [1] (1700000000 * nanos_per_sec + 5) ''n1'' = Inr h"
    "ph_signature h = ext_base64 demo_ext sig"
    "verify_signed_payload demo_ext (ser_request_auth demo_ext payload) (80 # [1, 2]) sig"
    by (auto simp: demo_ext_def)
  then show ?thesis by blast
qed

end
