(* ===== verification/Vaid_Tasks.thy ===== *)
theory Vaid_Tasks
  imports Vaid_Mint
begin

text \<open>
  Concurrent mints.  The two operations of \<^verbatim>\<open>mint.rs\<close> take \<^verbatim>\<open>&self\<close> and may run at the same time on
  one service; what they share is behind locks: the consumed nonces, the issuer's stores, the
  audit sink.  Here each operation is a task that advances by one stage at a time, a stage being
  what happens between two accesses to shared state, and a schedule is any order in which the
  stages of any number of tasks are taken.  Run without interruption a task is the operation of
  \<open>Vaid_Mint\<close>; under every schedule the single use of nonces holds.
\<close>

section \<open>Stages\<close>

datatype mint_task =
    RootStart mint_env mint_request
  | RootProved mint_env mint_request "bytes option"
  | RootIssued mint_request vaid
  | ChildStart mint_env mint_request "vaid option"
  | ChildChecked mint_env mint_request vaid bytes
  | ChildProved mint_env mint_request vaid bytes
  | ChildIssued mint_request vaid vaid
  | Finished mint_request "mint_response MintResult"

text \<open>The stage after an issuance: the issuer's new state, and the document or the refusal.\<close>

definition after_issue ::
  "('i, 'a) mint_service \<Rightarrow> mint_request \<Rightarrow> (vaid \<Rightarrow> mint_task) \<Rightarrow> 'i \<times> vaid MintResult \<Rightarrow>
   ('i, 'a) mint_service \<times> mint_task" where
  "after_issue ms request next issued =
     (ms\<lparr>ms_issuer := fst issued\<rparr>,
      case snd issued of Inl e \<Rightarrow> Finished request (Inl e) | Inr d \<Rightarrow> next d)"

text \<open>The stage after a possession check.\<close>

definition after_pop ::
  "mint_request \<Rightarrow> mint_task \<Rightarrow> ('i, 'a) mint_service \<times> unit MintResult \<Rightarrow> ('i, 'a) mint_service \<times> mint_task" where
  "after_pop request next checked =
     (fst checked, case snd checked of Inl e \<Rightarrow> Finished request (Inl e) | Inr _ \<Rightarrow> next)"

fun task_step :: "ext \<Rightarrow> ('i, 'a) mint_service \<Rightarrow> mint_task \<Rightarrow> ('i, 'a) mint_service \<times> mint_task" where
  "task_step E ms (RootStart env request) =
     (let seed = req_seed request in
      case ms_authz ms seed of
        Inl e \<Rightarrow> (ms, Finished request (Inl e))
      | Inr _ \<Rightarrow>
          (case seed_public_key_der seed of
             None \<Rightarrow> (ms, RootProved env request None)
           | Some key \<Rightarrow> after_pop request (RootProved env request (Some key))
               (verify_pop_at_mint E (me_pop_clock env) ms seed key (req_pop request))))"
| "task_step E ms (RootProved env request key_opt) =
     after_issue ms request (RootIssued request)
       (case key_opt of
          Some key \<Rightarrow> vi_issue_with_key (ms_issuer_ops ms) (ms_issuer ms) (me_issue env)
            (root_issue_args (req_seed request)) key
        | None \<Rightarrow> vi_issue_with_lineage (ms_issuer_ops ms) (ms_issuer ms) (me_issue env)
            (root_issue_args (req_seed request)))"
| "task_step E ms (RootIssued request d) =
     (let (ms', r) = audited ms (root_audit_details E (req_seed request) (seed_public_key_der (req_seed request) \<noteq> None))
            \<lparr>mr_vaid = d, mr_expiry_bounded_by_parent = False, mr_parent_expires_at = None\<rparr>
      in (ms', Finished request r))"
| "task_step E ms (ChildStart env request parent_opt) =
     (case parent_opt of
        None \<Rightarrow> (ms, Finished request (Inl (Unauthorized NoVerifiedParent)))
      | Some parent \<Rightarrow>
          (case check_delegation E (me_expiry_clock env) ms (req_seed request) parent of
             Inl e \<Rightarrow> (ms, Finished request (Inl e))
           | Inr _ \<Rightarrow>
               (case seed_public_key_der (req_seed request) of
                  None \<Rightarrow> (ms, Finished request (Inl (Identity ByoKeyRequired)))
                | Some key \<Rightarrow> (ms, ChildChecked env request parent key))))"
| "task_step E ms (ChildChecked env request parent key) =
     after_pop request (ChildProved env request parent key)
       (verify_pop_at_mint E (me_pop_clock env) ms (req_seed request) key (req_pop request))"
| "task_step E ms (ChildProved env request parent key) =
     after_issue ms request (ChildIssued request parent)
       (vi_issue_with_key (ms_issuer_ops ms) (ms_issuer ms) (me_issue env)
          (child_issue_args (req_seed request) parent) key)"
| "task_step E ms (ChildIssued request parent d) =
     (if \<not> expiry_attenuates E parent (Some (vd_expires_at d))
      then (ms, Finished request (Inl (Unauthorized (IssuerIgnoredNotAfter (vd_expires_at d) (vd_expires_at parent)))))
      else
        let bounded = (vd_expires_at d = vd_expires_at parent);
            (ms', r) = audited ms (child_audit_details E (req_seed request) parent d bounded)
              \<lparr>mr_vaid = d, mr_expiry_bounded_by_parent = bounded, mr_parent_expires_at = Some (vd_expires_at parent)\<rparr>
        in (ms', Finished request r))"
| "task_step E ms (Finished request r) = (ms, Finished request r)"

fun start_task :: "mint_op \<Rightarrow> mint_task" where
  "start_task (RootOp env request) = RootStart env request"
| "start_task (ChildOp env request po) = ChildStart env request po"

text \<open>A task run on its own, for a number of stages.\<close>

fun task_run :: "ext \<Rightarrow> nat \<Rightarrow> ('i, 'a) mint_service \<Rightarrow> mint_task \<Rightarrow> ('i, 'a) mint_service \<times> mint_task" where
  "task_run E 0 ms t = (ms, t)"
| "task_run E (Suc n) ms t = (let (ms', t') = task_step E ms t in task_run E n ms' t')"

lemma task_run_Finished [simp]: "task_run E n ms (Finished request r) = (ms, Finished request r)"
  by (induction n) simp_all

text \<open>Four stages suffice, and the result is that of the operation.\<close>

lemma root_task_refines:
  "task_run E 4 ms (RootStart env request) =
     (let (ms', r) = mint_root E env ms request in (ms', Finished request r))"
  by (cases "ms_authz ms (req_seed request)"; cases "seed_public_key_der (req_seed request)")
     (auto simp: numeral_eq_Suc mint_root_def after_issue_def after_pop_def Let_def
        split: prod.splits sum.splits)

lemma child_task_refines:
  "task_run E 4 ms (ChildStart env request po) =
     (let (ms', r) = mint_child E env ms request po in (ms', Finished request r))"
  by (auto simp: numeral_eq_Suc mint_child_def issue_child_def after_issue_def after_pop_def Let_def
        split: prod.splits sum.splits option.splits)

lemma task_refines:
  "task_run E 4 ms (start_task op) = (let (ms', r) = mint_apply E ms op in (ms', Finished (op_request op) r))"
  by (cases op) (simp_all add: root_task_refines child_task_refines del: task_run.simps)

section \<open>Schedules\<close>

definition schedule_step ::
  "ext \<Rightarrow> ('i, 'a) mint_service \<times> mint_task list \<Rightarrow> nat \<Rightarrow> ('i, 'a) mint_service \<times> mint_task list" where
  "schedule_step E s i =
     (let (ms, tasks) = s in
      if i < length tasks
      then (let (ms', t) = task_step E ms (tasks ! i) in (ms', tasks[i := t]))
      else s)"

definition run_schedule ::
  "ext \<Rightarrow> ('i, 'a) mint_service \<Rightarrow> mint_task list \<Rightarrow> nat list \<Rightarrow> ('i, 'a) mint_service \<times> mint_task list" where
  "run_schedule E ms tasks schedule = foldl (schedule_step E) (ms, tasks) schedule"

text \<open>The nonce a task has spent and not been refused since: its proof was accepted.\<close>

definition request_nonce :: "mint_request \<Rightarrow> string option" where
  "request_nonce request =
     (if seed_public_key_der (req_seed request) = None then None else map_option pop_nonce (req_pop request))"

fun held_nonce :: "mint_task \<Rightarrow> string option" where
  "held_nonce (RootProved env request key_opt) = request_nonce request"
| "held_nonce (RootIssued request d) = request_nonce request"
| "held_nonce (ChildProved env request parent key) = request_nonce request"
| "held_nonce (ChildIssued request parent d) = request_nonce request"
| "held_nonce (Finished request (Inr resp)) = request_nonce request"
| "held_nonce _ = None"

text \<open>A task that has passed the start knows its key from its request.\<close>

fun task_ok :: "mint_task \<Rightarrow> bool" where
  "task_ok (RootProved env request key_opt) = (key_opt = seed_public_key_der (req_seed request))"
| "task_ok (ChildChecked env request parent key) = (seed_public_key_der (req_seed request) = Some key)"
| "task_ok (ChildProved env request parent key) = (seed_public_key_der (req_seed request) = Some key)"
| "task_ok _ = True"

text \<open>One stage: the nonces grow, and a nonce that becomes held was not consumed before and is now.\<close>

lemma verify_pop_fresh:
  assumes "verify_pop_at_mint E clock ms seed key p = (ms', Inr ())"
  shows "\<exists>pop. p = Some pop \<and> pop_nonce pop \<notin> ms_consumed_pop_nonces ms \<and>
    ms_consumed_pop_nonces ms' = insert (pop_nonce pop) (ms_consumed_pop_nonces ms)"
  using assms by (auto simp: verify_pop_Inr pop_accepted_def)

lemma verify_pop_grows:
  "verify_pop_at_mint E clock ms seed key p = (ms', r) \<Longrightarrow> ms_consumed_pop_nonces ms \<subseteq> ms_consumed_pop_nonces ms'"
  by (drule verify_pop_state) auto

lemma after_pop_eq:
  "after_pop request next (ms', r) = (ms'', t') \<longleftrightarrow>
     ms'' = ms' \<and> (r = Inr () \<and> t' = next \<or> (\<exists>e. r = Inl e \<and> t' = Finished request (Inl e)))"
  by (cases r) (auto simp: after_pop_def)

lemma task_step_nonces:
  assumes "task_step E ms t = (ms', t')" and "task_ok t"
  shows "task_ok t' \<and> ms_consumed_pop_nonces ms \<subseteq> ms_consumed_pop_nonces ms' \<and>
    (held_nonce t' = None \<or> held_nonce t' = held_nonce t \<or>
     (\<exists>n. held_nonce t' = Some n \<and> n \<notin> ms_consumed_pop_nonces ms \<and> n \<in> ms_consumed_pop_nonces ms'))"
proof (cases t)
  case (RootStart env request)
  show ?thesis
  proof (cases "seed_public_key_der (req_seed request)")
    case None
    with assms RootStart show ?thesis
      by (auto simp: Let_def request_nonce_def split: sum.splits)
  next
    case (Some key)
    obtain ms1 r where p: "verify_pop_at_mint E (me_pop_clock env) ms (req_seed request) key (req_pop request) = (ms1, r)"
      by (metis surj_pair)
    show ?thesis
      using assms RootStart Some p verify_pop_grows [OF p]
      by (auto simp: Let_def after_pop_eq request_nonce_def split: sum.splits dest!: verify_pop_fresh)
  qed
next
  case (ChildChecked env request parent key)
  obtain ms1 r where p: "verify_pop_at_mint E (me_pop_clock env) ms (req_seed request) key (req_pop request) = (ms1, r)"
    by (metis surj_pair)
  show ?thesis
    using assms ChildChecked p verify_pop_grows [OF p]
    by (auto simp: after_pop_eq request_nonce_def dest!: verify_pop_fresh)
next
  case (RootIssued request d)
  with assms show ?thesis
    by (auto simp: Let_def audited_def split: prod.splits sum.splits)
next
  case (ChildIssued request parent d)
  with assms show ?thesis
    by (auto simp: Let_def audited_def split: prod.splits sum.splits if_splits)
qed (use assms in \<open>auto simp: after_issue_def split: option.splits sum.splits\<close>)

section \<open>Nonces under every schedule\<close>

definition nonces_ok :: "string set \<Rightarrow> ('i, 'a) mint_service \<times> mint_task list \<Rightarrow> bool" where
  "nonces_ok before s \<longleftrightarrow>
     before \<subseteq> ms_consumed_pop_nonces (fst s) \<and> list_all task_ok (snd s) \<and>
     (\<forall>i < length (snd s). \<forall>n. held_nonce (snd s ! i) = Some n \<longrightarrow>
        n \<in> ms_consumed_pop_nonces (fst s) - before \<and>
        (\<forall>j < length (snd s). held_nonce (snd s ! j) = Some n \<longrightarrow> j = i))"

lemma nonces_ok_step: "nonces_ok before s \<Longrightarrow> nonces_ok before (schedule_step E s i)"
proof -
  assume inv: "nonces_ok before s"
  obtain ms tasks where s: "s = (ms, tasks)" by force
  show ?thesis
  proof (cases "i < length tasks")
    case True
    obtain ms' t' where step: "task_step E ms (tasks ! i) = (ms', t')" by (metis surj_pair)
    have "task_ok (tasks ! i)" using inv True by (simp add: nonces_ok_def s list_all_length)
    note n = task_step_nonces [OF step this]
    have new: "schedule_step E s i = (ms', tasks[i := t'])"
      using True step by (simp add: schedule_step_def s)
    have idx: "tasks[i := t'] ! k = (if k = i then t' else tasks ! k)" for k
      using True by (metis nth_list_update)
    have "list_all task_ok (tasks[i := t'])"
      using inv n True by (auto simp: nonces_ok_def s list_all_length idx)
    moreover have "n \<in> ms_consumed_pop_nonces ms' - before \<and>
        (\<forall>k < length tasks. held_nonce (tasks[i := t'] ! k) = Some n \<longrightarrow> k = j)"
      if "j < length tasks" "held_nonce (tasks[i := t'] ! j) = Some n" for j n
    proof (cases "held_nonce t' = Some n \<and> held_nonce (tasks ! i) \<noteq> Some n")
      case fresh: True
      then have "n \<notin> ms_consumed_pop_nonces ms" "n \<in> ms_consumed_pop_nonces ms'" using n by auto
      moreover from this(1) have "held_nonce (tasks ! k) \<noteq> Some n" if "k < length tasks" for k
        using inv that by (auto simp: nonces_ok_def s)
      ultimately show ?thesis using inv that by (auto simp: nonces_ok_def s idx split: if_splits)
    next
      case False
      then have "held_nonce (tasks ! k) = Some n" if "k < length tasks" "held_nonce (tasks[i := t'] ! k) = Some n" for k
        using that by (auto simp: idx split: if_splits)
      with inv that n show ?thesis by (auto simp: nonces_ok_def s)
    qed
    ultimately show ?thesis unfolding new using inv n by (auto simp: nonces_ok_def s)
  qed (use inv in \<open>simp add: schedule_step_def s\<close>)
qed

lemma held_distinct:
  assumes "\<forall>i < length tasks. \<forall>n. held_nonce (tasks ! i) = Some n \<longrightarrow>
      (\<forall>j < length tasks. held_nonce (tasks ! j) = Some n \<longrightarrow> j = i)"
  shows "distinct (List.map_filter held_nonce tasks)"
  using assms
proof (induction tasks)
  case (Cons t tasks)
  have "distinct (List.map_filter held_nonce tasks)"
    using Cons.prems by (intro Cons.IH) (metis Suc_inject Suc_less_eq length_Cons nth_Cons_Suc)
  moreover have "n \<notin> set (List.map_filter held_nonce tasks)" if "held_nonce t = Some n" for n
  proof
    assume "n \<in> set (List.map_filter held_nonce tasks)"
    then obtain j where "j < length tasks" "held_nonce (tasks ! j) = Some n"
      by (auto simp: List.map_filter_def in_set_conv_nth)
    with Cons.prems [rule_format, of 0 n "Suc j"] that show False by simp
  qed
  ultimately show ?case by (auto simp: List.map_filter_simps split: option.splits)
qed (simp add: List.map_filter_simps)

lemma run_schedule_nonces:
  "nonces_ok (ms_consumed_pop_nonces ms) (run_schedule E ms (map start_task ops) schedule)"
proof -
  have start: "held_nonce (start_task op) = None" "task_ok (start_task op)" for op by (cases op; simp)+
  have "nonces_ok (ms_consumed_pop_nonces ms) s \<Longrightarrow> nonces_ok (ms_consumed_pop_nonces ms) (foldl (schedule_step E) s is)"
    for s "is" by (induction "is" arbitrary: s) (simp_all add: nonces_ok_step)
  moreover have "nonces_ok (ms_consumed_pop_nonces ms) (ms, map start_task ops)"
    by (simp add: nonces_ok_def start list_all_iff)
  ultimately show ?thesis by (simp add: run_schedule_def)
qed

end
