(* ===== verification/Vaid_Interleaving.thy ===== *)
theory Vaid_Interleaving
  imports Vaid_Tasks Vaid_World
begin

text \<open>
  A reference mint serving many callers at once.  A state is the service, the tasks in progress
  (\<open>Vaid_Tasks\<close>) and the rooted documents that callers have received (see \<open>Vaid_World\<close>); tasks start
  at any time, any of them takes the next stage, and revocations happen in between.  A task carries
  whether it works for a rooted document: a root mint that claims no parent, or a delegation under a
  rooted document; the others, root mints that claim a parent among them, run in between with
  no condition on them.  The invariant is that of
  \<open>Vaid_World\<close> for the documents received, with what each task in progress has already
  established; the checks of a delegation stay good although other stages come between them and
  the issuance.
\<close>

section \<open>The machine\<close>

text \<open>The identifier a task was given, until it is refused.\<close>

fun task_ids :: "mint_task \<Rightarrow> uuid list" where
  "task_ids (RootStart env request) = [ie_agent_id (me_issue env)]"
| "task_ids (RootProved env request key_opt) = [ie_agent_id (me_issue env)]"
| "task_ids (RootIssued request d) = [vaid_id d]"
| "task_ids (ChildStart env request po) = [ie_agent_id (me_issue env)]"
| "task_ids (ChildChecked env request parent key) = [ie_agent_id (me_issue env)]"
| "task_ids (ChildProved env request parent key) = [ie_agent_id (me_issue env)]"
| "task_ids (ChildIssued request parent d) = [vaid_id d]"
| "task_ids (Finished request (Inr resp)) = [vaid_id (mr_vaid resp)]"
| "task_ids (Finished request (Inl e)) = []"

type_synonym marked_task = "bool \<times> mint_task"

definition ids_in_use :: "marked_task list \<Rightarrow> vaid list \<Rightarrow> uuid list" where
  "ids_in_use tasks ds = concat (map (task_ids \<circ> snd) tasks) @ map vaid_id ds"

inductive task_world ::
  "ext \<Rightarrow> ('s, 'a) reference_mint \<Rightarrow> ('s, 'a) reference_mint \<Rightarrow> marked_task list \<Rightarrow> vaid list \<Rightarrow> bool"
  for E :: ext and ms0 :: "('s, 'a) reference_mint" where
  tasks_start: "task_world E ms0 ms0 [] []"
| tasks_root: "task_world E ms0 ms tasks ds \<Longrightarrow> seed_parent_vaid (req_seed request) = None \<Longrightarrow>
     ie_agent_id (me_issue env) \<notin> set (ids_in_use tasks ds) \<Longrightarrow>
     task_world E ms0 ms ((True, RootStart env request) # tasks) ds"
| tasks_child: "task_world E ms0 ms tasks ds \<Longrightarrow> set_option po \<subseteq> set ds \<Longrightarrow>
     ie_agent_id (me_issue env) \<notin> set (ids_in_use tasks ds) \<Longrightarrow>
     task_world E ms0 ms ((True, ChildStart env request po) # tasks) ds"
| tasks_other: "task_world E ms0 ms tasks ds \<Longrightarrow> set (task_ids (start_task op)) \<inter> set (ids_in_use tasks ds) = {} \<Longrightarrow>
     task_world E ms0 ms ((False, start_task op) # tasks) ds"
| tasks_stage: "task_world E ms0 ms (ts @ (m, t) # us) ds \<Longrightarrow> task_step E ms t = (ms', t') \<Longrightarrow>
     task_world E ms0 ms' (ts @ (m, t') # us) ds"
| tasks_received: "task_world E ms0 ms (ts @ (True, Finished request (Inr resp)) # us) ds \<Longrightarrow>
     task_world E ms0 ms (ts @ us) (mr_vaid resp # ds)"
| tasks_done: "task_world E ms0 ms (ts @ (m, Finished request r) # us) ds \<Longrightarrow>
     task_world E ms0 ms (ts @ us) ds"
| tasks_revoke: "task_world E ms0 ms tasks ds \<Longrightarrow>
     task_world E ms0 (ms\<lparr>ms_issuer := issuer_revoke (ms_issuer ms) i\<rparr>) tasks ds"

text \<open>Stages of one task in a row.\<close>

lemma task_world_run:
  "task_world E ms0 ms (ts @ (m, t) # us) ds \<Longrightarrow> task_run E n ms t = (ms', t') \<Longrightarrow>
     task_world E ms0 ms' (ts @ (m, t') # us) ds"
  by (induction n arbitrary: ms t) (auto split: prod.splits intro: tasks_stage)

section \<open>What a task in progress has established\<close>

definition built :: "ext \<Rightarrow> ('s, 'a) reference_mint \<Rightarrow> vaid \<Rightarrow> bool" where
  "built E ms d \<longleftrightarrow>
     verify_vaid_authenticity E (kernel_public_key E (ms_issuer ms)) d \<and>
     resolves_as (issuer_resolve_parent (ms_issuer ms)) d \<and> vd_trust_domain d = ri_trust_domain (ms_issuer ms)"

lemma good_document_built:
  "good_document E ms ds d \<longleftrightarrow> built E ms d \<and> (\<exists>chain. good_chain E (ms_max_delegation_depth ms) ds d chain)"
  by (auto simp: good_document_def built_def)

definition delegable :: "ext \<Rightarrow> nat \<Rightarrow> vaid list \<Rightarrow> vaid_seed \<Rightarrow> vaid \<Rightarrow> bool" where
  "delegable E maxd ds seed parent \<longleftrightarrow>
     parent \<in> set ds \<and> (\<exists>chain. good_chain E maxd ds parent chain \<and> length chain \<le> maxd) \<and>
     vd_tenant_id parent = seed_tenant_id seed \<and> seed_parent_vaid seed = Some (vaid_id parent) \<and>
     scope_attenuates parent (seed_scope_boundary seed) \<and> caps_attenuate parent (seed_capability_set seed)"

fun good_task :: "ext \<Rightarrow> ('s, 'a) reference_mint \<Rightarrow> vaid list \<Rightarrow> mint_task \<Rightarrow> bool" where
  "good_task E ms ds (RootStart env request) = (seed_parent_vaid (req_seed request) = None)"
| "good_task E ms ds (RootProved env request key_opt) = (seed_parent_vaid (req_seed request) = None)"
| "good_task E ms ds (RootIssued request d) = (built E ms d \<and> parent_vaid d = None)"
| "good_task E ms ds (ChildStart env request po) = (set_option po \<subseteq> set ds)"
| "good_task E ms ds (ChildChecked env request parent key) =
     delegable E (ms_max_delegation_depth ms) ds (req_seed request) parent"
| "good_task E ms ds (ChildProved env request parent key) =
     delegable E (ms_max_delegation_depth ms) ds (req_seed request) parent"
| "good_task E ms ds (ChildIssued request parent d) =
     (delegable E (ms_max_delegation_depth ms) ds (req_seed request) parent \<and> built E ms d \<and>
      issued_as (child_issue_args (req_seed request) parent) d)"
| "good_task E ms ds (Finished request (Inr resp)) = good_document E ms (mr_vaid resp # ds) (mr_vaid resp)"
| "good_task E ms ds (Finished request (Inl e)) = True"

definition tasks_inv :: "ext \<Rightarrow> ('s, 'a) reference_mint \<Rightarrow> marked_task list \<Rightarrow> vaid list \<Rightarrow> bool" where
  "tasks_inv E ms tasks ds \<longleftrightarrow>
     world_inv E ms ds \<and> distinct (ids_in_use tasks ds) \<and> (\<forall>(m, t) \<in> set tasks. m \<longrightarrow> good_task E ms ds t)"

section \<open>Other tasks' stages\<close>

lemma built_frame:
  assumes "built E ms d" and "issuer_step env (ms_issuer ms) (ms_issuer ms')"
    and "ri_lineage (ms_issuer ms) = DefaultLineage" and "vaid_id d \<noteq> ie_agent_id env"
  shows "built E ms' d"
  using assms(1,4) issuer_step_keeps [OF assms(2,3)]
  by (simp add: built_def kernel_public_key_def resolves_as_def)

lemma delegable_mono: "delegable E m ds seed p \<Longrightarrow> set ds \<subseteq> set ds' \<Longrightarrow> delegable E m ds' seed p"
  unfolding delegable_def by (blast intro: good_chain_mono)

lemma good_task_frame:
  assumes "good_task E ms ds t" and "same_config ms ms'"
    and "ms_issuer ms' = ms_issuer ms \<or>
      (issuer_step env (ms_issuer ms) (ms_issuer ms') \<and> ie_agent_id env \<notin> set (task_ids t))"
    and "ri_lineage (ms_issuer ms) = DefaultLineage"
  shows "good_task E ms' ds t"
proof -
  have "built E ms' d" if "built E ms d" "vaid_id d \<in> set (task_ids t)" for d
    using assms(3)
  proof
    assume "ms_issuer ms' = ms_issuer ms"
    with that show ?thesis by (simp add: built_def)
  next
    assume step: "issuer_step env (ms_issuer ms) (ms_issuer ms') \<and> ie_agent_id env \<notin> set (task_ids t)"
    with that(2) have "vaid_id d \<noteq> ie_agent_id env" by auto
    with that(1) step show ?thesis by (blast intro: built_frame [OF _ _ assms(4)])
  qed
  with assms(1,2) show ?thesis
    by (cases "(E, ms, ds, t)" rule: good_task.cases) (auto simp: same_config_def good_document_built)
qed

lemma good_task_more: "good_task E ms ds t \<Longrightarrow> good_task E ms (d # ds) t"
  by (cases "(E, ms, ds, t)" rule: good_task.cases)
     (auto intro: delegable_mono good_document_mono)

lemma good_task_revoke: "good_task E ms ds t \<Longrightarrow> good_task E (ms\<lparr>ms_issuer := issuer_revoke (ms_issuer ms) i\<rparr>) ds t"
  by (cases "(E, ms, ds, t)" rule: good_task.cases) (simp_all add: built_def good_document_def)

section \<open>A task's own stage\<close>

lemma after_issue_eq:
  "after_issue ms request next (st, r) = (ms', t') \<longleftrightarrow>
     ms' = ms\<lparr>ms_issuer := st\<rparr> \<and> ((\<exists>d. r = Inr d \<and> t' = next d) \<or> (\<exists>e. r = Inl e \<and> t' = Finished request (Inl e)))"
  by (cases r) (auto simp: after_issue_def)

text \<open>The issuance of a task, with or without a key of its own, at a reference issuer.\<close>

lemma reference_issue:
  assumes "(case key_opt of
        Some key \<Rightarrow> vi_issue_with_key (reference_issuer_ops E) iss env a key
      | None \<Rightarrow> vi_issue_with_lineage (reference_issuer_ops E) iss env a) = (st, r)"
  shows "issuer_step env iss st"
    and "r = Inr d \<Longrightarrow> \<exists>k. build_and_sign_vaid E iss env a k = (st, Inr d)"
    and "r = Inr d \<Longrightarrow> vaid_id d = ie_agent_id env"
proof -
  show "issuer_step env iss st"
    using assms by (auto simp: reference_issuer_ops_def split: option.splits dest: issue_step)
  have b: "\<exists>k. build_and_sign_vaid E iss env a k = (st, Inr d)" if "r = Inr d"
    using assms that
    by (auto simp: reference_issuer_ops_def issue_vaid_with_key_def split: option.splits dest: built_key_or_lineage)
  show "r = Inr d \<Longrightarrow> \<exists>k. build_and_sign_vaid E iss env a k = (st, Inr d)" by (rule b)
  show "r = Inr d \<Longrightarrow> vaid_id d = ie_agent_id env" by (drule b) (auto elim: build_and_sign_Inr)
qed

definition issue_stage ::
  "ext \<Rightarrow> issue_env \<Rightarrow> issue_args \<Rightarrow> mint_request \<Rightarrow> (vaid \<Rightarrow> mint_task) \<Rightarrow>
   ('s, 'a) reference_mint \<Rightarrow> ('s, 'a) reference_mint \<Rightarrow> mint_task \<Rightarrow> bool" where
  "issue_stage E env a request next ms ms' t' \<longleftrightarrow>
     (\<exists>st. ms' = ms\<lparr>ms_issuer := st\<rparr> \<and> issuer_step env (ms_issuer ms) st \<and>
        ((\<exists>e. t' = Finished request (Inl e)) \<or>
         (\<exists>d k. t' = next d \<and> vaid_id d = ie_agent_id env \<and> build_and_sign_vaid E (ms_issuer ms) env a k = (st, Inr d))))"

lemma issue_stages:
  assumes "ms_issuer_ops ms = reference_issuer_ops E"
  shows "task_step E ms (RootProved env request key_opt) = (ms', t') \<Longrightarrow>
      issue_stage E (me_issue env) (root_issue_args (req_seed request)) request (RootIssued request) ms ms' t'"
    and "task_step E ms (ChildProved env request parent key) = (ms', t') \<Longrightarrow>
      issue_stage E (me_issue env) (child_issue_args (req_seed request) parent) request (ChildIssued request parent) ms ms' t'"
proof -
  have stage: "issue_stage E env' a request next ms ms' t'"
    if "after_issue ms request next (case ko of
        Some key \<Rightarrow> vi_issue_with_key (reference_issuer_ops E) (ms_issuer ms) env' a key
      | None \<Rightarrow> vi_issue_with_lineage (reference_issuer_ops E) (ms_issuer ms) env' a) = (ms', t')" for env' a "next" ko
  proof -
    obtain st r where issue: "(case ko of
        Some key \<Rightarrow> vi_issue_with_key (reference_issuer_ops E) (ms_issuer ms) env' a key
      | None \<Rightarrow> vi_issue_with_lineage (reference_issuer_ops E) (ms_issuer ms) env' a) = (st, r)" by (metis surj_pair)
    have "after_issue ms request next (st, r) = (ms', t')" using that unfolding issue .
    with reference_issue [OF issue] show ?thesis
      by (auto simp: after_issue_eq issue_stage_def)
  qed
  show "task_step E ms (RootProved env request key_opt) = (ms', t') \<Longrightarrow>
      issue_stage E (me_issue env) (root_issue_args (req_seed request)) request (RootIssued request) ms ms' t'"
    unfolding task_step.simps assms by (rule stage)
  show "task_step E ms (ChildProved env request parent key) = (ms', t') \<Longrightarrow>
      issue_stage E (me_issue env) (child_issue_args (req_seed request) parent) request (ChildIssued request parent) ms ms' t'"
    unfolding task_step.simps assms by (rule stage [where ko = "Some key"]) simp
qed

lemma possession_keeps [simp]:
  "same_config ms (fst (verify_pop_at_mint E clock ms seed key p))"
  "ms_issuer (fst (verify_pop_at_mint E clock ms seed key p)) = ms_issuer ms"
  using verify_pop_config [OF prod.collapse [symmetric]] verify_pop_issuer [OF prod.collapse [symmetric]] by blast+

text \<open>A stage reaches the issuer with the identifier of its task only.\<close>

lemma task_step_effect:
  assumes "task_step E ms t = (ms', t')" and "ms_issuer_ops ms = reference_issuer_ops E"
  shows "same_config ms ms'"
    and "ms_issuer ms' = ms_issuer ms \<or>
      (\<exists>env. task_ids t = [ie_agent_id env] \<and> issuer_step env (ms_issuer ms) (ms_issuer ms'))"
    and "task_ids t' = task_ids t \<or> task_ids t' = []"
proof -
  have "same_config ms ms' \<and> (ms_issuer ms' = ms_issuer ms \<or>
      (\<exists>env. task_ids t = [ie_agent_id env] \<and> issuer_step env (ms_issuer ms) (ms_issuer ms'))) \<and>
      (task_ids t' = task_ids t \<or> task_ids t' = [])"
  proof (cases t)
    case (RootStart env request)
    with assms(1) show ?thesis
      by (auto simp: Let_def after_pop_def split: sum.splits option.splits)
  next
    case (RootProved env request key_opt)
    with issue_stages(1) [OF assms(2)] assms(1) show ?thesis
      by (fastforce simp: issue_stage_def same_config_updates)
  next
    case (RootIssued request d)
    with assms(1) show ?thesis
      by (auto simp: Let_def case_prod_beta audited_def same_config_updates split: sum.splits)
  next
    case (ChildStart env request po)
    with assms(1) show ?thesis by (auto split: option.splits sum.splits)
  next
    case (ChildChecked env request parent key)
    with assms(1) show ?thesis
      by (auto simp: after_pop_def split: sum.splits)
  next
    case (ChildProved env request parent key)
    with issue_stages(2) [OF assms(2)] assms(1) show ?thesis
      by (fastforce simp: issue_stage_def same_config_updates)
  next
    case (ChildIssued request parent d)
    with assms(1) show ?thesis
      by (auto simp: Let_def case_prod_beta audited_def same_config_updates split: sum.splits if_splits)
  next
    case (Finished request r)
    with assms(1) show ?thesis by simp
  qed
  then show "same_config ms ms'"
    and "ms_issuer ms' = ms_issuer ms \<or>
      (\<exists>env. task_ids t = [ie_agent_id env] \<and> issuer_step env (ms_issuer ms) (ms_issuer ms'))"
    and "task_ids t' = task_ids t \<or> task_ids t' = []" by blast+
qed

text \<open>What a document just built gives, in the state after.\<close>

lemma issue_stage_good:
  assumes "issue_stage E env a request next ms ms' t'" and "world_inv E ms ds" and "ed25519_correct E"
  shows "(\<exists>e. t' = Finished request (Inl e)) \<or> (\<exists>d. t' = next d \<and> built E ms' d \<and> issued_as a d)"
proof -
  have st: "reference_start E ms" using assms(2) by (simp add: world_inv_def)
  from assms(1) obtain iss where ms': "ms' = ms\<lparr>ms_issuer := iss\<rparr>"
    and r: "(\<exists>e. t' = Finished request (Inl e)) \<or>
      (\<exists>d k. t' = next d \<and> build_and_sign_vaid E (ms_issuer ms) env a k = (iss, Inr d))"
    by (auto simp: issue_stage_def)
  have "built E ms' d \<and> issued_as a d" if "build_and_sign_vaid E (ms_issuer ms) env a k = (iss, Inr d)" for d k
    using built_document [OF that _ assms(3)] st by (simp add: ms' built_def reference_start_def)
  with r show ?thesis by blast
qed

lemma delegable_checked:
  assumes "world_inv E ms ds" and "parent \<in> set ds" and "check_delegation E now ms seed parent = Inr ()"
  shows "delegable E (ms_max_delegation_depth ms) ds seed parent"
proof -
  obtain chain where chain: "good_chain E (ms_max_delegation_depth ms) ds parent chain"
    using assms(1,2) by (auto simp: world_inv_def good_document_def)
  have "length chain \<le> ms_max_delegation_depth ms"
    using assms(3) world_inv_lineage [OF assms(1) chain] world_inv_ops [OF assms(1)]
    by (auto simp: check_delegation_Inr reference_issuer_ops_def)
  with chain assms(2,3) show ?thesis by (auto simp: delegable_def check_delegation_Inr)
qed

text \<open>A child whose expiry was checked is the end of a good chain.\<close>

lemma delegated_document:
  assumes "world_inv E ms ds" and "delegable E (ms_max_delegation_depth ms) ds seed parent" and "built E ms d"
    and "issued_as (child_issue_args seed parent) d" and "expiry_attenuates E parent (Some (vd_expires_at d))"
    and "vaid_id d \<notin> vaid_id ` set ds"
  shows "good_document E ms (d # ds) d"
proof -
  from assms(2) obtain chain where p: "parent \<in> set ds"
    and chain: "good_chain E (ms_max_delegation_depth ms) ds parent chain" "length chain \<le> ms_max_delegation_depth ms"
    by (auto simp: delegable_def)
  have "vd_trust_domain d = vd_trust_domain parent"
    using assms(1,3) p by (auto simp: world_inv_def good_document_built built_def)
  then have "good_hop E parent d" "parent_vaid d = Some (vaid_id parent)"
    using assms(2,4,5)
    by (auto simp: delegable_def good_hop_def hop_contained_def tenant_attenuates_def issued_as_def child_issue_args_def)
  with assms(3) good_chain_child [OF chain assms(6)] show ?thesis
    by (auto simp: good_document_built)
qed

lemma good_task_step:
  assumes inv: "world_inv E ms ds" and sig: "ed25519_correct E" and t: "good_task E ms ds t"
    and fresh: "set (task_ids t) \<inter> vaid_id ` set ds = {}" and step: "task_step E ms t = (ms', t')"
  shows "good_task E ms' ds t'"
proof -
  note ops = world_inv_ops [OF inv]
  have maxd: "ms_max_delegation_depth ms' = ms_max_delegation_depth ms"
    using task_step_effect(1) [OF step ops] by (simp add: same_config_def)
  show ?thesis
  proof (cases t)
    case (RootStart env request)
    with t step show ?thesis
      by (auto simp: Let_def after_pop_def split: sum.splits option.splits)
  next
    case (RootProved env request key_opt)
    have "issue_stage E (me_issue env) (root_issue_args (req_seed request)) request (RootIssued request) ms ms' t'"
      using issue_stages(1) [OF ops] step RootProved by simp
    from issue_stage_good [OF this inv sig] t RootProved show ?thesis
      by (auto simp: issued_as_def root_issue_args_def)
  next
    case (RootIssued request d)
    with t step have "built E ms' d" "parent_vaid d = None"
      by (auto simp: built_def Let_def case_prod_beta audited_def split: sum.splits)
    then have "good_document E ms' (d # ds) d"
      by (auto simp: good_document_built intro: good_chain_root)
    with RootIssued step show ?thesis
      by (auto simp: Let_def case_prod_beta audited_def split: sum.splits)
  next
    case (ChildStart env request po)
    with t step delegable_checked [OF inv] show ?thesis
      by (auto split: option.splits sum.splits)
  next
    case (ChildChecked env request parent key)
    with t step maxd show ?thesis
      by (auto simp: after_pop_def split: sum.splits)
  next
    case (ChildProved env request parent key)
    have "issue_stage E (me_issue env) (child_issue_args (req_seed request) parent) request (ChildIssued request parent) ms ms' t'"
      using issue_stages(2) [OF ops] step ChildProved by simp
    from issue_stage_good [OF this inv sig] t maxd ChildProved show ?thesis by auto
  next
    case (ChildIssued request parent d)
    then have d: "delegable E (ms_max_delegation_depth ms) ds (req_seed request) parent" "built E ms d"
      "issued_as (child_issue_args (req_seed request) parent) d" "vaid_id d \<notin> vaid_id ` set ds"
      using t fresh by auto
    have "good_document E ms' (d # ds) d" if "expiry_attenuates E parent (Some (vd_expires_at d))"
      "ms_issuer ms' = ms_issuer ms"
      using delegated_document [OF inv d(1-3) that(1) d(4)] that(2) maxd
      by (simp add: good_document_built built_def)
    with ChildIssued step show ?thesis
      by (auto simp: Let_def case_prod_beta audited_def split: sum.splits if_splits)
  next
    case (Finished request r)
    with t step show ?thesis by simp
  qed
qed

section \<open>The invariant\<close>

lemma start_task_ids: "\<exists>i. task_ids (start_task op) = [i]"
  by (cases op) simp_all

lemma tasks_inv_stage:
  assumes inv: "tasks_inv E ms (ts @ (m, t) # us) ds" and sig: "ed25519_correct E" and step: "task_step E ms t = (ms', t')"
  shows "tasks_inv E ms' (ts @ (m, t') # us) ds"
proof -
  have w: "world_inv E ms ds" using inv by (simp add: tasks_inv_def)
  then have dl: "ri_lineage (ms_issuer ms) = DefaultLineage" by (simp add: world_inv_def reference_start_def)
  note eff = task_step_effect [OF step world_inv_ops [OF w]]
  have ids: "set (task_ids t) \<inter> vaid_id ` set ds = {}" and
    apart: "\<forall>x \<in> set ts \<union> set us. set (task_ids t) \<inter> set (task_ids (snd x)) = {}"
    using inv by (auto simp: tasks_inv_def ids_in_use_def)
  have good: "(n, u) \<in> set ts \<union> set us \<Longrightarrow> n \<Longrightarrow> good_task E ms ds u" for n u
    using inv by (auto simp: tasks_inv_def)
  have "world_inv E ms' ds \<and> (\<forall>(n, u) \<in> set ts \<union> set us. n \<longrightarrow> good_task E ms' ds u)"
    using eff(2)
  proof
    assume same: "ms_issuer ms' = ms_issuer ms"
    then have "world_inv E ms' ds"
      using w eff(1) by (auto simp: world_inv_def reference_start_def good_document_built built_def same_config_def)
    with same show ?thesis
      using good good_task_frame [OF _ eff(1) _ dl] by blast
  next
    assume "\<exists>env. task_ids t = [ie_agent_id env] \<and> issuer_step env (ms_issuer ms) (ms_issuer ms')"
    then obtain env where env: "task_ids t = [ie_agent_id env]" "issuer_step env (ms_issuer ms) (ms_issuer ms')" by blast
    then have "world_inv E ms' ds" using world_inv_frame [OF w eff(1) env(2)] ids by simp
    moreover have "good_task E ms' ds u" if "(n, u) \<in> set ts \<union> set us" "n" for n u
    proof -
      have "ie_agent_id env \<notin> set (task_ids u)" using bspec [OF apart that(1)] env(1) by simp
      then show ?thesis using env(2) good [OF that] by (blast intro: good_task_frame [OF _ eff(1) _ dl])
    qed
    ultimately show ?thesis by blast
  qed
  moreover have "m \<Longrightarrow> good_task E ms' ds t'"
    using good_task_step [OF w sig _ ids step] inv by (simp add: tasks_inv_def)
  moreover have "distinct (ids_in_use (ts @ (m, t') # us) ds)"
    using inv eff(3) by (auto simp: tasks_inv_def ids_in_use_def)
  ultimately show ?thesis by (auto simp: tasks_inv_def)
qed

lemma tasks_inv_start: "reference_start E ms \<Longrightarrow> tasks_inv E ms [] []"
  by (simp add: tasks_inv_def world_inv_def ids_in_use_def)

lemma tasks_inv_spawn:
  "tasks_inv E ms tasks ds \<Longrightarrow> (m \<Longrightarrow> good_task E ms ds t) \<Longrightarrow> task_ids t = [i] \<Longrightarrow> i \<notin> set (ids_in_use tasks ds) \<Longrightarrow>
     tasks_inv E ms ((m, t) # tasks) ds"
  by (simp add: tasks_inv_def ids_in_use_def)

lemma tasks_inv_received:
  assumes inv: "tasks_inv E ms (ts @ (True, Finished request (Inr resp)) # us) ds"
  shows "tasks_inv E ms (ts @ us) (mr_vaid resp # ds)"
proof -
  have "world_inv E ms (mr_vaid resp # ds)"
    using inv by (intro world_inv_add) (simp_all add: tasks_inv_def ids_in_use_def)
  moreover have "good_task E ms (mr_vaid resp # ds) u" if "(n, u) \<in> set (ts @ us)" "n" for n u
    using inv that by (intro good_task_more) (auto simp: tasks_inv_def)
  moreover have "distinct (ids_in_use (ts @ us) (mr_vaid resp # ds))"
    using inv by (auto simp: tasks_inv_def ids_in_use_def)
  ultimately show ?thesis by (auto simp: tasks_inv_def)
qed

lemma tasks_inv_done:
  "tasks_inv E ms (ts @ (m, t) # us) ds \<Longrightarrow> tasks_inv E ms (ts @ us) ds"
  by (auto simp: tasks_inv_def ids_in_use_def)

lemma tasks_inv_revoke:
  "tasks_inv E ms tasks ds \<Longrightarrow> tasks_inv E (ms\<lparr>ms_issuer := issuer_revoke (ms_issuer ms) i\<rparr>) tasks ds"
  by (auto simp: tasks_inv_def good_task_revoke world_inv_revoke)

lemma task_world_inv:
  assumes "task_world E ms0 ms tasks ds" and "reference_start E ms0" and "ed25519_correct E"
  shows "tasks_inv E ms tasks ds"
  using assms(1)
proof induction
  case (tasks_root ms tasks ds request env)
  then show ?case by (intro tasks_inv_spawn) auto
next
  case (tasks_child ms tasks ds po env request)
  then show ?case by (intro tasks_inv_spawn) auto
next
  case (tasks_other ms tasks ds op)
  then show ?case using start_task_ids [of op] by (auto intro: tasks_inv_spawn)
qed (use assms(2,3) in \<open>blast intro: tasks_inv_start tasks_inv_stage tasks_inv_received tasks_inv_done tasks_inv_revoke\<close>)+

end
