(* ===== verification/Vaid_Interop.thy ===== *)
theory Vaid_Interop
  imports Vaid_World
begin

text \<open>
  The interop harness (\<^verbatim>\<open>crates/vaid-mint/examples/aat_interop_harness.rs\<close>): for each vector of a
  foreign suite it builds a chain of documents of its own, well formed or not, presents it to the
  public verifier and records the answer.  It is also the one caller in the Rust crates that binds
  a kernel key to a trust domain (\<open>trusted_issuer_map\<close>), which the verifier leaves to its caller.
  The identifiers it draws are the argument \<open>fresh\<close>; \<open>to_text\<close> is the JSON writer of
  \<^verbatim>\<open>serde_json\<close> on the members of a document; \<^term>\<open>None\<close> is a panic.
\<close>

definition TRUST_DOMAIN :: string where "TRUST_DOMAIN = ''aat-harness.example.test''"
definition TRUST_DOMAIN_2 :: string where "TRUST_DOMAIN_2 = ''aat-harness-second.example.test''"
definition TENANT :: string where "TENANT = ''aat-harness-tenant''"

section \<open>Kernels and documents\<close>

record kernel =
  kn_key_pair :: keypair
  kn_public_key :: bytes
  kn_thumbprint :: string

definition kernel_from_seed :: "ext \<Rightarrow> u8 \<Rightarrow> kernel option" where
  "kernel_from_seed E byte =
     map_option (\<lambda>kp. \<lparr>kn_key_pair = kp, kn_public_key = ext_public_key E kp,
         kn_thumbprint = kernel_key_thumbprint E (ext_public_key E kp)\<rparr>)
       (ext_from_seed E (replicate 32 byte))"

definition kernel_new :: "ext \<Rightarrow> kernel option" where
  "kernel_new E = kernel_from_seed E 0x51"

definition kernel_sign :: "ext \<Rightarrow> kernel \<Rightarrow> bytes \<Rightarrow> bytes" where
  "kernel_sign E k message = ext_sign E (kn_key_pair k) message"

definition ts :: "int \<Rightarrow> instant" where
  "ts secs = secs * nanos_per_sec"

definition build_doc_ex ::
  "ext \<Rightarrow> kernel \<Rightarrow> uuid \<Rightarrow> vaid option \<Rightarrow> instant \<Rightarrow> instant \<Rightarrow> string list \<Rightarrow> scope_entry list \<Rightarrow> string \<Rightarrow> vaid" where
  "build_doc_ex E k agent parent issued expires capability_set scope_boundary trust_domain =
     (let parent_vaid_id = map_option vaid_id parent;
          lineage_hash = compute_lineage_hash E parent_vaid_id agent;
          unsigned = with_lineage E agent ''aat-harness-agent'' ''1.0.0'' TENANT issued expires
            (replicate 32 0) [] parent_vaid_id scope_boundary lineage_hash capability_set trust_domain (kn_thumbprint k);
          sig = kernel_sign E k (canonical_vaid_signing_bytes E unsigned)
      in with_kernel_signature unsigned sig)"

definition build_doc ::
  "ext \<Rightarrow> kernel \<Rightarrow> uuid \<Rightarrow> vaid option \<Rightarrow> instant \<Rightarrow> instant \<Rightarrow> string list \<Rightarrow> vaid" where
  "build_doc E k agent parent issued expires capability_set =
     build_doc_ex E k agent parent issued expires capability_set [] TRUST_DOMAIN"

section \<open>Keys bound to trust domains\<close>

record trusted_issuer_map =
  tim_by_thumbprint :: "(string \<times> bytes \<times> string) list"

definition tim_new :: "(kernel \<times> string) list \<Rightarrow> trusted_issuer_map" where
  "tim_new entries =
     \<lparr>tim_by_thumbprint = map_collect (map (\<lambda>(k, domain). (kn_thumbprint k, kn_public_key k, domain)) entries)\<rparr>"

definition trust_domain_for :: "trusted_issuer_map \<Rightarrow> string \<Rightarrow> string option" where
  "trust_domain_for t thumbprint = map_option snd (map_of (tim_by_thumbprint t) thumbprint)"

definition binds :: "trusted_issuer_map \<Rightarrow> vaid \<Rightarrow> bool" where
  "binds t doc = (trust_domain_for t (vd_kernel_key_thumbprint doc) = Some (vd_trust_domain doc))"

definition as_key_map :: "ext \<Rightarrow> trusted_issuer_map \<Rightarrow> kernel_key_map" where
  "as_key_map E t = km_new E (map (fst \<circ> snd) (tim_by_thumbprint t))"

section \<open>Verdicts\<close>

text \<open>One constructor per text of a \<^verbatim>\<open>skip\<close>.\<close>

datatype skip_reason =
    ArgumentConstraints
  | IatOrdering
  | JoseHeaderRule
  | SizeLimits
  | UnrecognisedSubVector
  | WireEncoding
  | DuplicateJti
  | HolderOfKey
  | InvocationPop
  | JoseHeaderShape
  | ConstraintMap
  | DelegationDepthClaims
  | PredicateAlgebra
  | UnnamedArguments
  | NumberAdmissibility
  | EntryTypes
  | UnclassifiedGroup string

datatype result_entry = Permit | Deny | Skip skip_reason

definition decided :: "ext \<Rightarrow> resolve_key \<Rightarrow> vaid \<Rightarrow> vaid list \<Rightarrow> instant \<Rightarrow> string \<Rightarrow> result_entry" where
  "decided E keys leaf ancestors now tool =
     (let verification = verify_chain_at E keys leaf (pb_new ancestors) ab_empty now;
          attenuated = (verification = ChainVerification.Attenuated);
          leaf_live = (\<not> is_expired_at E leaf now);
          authorized = has_capability leaf tool
      in if attenuated \<and> leaf_live \<and> authorized then Permit else Deny)"

definition chain_verdict :: "ext \<Rightarrow> kernel \<Rightarrow> vaid \<Rightarrow> vaid list \<Rightarrow> instant \<Rightarrow> string \<Rightarrow> result_entry" where
  "chain_verdict E k leaf ancestors now tool =
     decided E (sk_resolve_key (sk_new E (kn_public_key k))) leaf ancestors now tool"

definition chain_verdict_with_binding ::
  "ext \<Rightarrow> trusted_issuer_map \<Rightarrow> vaid \<Rightarrow> vaid list \<Rightarrow> instant \<Rightarrow> string \<Rightarrow> result_entry" where
  "chain_verdict_with_binding E trust leaf ancestors now tool =
     (if \<not> binds trust leaf \<or> list_ex (\<lambda>a. \<not> binds trust a) ancestors then Deny
      else decided E (km_resolve_key (as_key_map E trust)) leaf ancestors now tool)"

section \<open>The vectors\<close>

text \<open>What the loop of \<^verbatim>\<open>main\<close> has at hand for one vector.\<close>

record harness =
  hn_kernel :: kernel
  hn_untrusted :: kernel
  hn_kernel2 :: kernel

definition harness_new :: "ext \<Rightarrow> harness option" where
  "harness_new E =
     do { k \<leftarrow> kernel_new E; untrusted \<leftarrow> kernel_from_seed E 0x52; k2 \<leftarrow> kernel_from_seed E 0x53;
          Some \<lparr>hn_kernel = k, hn_untrusted = untrusted, hn_kernel2 = k2\<rparr> }"

definition trust_map :: "harness \<Rightarrow> trusted_issuer_map" where
  "trust_map h = tim_new [(hn_kernel h, TRUST_DOMAIN), (hn_kernel2 h, TRUST_DOMAIN_2)]"

text \<open>A root document of the kernel, and a child of a document, \<open>from\<close> and \<open>to\<close> seconds around now.\<close>

definition root_doc :: "ext \<Rightarrow> harness \<Rightarrow> uuid \<Rightarrow> int \<Rightarrow> int \<Rightarrow> int \<Rightarrow> string list \<Rightarrow> vaid" where
  "root_doc E h i secs from to caps = build_doc E (hn_kernel h) i None (ts (secs + from)) (ts (secs + to)) caps"

definition child_doc :: "ext \<Rightarrow> harness \<Rightarrow> uuid \<Rightarrow> vaid \<Rightarrow> int \<Rightarrow> int \<Rightarrow> int \<Rightarrow> string list \<Rightarrow> vaid" where
  "child_doc E h i parent secs from to caps =
     build_doc E (hn_kernel h) i (Some parent) (ts (secs + from)) (ts (secs + to)) caps"

definition scoped_root :: "ext \<Rightarrow> harness \<Rightarrow> uuid \<Rightarrow> int \<Rightarrow> int \<Rightarrow> int \<Rightarrow> string list \<Rightarrow> scope_entry list \<Rightarrow> vaid" where
  "scoped_root E h i secs from to caps scope =
     build_doc_ex E (hn_kernel h) i None (ts (secs + from)) (ts (secs + to)) caps scope TRUST_DOMAIN"

definition scoped_child ::
  "ext \<Rightarrow> harness \<Rightarrow> uuid \<Rightarrow> vaid \<Rightarrow> int \<Rightarrow> int \<Rightarrow> int \<Rightarrow> string list \<Rightarrow> scope_entry list \<Rightarrow> vaid" where
  "scoped_child E h i parent secs from to caps scope =
     build_doc_ex E (hn_kernel h) i (Some parent) (ts (secs + from)) (ts (secs + to)) caps scope TRUST_DOMAIN"

text \<open>J.14: one bit of the signature flipped.\<close>

definition tampered_verdict :: "ext \<Rightarrow> harness \<Rightarrow> uuid \<Rightarrow> int \<Rightarrow> string \<Rightarrow> result_entry option" where
  "tampered_verdict E h i secs tool =
     (let root = root_doc E h i secs (-300) 3600 [tool] in
      case vd_kernel_signature root of
        [] \<Rightarrow> None
      | b # bs \<Rightarrow>
          Some (chain_verdict E (hn_kernel h) (with_kernel_signature root (xor b 1 # bs)) [] (ts secs) tool))"

text \<open>J.23.4: a second \<^verbatim>\<open>tenant_id\<close> spliced into the text of a document; \<open>wall\<close> is the wall clock.\<close>

definition spliced_verdict ::
  "ext \<Rightarrow> ((string \<times> json) list \<Rightarrow> string) \<Rightarrow> instant \<Rightarrow> harness \<Rightarrow> uuid \<Rightarrow> int \<Rightarrow> string \<Rightarrow> result_entry option" where
  "spliced_verdict E to_text wall h i secs tool =
     (let root = root_doc E h i secs (-300) 3600 [tool];
          good_json = to_text (vaid_all_members root) in
      if good_json = [] \<or> last good_json \<noteq> CHR ''}'' then None
      else
        let tampered_json = butlast good_json @ '', \"tenant_id\":\"'' @ TENANT @ ''\"}'';
            verdict = verify_vaid_standing_from_json E wall (kn_public_key (hn_kernel h)) tampered_json NotRevoked
        in Some (if is_valid verdict then Permit else Deny))"

text \<open>J.27.1: an unknown member round-trips and is signed.\<close>

definition unknown_member_verdict :: "ext \<Rightarrow> harness \<Rightarrow> uuid \<Rightarrow> int \<Rightarrow> string \<Rightarrow> result_entry option" where
  "unknown_member_verdict E h i secs tool =
     (let unsigned = root_doc E h i secs (-300) 3600 [tool];
          val = object_insert ''x_harness_unrecognized_claim'' (JString ''ignored-by-a-conforming-verifier'') (ser_vaid unsigned)
      in case de_vaid E val of
           None \<Rightarrow> None
         | Some with_unknown \<Rightarrow>
             let sig = kernel_sign E (hn_kernel h) (canonical_vaid_signing_bytes E with_unknown)
             in Some (chain_verdict E (hn_kernel h) (with_kernel_signature with_unknown sig) [] (ts secs) tool))"

text \<open>J.8.3 and J.8.5: an entry of an unknown kind; any other verdict than the expected one panics.\<close>

definition unknown_kind_verdict :: "ext \<Rightarrow> harness \<Rightarrow> uuid \<Rightarrow> int \<Rightarrow> string \<Rightarrow> result_entry option" where
  "unknown_kind_verdict E h i secs tool =
     (case scope_entry_new ''future-constraint-kind-v99'' (JString ''whatever-value'') of
        Inl e \<Rightarrow> None
      | Inr unknown_kind_entry \<Rightarrow>
          let leaf = scoped_root E h i secs (-300) 3600 [tool] [unknown_kind_entry];
              authenticity = verify_vaid_authenticity_graded E (kn_public_key (hn_kernel h)) leaf;
              verdict =
                (if \<not> is_valid authenticity then authenticity
                 else if is_expired_at E leaf (ts secs) then VaidVerdict.Expired
                 else if \<not> boundary_is_evaluable (vd_scope_boundary leaf) then VaidVerdict.UnknownScopeKind
                 else Valid)
          in if verdict = VaidVerdict.UnknownScopeKind then Some Deny else None)"

text \<open>The chains of the other vectors; \<open>fresh j\<close> is the identifier of the document number \<open>j\<close>.\<close>

definition j1_verdict :: "ext \<Rightarrow> harness \<Rightarrow> (nat \<Rightarrow> uuid) \<Rightarrow> int \<Rightarrow> string \<Rightarrow> result_entry" where
  "j1_verdict E h fresh secs tool =
     chain_verdict E (hn_kernel h) (root_doc E h (fresh 0) secs (-300) 3600 [tool]) [] (ts secs) tool"

definition j3_verdict :: "ext \<Rightarrow> harness \<Rightarrow> (nat \<Rightarrow> uuid) \<Rightarrow> int \<Rightarrow> string \<Rightarrow> result_entry" where
  "j3_verdict E h fresh secs tool =
     (let root = root_doc E h (fresh 0) secs (-600) 7200 [tool, ''search_index''];
          mid = child_doc E h (fresh 1) root secs (-300) 3600 [tool];
          leaf = child_doc E h (fresh 2) mid secs (-60) 1800 [tool]
      in chain_verdict E (hn_kernel h) leaf [root, mid] (ts secs) tool)"

definition j5_verdict :: "ext \<Rightarrow> harness \<Rightarrow> (nat \<Rightarrow> uuid) \<Rightarrow> int \<Rightarrow> string \<Rightarrow> result_entry" where
  "j5_verdict E h fresh secs tool =
     chain_verdict E (hn_kernel h) (root_doc E h (fresh 0) secs (-7200) (-3600) [tool]) [] (ts secs) tool"

definition j9_4_verdict :: "ext \<Rightarrow> harness \<Rightarrow> (nat \<Rightarrow> uuid) \<Rightarrow> int \<Rightarrow> string \<Rightarrow> result_entry" where
  "j9_4_verdict E h fresh secs tool =
     (let root = root_doc E h (fresh 0) secs (-600) 7200 [tool];
          mid = child_doc E h (fresh 1) root secs (-300) 3600 [tool]
      in chain_verdict E (hn_kernel h) mid [root] (ts secs) tool)"

text \<open>A root and a child of it, which most vectors consist of.\<close>

definition pair_verdict ::
  "ext \<Rightarrow> harness \<Rightarrow> (nat \<Rightarrow> uuid) \<Rightarrow> int \<Rightarrow> string \<Rightarrow> int \<Rightarrow> string list \<Rightarrow> int \<Rightarrow> int \<Rightarrow> string list \<Rightarrow> result_entry" where
  "pair_verdict E h fresh secs tool root_to root_caps leaf_from leaf_to leaf_caps =
     (let root = root_doc E h (fresh 0) secs (-600) root_to root_caps;
          leaf = child_doc E h (fresh 1) root secs leaf_from leaf_to leaf_caps
      in chain_verdict E (hn_kernel h) leaf [root] (ts secs) tool)"

definition scoped_pair_verdict ::
  "ext \<Rightarrow> harness \<Rightarrow> (nat \<Rightarrow> uuid) \<Rightarrow> int \<Rightarrow> string \<Rightarrow> scope_entry list \<Rightarrow> scope_entry list \<Rightarrow> result_entry" where
  "scoped_pair_verdict E h fresh secs tool root_scope leaf_scope =
     (let root = scoped_root E h (fresh 0) secs (-600) 3600 [tool] root_scope;
          leaf = scoped_child E h (fresh 1) root secs (-60) 1800 [tool] leaf_scope
      in chain_verdict E (hn_kernel h) leaf [root] (ts secs) tool)"

definition j14_c_verdict :: "ext \<Rightarrow> harness \<Rightarrow> (nat \<Rightarrow> uuid) \<Rightarrow> int \<Rightarrow> string \<Rightarrow> result_entry" where
  "j14_c_verdict E h fresh secs tool =
     (let root = build_doc E (hn_untrusted h) (fresh 0) None (ts (secs - 300)) (ts (secs + 3600)) [tool]
      in chain_verdict E (hn_kernel h) root [] (ts secs) tool)"

text \<open>J.21.22 and J.21.23: a root of the second kernel that claims \<open>domain\<close>.\<close>

definition second_anchor_verdict :: "ext \<Rightarrow> harness \<Rightarrow> (nat \<Rightarrow> uuid) \<Rightarrow> int \<Rightarrow> string \<Rightarrow> string \<Rightarrow> result_entry" where
  "second_anchor_verdict E h fresh secs tool domain =
     (let root = build_doc_ex E (hn_kernel2 h) (fresh 0) None (ts (secs - 300)) (ts (secs + 3600)) [tool] [] domain
      in chain_verdict_with_binding E (trust_map h) root [] (ts secs) tool)"

text \<open>The \<^verbatim>\<open>match\<close> on group and identifier, its arms in order.\<close>

definition vector_entry ::
  "ext \<Rightarrow> ((string \<times> json) list \<Rightarrow> string) \<Rightarrow> instant \<Rightarrow> harness \<Rightarrow> (nat \<Rightarrow> uuid) \<Rightarrow> string \<Rightarrow> string \<Rightarrow> int \<Rightarrow> string \<Rightarrow>
   result_entry option" where
  "vector_entry E to_text wall h fresh grp vid secs tool =
     (if grp = ''1'' then Some (j1_verdict E h fresh secs tool)
      else if grp = ''3'' then Some (j3_verdict E h fresh secs tool)
      else if grp = ''5'' then Some (j5_verdict E h fresh secs tool)
      else if grp = ''9'' then
        (if vid = ''J.9.3''
         then Some (pair_verdict E h fresh secs tool 3600 [tool, ''other_tool''] (-60) 1800 [''other_tool''])
         else if vid = ''J.9.4'' then Some (j9_4_verdict E h fresh secs tool)
         else if vid = ''J.9.6''
         then Some (pair_verdict E h fresh secs tool 3600 [''read_file'', ''search_index''] (-60) 1800 [''read_file''])
         else Some (Skip ArgumentConstraints))
      else if grp = ''13'' then
        (if vid = ''J.13'' then Some (pair_verdict E h fresh secs tool 1800 [tool] (-60) 3600 [tool])
         else if vid = ''J.13.c'' then Some (pair_verdict E h fresh secs tool 3600 [tool] (-300) (-60) [tool])
         else Some (Skip IatOrdering))
      else if grp = ''14'' then
        (if vid = ''J.14'' then tampered_verdict E h (fresh 0) secs tool
         else if vid = ''J.14.c'' then Some (j14_c_verdict E h fresh secs tool)
         else Some (Skip JoseHeaderRule))
      else if grp = ''23'' then
        (if vid = ''J.23.1'' then Some Deny
         else if vid = ''J.23.2'' \<or> vid = ''J.23.3'' then Some (Skip SizeLimits)
         else if vid = ''J.23.4'' then spliced_verdict E to_text wall h (fresh 0) secs tool
         else Some (Skip UnrecognisedSubVector))
      else if grp = ''27'' then
        (if vid = ''J.27.1'' then unknown_member_verdict E h (fresh 0) secs tool else Some (Skip WireEncoding))
      else if grp = ''2'' then Some (Skip DuplicateJti)
      else if grp = ''21'' \<and> vid = ''J.21.22'' then Some (second_anchor_verdict E h fresh secs tool TRUST_DOMAIN)
      else if grp = ''21'' \<and> vid = ''J.21.23'' then Some (second_anchor_verdict E h fresh secs tool TRUST_DOMAIN_2)
      else if grp \<in> set [''4'', ''20'', ''21'', ''12''] then Some (Skip HolderOfKey)
      else if grp = ''6'' then Some (Skip InvocationPop)
      else if grp = ''7'' then Some (Skip JoseHeaderShape)
      else if grp = ''8'' \<and> (vid = ''J.8.3'' \<or> vid = ''J.8.5'') then unknown_kind_verdict E h (fresh 0) secs tool
      else if grp = ''8'' then Some (Skip ConstraintMap)
      else if grp = ''10'' then Some (Skip DelegationDepthClaims)
      else if grp = ''11'' \<and> vid = ''J.11'' \<or> grp = ''19'' \<and> vid = ''J.19.11''
      then Some (scoped_pair_verdict E h fresh secs tool [prefix_entry ''data.allowed''] [prefix_entry ''data.''])
      else if grp = ''11'' \<and> vid = ''J.11.b''
      then Some (pair_verdict E h fresh secs tool 3600 [''other_tool''] (-60) 1800 [tool])
      else if grp = ''19'' \<and> vid = ''J.19.15''
      then Some (scoped_pair_verdict E h fresh secs tool [prefix_entry ''data.allowed''] [])
      else if grp = ''26'' \<and> vid = ''J.26.1''
      then Some (pair_verdict E h fresh secs tool 3600 [''other_tool''] (-60) 1800 [''other_tool''])
      else if grp \<in> set [''11'', ''15'', ''16'', ''17'', ''18'', ''19'', ''26''] then Some (Skip PredicateAlgebra)
      else if grp = ''22'' then Some (Skip UnnamedArguments)
      else if grp = ''24'' then Some (Skip NumberAdmissibility)
      else if grp = ''25'' then Some (Skip EntryTypes)
      else Some (Skip (UnclassifiedGroup grp)))"

section \<open>The run\<close>

definition as_i64 :: "json \<Rightarrow> int option" where
  "as_i64 v = (case v of
      JNumber (PosInt n) \<Rightarrow> if uint n < 2 ^ 63 then Some (uint n) else None
    | JNumber (NegInt n) \<Rightarrow> Some (sint n)
    | _ \<Rightarrow> None)"

text \<open>One turn of the loop over the vectors, the \<open>i\<close>-th.\<close>

definition harness_step ::
  "ext \<Rightarrow> ((string \<times> json) list \<Rightarrow> string) \<Rightarrow> (nat \<Rightarrow> instant) \<Rightarrow> (nat \<Rightarrow> nat \<Rightarrow> uuid) \<Rightarrow> harness \<Rightarrow> nat \<times> json \<Rightarrow>
   (string \<times> result_entry) list \<Rightarrow> (string \<times> result_entry) list option" where
  "harness_step E to_text wall fresh h entry results =
     (let (i, v) = entry in
      do { vid \<leftarrow> as_str (index_member v ''id'');
           grp \<leftarrow> (case str_split (CHR ''.'') vid of _ # g # _ \<Rightarrow> Some g | _ \<Rightarrow> None);
           let tool = (case as_str (index_member v ''tool'') of Some t \<Rightarrow> t | None \<Rightarrow> ''read_file'');
           let secs = (case as_i64 (index_member v ''now'') of Some n \<Rightarrow> n | None \<Rightarrow> 1704067500);
           e \<leftarrow> vector_entry E to_text (wall i) h (fresh i) grp vid secs tool;
           Some (map_insert vid e results) })"

fun harness_loop ::
  "ext \<Rightarrow> ((string \<times> json) list \<Rightarrow> string) \<Rightarrow> (nat \<Rightarrow> instant) \<Rightarrow> (nat \<Rightarrow> nat \<Rightarrow> uuid) \<Rightarrow> harness \<Rightarrow> (nat \<times> json) list \<Rightarrow>
   (string \<times> result_entry) list \<Rightarrow> (string \<times> result_entry) list option" where
  "harness_loop E to_text wall fresh h [] results = Some results"
| "harness_loop E to_text wall fresh h (entry # rest) results =
     harness_step E to_text wall fresh h entry results \<bind> harness_loop E to_text wall fresh h rest"

text \<open>\<^verbatim>\<open>main\<close> from the parsed suite to the results it writes.\<close>

definition run_harness ::
  "ext \<Rightarrow> ((string \<times> json) list \<Rightarrow> string) \<Rightarrow> (nat \<Rightarrow> instant) \<Rightarrow> (nat \<Rightarrow> nat \<Rightarrow> uuid) \<Rightarrow> json \<Rightarrow>
   (string \<times> result_entry) list option" where
  "run_harness E to_text wall fresh suite =
     do { vectors \<leftarrow> as_array (index_member suite ''vectors'');
          h \<leftarrow> harness_new E;
          harness_loop E to_text wall fresh h (List.enumerate 0 vectors) [] }"

section \<open>The documents it builds\<close>

definition kernel_ok :: "ext \<Rightarrow> kernel \<Rightarrow> bool" where
  "kernel_ok E k \<longleftrightarrow>
     kn_public_key k = ext_public_key E (kn_key_pair k) \<and> kn_thumbprint k = kernel_key_thumbprint E (kn_public_key k)"

lemma kernel_from_seed_ok: "kernel_from_seed E b = Some k \<Longrightarrow> kernel_ok E k"
  by (auto simp: kernel_from_seed_def kernel_ok_def)

lemma harness_new_ok:
  "harness_new E = Some h \<Longrightarrow> kernel_ok E (hn_kernel h) \<and> kernel_ok E (hn_untrusted h) \<and> kernel_ok E (hn_kernel2 h)"
  by (auto simp: harness_new_def kernel_new_def split: bind_splits intro: kernel_from_seed_ok)

lemma build_doc_ex_fields [simp]:
  "vd_sig_version (build_doc_ex E k i p iat eat caps scope td) = VAID_SIG_VERSION_V4"
  "vaid_id (build_doc_ex E k i p iat eat caps scope td) = i"
  "agent_id (build_doc_ex E k i p iat eat caps scope td) = i"
  "vd_tenant_id (build_doc_ex E k i p iat eat caps scope td) = TENANT"
  "vd_expires_at (build_doc_ex E k i p iat eat caps scope td) = format_e6 E eat"
  "parent_vaid (build_doc_ex E k i p iat eat caps scope td) = map_option vaid_id p"
  "vd_scope_boundary (build_doc_ex E k i p iat eat caps scope td) = scope"
  "vd_lineage_hash (build_doc_ex E k i p iat eat caps scope td) = compute_lineage_hash E (map_option vaid_id p) i"
  "vd_capability_set (build_doc_ex E k i p iat eat caps scope td) = caps"
  "vd_trust_domain (build_doc_ex E k i p iat eat caps scope td) = td"
  "vd_kernel_key_thumbprint (build_doc_ex E k i p iat eat caps scope td) = kn_thumbprint k"
  by (simp_all add: build_doc_ex_def with_lineage_def with_kernel_signature_def vaid_id_def agent_id_def
        parent_vaid_def presented_of_uuid_def Let_def split: option.splits)

lemma build_doc_authentic:
  assumes "ed25519_correct E" and "kernel_ok E k" and "is_valid_trust_domain td"
  shows "verify_vaid_authenticity E (kn_public_key k) (build_doc_ex E k i p iat eat caps scope td)"
proof -
  have "vd_unknown_fields (with_lineage E i cls ver ten t e pk sig q b lh cs dom tp) = []"
    for cls ver ten t e pk sig q b lh cs dom tp by (simp add: with_lineage_def)
  then have "ext_verify E (kn_public_key k) (canonical_vaid_signing_bytes E (build_doc_ex E k i p iat eat caps scope td))
      (vd_kernel_signature (build_doc_ex E k i p iat eat caps scope td))"
    using assms(2)
    by (simp add: build_doc_ex_def Let_def constructed_signing_bytes)
       (simp add: with_kernel_signature_def kernel_sign_def kernel_ok_def ed25519_correctD [OF assms(1)])
  with assms(2,3) show ?thesis by (simp add: authentic_iff verify_lineage_hash_def kernel_ok_def)
qed

lemma harness_domains: "is_valid_trust_domain TRUST_DOMAIN" "is_valid_trust_domain TRUST_DOMAIN_2"
  by code_simp+

section \<open>When a chain is permitted\<close>

lemma decided_Permit:
  "decided E keys leaf ancs now tool = Permit \<longleftrightarrow>
     verify_chain_at E keys leaf (pb_new ancs) ab_empty now = ChainVerification.Attenuated \<and>
     \<not> is_expired_at E leaf now \<and> has_capability leaf tool"
  by (simp add: decided_def Let_def)

lemma decided_Deny: "decided E keys leaf ancs now tool = Deny \<longleftrightarrow> decided E keys leaf ancs now tool \<noteq> Permit"
  by (simp add: decided_def Let_def)

lemma no_consent: "\<not> consented E keys ab_empty now p c"
  by (simp add: consented_def ab_get_def ab_empty_def)

text \<open>Without attestations a hop stays under one key, and within one trust domain and tenant.\<close>

definition plain_hop :: "ext \<Rightarrow> vaid \<Rightarrow> vaid \<Rightarrow> bool" where
  "plain_hop E p c \<longleftrightarrow> hop_contained E p c \<and> vd_kernel_key_thumbprint p = vd_kernel_key_thumbprint c \<and>
     vd_trust_domain p = vd_trust_domain c \<and> vd_tenant_id p = vd_tenant_id c"

lemma hop_ok_plain: "hop_ok E keys ab_empty now p c \<longleftrightarrow> plain_hop E p c"
  by (auto simp: hop_ok_def plain_hop_def no_consent tenant_attenuates_def)

lemma has_capability_above: "caps_attenuate p (vd_capability_set c) \<Longrightarrow> has_capability c tool \<Longrightarrow> has_capability p tool"
  by (auto simp: has_capability_def caps_contain_def caps_attenuate_def caps_attenuate_within_iff list_ex_iff)

lemma successively_same:
  assumes "successively (\<lambda>p c. f p = f c) xs" and "x \<in> set xs"
  shows "f x = f (last xs)"
proof -
  have "successively (\<lambda>p c. f p = f c) xs \<Longrightarrow> \<forall>x \<in> set xs. f x = f (last xs)"
  proof (induction xs rule: induct_list012)
    case (3 x y zs)
    from "3.prems" have eq: "f x = f y" and rest: "successively (\<lambda>p c. f p = f c) (y # zs)"
      by (simp_all only: successively.simps)
    show ?case using eq "3.IH"(2) [OF rest]
      by (metis last_ConsR list.distinct(1) list.set_intros(1) set_ConsD)
  qed simp_all
  with assms show ?thesis by blast
qed

lemma permitted_chain:
  assumes "decided E keys leaf ancs now tool = Permit"
  shows "\<exists>docs. presented_chain leaf (pb_new ancs) docs \<and> successively (plain_hop E) docs \<and>
     (\<forall>d \<in> set docs. authenticate E keys d \<and> has_capability d tool \<and> \<not> is_expired_at E d now \<and>
        vd_trust_domain d = vd_trust_domain leaf \<and> vd_tenant_id d = vd_tenant_id leaf \<and> (d = leaf \<or> d \<in> set ancs))"
proof -
  from assms have leaf: "\<not> is_expired_at E leaf now" "has_capability leaf tool" by (simp_all add: decided_Permit)
  from assms obtain docs where docs: "presented_chain leaf (pb_new ancs) docs"
      "\<forall>d \<in> set (butlast docs). \<not> is_expired_at E d now" "successively (plain_hop E) docs"
    and auth: "authenticate E keys leaf" "\<forall>d \<in> snd ` set (pb_documents (pb_new ancs)). authenticate E keys d"
    unfolding decided_Permit verify_chain_at_Attenuated [OF pb_ok_new(1)] hop_ok_plain by blast
  have last: "docs \<noteq> []" "last docs = leaf" using docs(1) by (simp_all add: presented_chain_def)
  have hops: "successively (hop_contained E) docs"
    "successively (\<lambda>p c. vd_trust_domain p = vd_trust_domain c) docs"
    "successively (\<lambda>p c. vd_tenant_id p = vd_tenant_id c) docs"
    using docs(3) by (auto elim!: successively_mono simp: plain_hop_def)
  have "authenticate E keys d \<and> has_capability d tool \<and> \<not> is_expired_at E d now \<and> (d = leaf \<or> d \<in> set ancs)"
    if "d \<in> set docs" for d
  proof (cases "d \<in> set (butlast docs)")
    case True
    then have "pb_get (pb_new ancs) (vaid_id d) = Some d" using docs(1) by (simp add: presented_chain_def)
    from pb_get_in [OF this] have "d \<in> snd ` set (pb_documents (pb_new ancs))" .
    moreover from this pb_new_documents [of ancs] have "d \<in> set ancs" by blast
    moreover have "has_capability d tool"
      using chain_member_contains [OF hops(1) last(1) True] leaf(2) last(2)
      by (auto simp: hop_contained_def intro: has_capability_above)
    ultimately show ?thesis using auth docs(2) True by blast
  next
    case False
    then have "d = leaf" using that last by (metis append_butlast_last_id Un_iff set_append singletonD list.simps(15) empty_set)
    with auth leaf show ?thesis by simp
  qed
  moreover have "vd_trust_domain d = vd_trust_domain leaf \<and> vd_tenant_id d = vd_tenant_id leaf" if "d \<in> set docs" for d
    using successively_same [OF hops(2) that] successively_same [OF hops(3) that] last by simp
  ultimately show ?thesis using docs by blast
qed

section \<open>Keys stay in their domains\<close>

lemma tim_entry:
  assumes "map_of (tim_by_thumbprint (tim_new entries)) t = Some (pk, domain)"
  shows "\<exists>k. (k, domain) \<in> set entries \<and> kn_thumbprint k = t \<and> kn_public_key k = pk"
  using assms set_map_collect [of "map (\<lambda>(k, domain). (kn_thumbprint k, kn_public_key k, domain)) entries"]
  by (force simp: tim_new_def dest: map_of_SomeD)

lemma tim_ok: "map_ok (tim_by_thumbprint (tim_new entries))"
  by (simp add: tim_new_def)

text \<open>The key a thumbprint resolves to is the one it is bound with.\<close>

lemma bound_key:
  assumes ok: "\<forall>(k, domain) \<in> set entries. kernel_ok E k"
    and key: "km_resolve_key (as_key_map E (tim_new entries)) t = Some pk"
    and dom: "trust_domain_for (tim_new entries) t = Some domain"
  shows "\<exists>k. (k, domain) \<in> set entries \<and> kn_public_key k = pk"
proof -
  let ?m = "tim_by_thumbprint (tim_new entries)"
  from km_new_keys [OF key [unfolded as_key_map_def]] obtain t' d' where
    e: "(t', pk, d') \<in> set ?m" and t: "kernel_key_thumbprint E pk = t" by auto
  have "distinct (map fst ?m)" using tim_ok [of entries] by (rule map_ok_distinct)
  with e have m: "map_of ?m t' = Some (pk, d')" by simp
  from tim_entry [OF this] ok t have "t' = t" by (auto simp: kernel_ok_def)
  with m dom have "map_of ?m t = Some (pk, domain)" by (auto simp: trust_domain_for_def)
  from tim_entry [OF this] show ?thesis by blast
qed

lemma bound_permit:
  assumes permit: "chain_verdict_with_binding E (tim_new entries) leaf ancs now tool = Permit"
    and ok: "\<forall>(k, domain) \<in> set entries. kernel_ok E k"
  shows "\<exists>docs. presented_chain leaf (pb_new ancs) docs \<and> successively (plain_hop E) docs \<and>
     (\<forall>d \<in> set docs. has_capability d tool \<and> \<not> is_expired_at E d now \<and> vd_tenant_id d = vd_tenant_id leaf \<and>
        (\<exists>k. (k, vd_trust_domain leaf) \<in> set entries \<and> vd_trust_domain d = vd_trust_domain leaf \<and>
           verify_vaid_authenticity E (kn_public_key k) d))"
proof -
  let ?t = "tim_new entries" and ?keys = "km_resolve_key (as_key_map E (tim_new entries))"
  from permit have bound: "binds ?t leaf" "\<forall>a \<in> set ancs. binds ?t a"
    and dec: "decided E ?keys leaf ancs now tool = Permit"
    by (auto simp: chain_verdict_with_binding_def list_ex_iff split: if_splits)
  from permitted_chain [OF dec] obtain docs where docs: "presented_chain leaf (pb_new ancs) docs"
      "successively (plain_hop E) docs" and
    each: "\<And>d. d \<in> set docs \<Longrightarrow> authenticate E ?keys d \<and> has_capability d tool \<and> \<not> is_expired_at E d now \<and>
        vd_trust_domain d = vd_trust_domain leaf \<and> vd_tenant_id d = vd_tenant_id leaf \<and> (d = leaf \<or> d \<in> set ancs)"
    by blast
  have "\<exists>k. (k, vd_trust_domain leaf) \<in> set entries \<and> verify_vaid_authenticity E (kn_public_key k) d"
    if "d \<in> set docs" for d
  proof -
    from each [OF that] obtain pk where pk: "?keys (vd_kernel_key_thumbprint d) = Some pk" "verify_vaid_authenticity E pk d"
      by (auto simp: authenticate_def split: option.splits)
    have "trust_domain_for ?t (vd_kernel_key_thumbprint d) = Some (vd_trust_domain leaf)"
      using each [OF that] bound by (auto simp: binds_def)
    from bound_key [OF ok pk(1) this] pk(2) show ?thesis by blast
  qed
  with docs each show ?thesis by blast
qed

section \<open>What the harness answers\<close>

lemma presented_list:
  assumes "pinned (ancs @ [leaf])" and "distinct (map vaid_id (ancs @ [leaf]))" and "length ancs < MAX_LINEAGE_DEPTH"
  shows "presented_chain leaf (pb_new ancs) (ancs @ [leaf])"
  using assms by (auto simp: presented_chain_def intro!: pb_new_get)

text \<open>A chain presented whole, all of it authentic.\<close>

lemma decided_iff:
  assumes chain: "presented_chain leaf (pb_new ancs) (ancs @ [leaf])"
    and auth: "\<forall>d \<in> set (ancs @ [leaf]). authenticate E keys d"
  shows "decided E keys leaf ancs now tool = Permit \<longleftrightarrow>
     successively (plain_hop E) (ancs @ [leaf]) \<and> \<not> is_expired_at E leaf now \<and> has_capability leaf tool"
proof
  assume dec: "decided E keys leaf ancs now tool = Permit"
  from permitted_chain [OF this] obtain docs where "presented_chain leaf (pb_new ancs) docs" "successively (plain_hop E) docs"
    by blast
  with presented_chain_unique [OF pb_ok_new(1) chain] dec
  show "successively (plain_hop E) (ancs @ [leaf]) \<and> \<not> is_expired_at E leaf now \<and> has_capability leaf tool"
    by (auto simp: decided_Permit)
next
  assume r: "successively (plain_hop E) (ancs @ [leaf]) \<and> \<not> is_expired_at E leaf now \<and> has_capability leaf tool"
  then have "successively (hop_contained E) (ancs @ [leaf])"
    by (auto simp: plain_hop_def elim!: successively_mono)
  from chain_alive [OF this] r have "\<forall>d \<in> set ancs. \<not> is_expired_at E d now" by simp
  moreover have "\<forall>d \<in> snd ` set (pb_documents (pb_new ancs)). authenticate E keys d"
    using pb_new_documents [of ancs] auth by auto
  ultimately have "verify_chain_at E keys leaf (pb_new ancs) ab_empty now = ChainVerification.Attenuated"
    unfolding verify_chain_at_Attenuated [OF pb_ok_new(1)] hop_ok_plain
    using chain auth r by (intro conjI exI [of _ "ancs @ [leaf]"]) simp_all
  with r show "decided E keys leaf ancs now tool = Permit" by (simp add: decided_Permit)
qed

lemma chain_verdict_iff:
  assumes chain: "presented_chain leaf (pb_new ancs) (ancs @ [leaf])"
    and auth: "\<forall>d \<in> set (ancs @ [leaf]). verify_vaid_authenticity E (kn_public_key k) d"
  shows "chain_verdict E k leaf ancs now tool = Permit \<longleftrightarrow>
     successively (plain_hop E) (ancs @ [leaf]) \<and> \<not> is_expired_at E leaf now \<and> has_capability leaf tool"
  unfolding chain_verdict_def
proof (intro decided_iff [OF chain] ballI)
  fix d assume "d \<in> set (ancs @ [leaf])"
  with auth show "authenticate E (sk_resolve_key (sk_new E (kn_public_key k))) d"
    using authentic_under [of E "kn_public_key k" d "sk_resolve_key (sk_new E (kn_public_key k))"]
      single_key_resolves [of E "kn_public_key k"] by blast
qed

lemma chain_verdict_Deny: "chain_verdict E k leaf ancs now tool = Deny \<longleftrightarrow> chain_verdict E k leaf ancs now tool \<noteq> Permit"
  unfolding chain_verdict_def by (rule decided_Deny)

lemma plain_hop_built:
  assumes "rfc3339_ok E" and "e6_range eat" and "e6_range eat'"
  shows "plain_hop E (build_doc_ex E k i p iat eat caps scope td) (build_doc_ex E k j q iat' eat' caps' scope' td) \<longleftrightarrow>
     scope_attenuates_within scope scope' \<and> set caps' \<subseteq> set caps \<and> trunc_secs eat' \<le> trunc_secs eat"
  using rfc3339_okD [OF assms(1,2)] rfc3339_okD [OF assms(1,3)]
  by (auto simp: plain_hop_def hop_contained_def scope_attenuates_def caps_attenuate_def caps_attenuate_within_iff
        expiry_attenuates_def expiry_attenuates_within_iff format_e6_def parse_rfc3339_def)

lemma built_expired:
  assumes "rfc3339_ok E" and "e6_range eat"
  shows "is_expired_at E (build_doc_ex E k i p iat eat caps scope td) now \<longleftrightarrow> trunc_secs eat < now"
  using rfc3339_okD [OF assms] by (simp add: is_expired_at_def expires_at_def format_e6_def parse_rfc3339_def)

lemma trunc_ts [simp]: "trunc_secs (ts s) = ts s"
  by (simp add: ts_def trunc_secs_def nanos_per_sec_def)

lemma ts_le [simp]: "ts a \<le> ts b \<longleftrightarrow> a \<le> b" "ts a < ts b \<longleftrightarrow> a < b"
  by (simp_all add: ts_def nanos_per_sec_def)

text \<open>The instants of the suite are far from both ends of the representable years.\<close>

definition secs_ok :: "int \<Rightarrow> bool" where
  "secs_ok secs \<longleftrightarrow> - 62167219200 + 7200 \<le> secs \<and> secs + 7200 < 253402300800"

lemma secs_ok_range: "secs_ok secs \<Longrightarrow> - 7200 \<le> d \<Longrightarrow> d \<le> 7200 \<Longrightarrow> e6_range (ts (secs + d))"
  by (simp add: secs_ok_def e6_range_def ts_def nanos_per_sec_def)

text \<open>What the verdicts rest on: the laws of the libraries, and three identifiers drawn apart.\<close>

definition harness_ready :: "ext \<Rightarrow> harness \<Rightarrow> (nat \<Rightarrow> uuid) \<Rightarrow> int \<Rightarrow> bool" where
  "harness_ready E h fresh secs \<longleftrightarrow>
     ed25519_correct E \<and> rfc3339_ok E \<and> uuid_text_ok E \<and> harness_new E = Some h \<and>
     distinct [fresh 0, fresh 1, fresh 2] \<and> secs_ok secs"

lemma harness_readyD:
  assumes "harness_ready E h fresh secs"
  shows "ed25519_correct E" "rfc3339_ok E" "uuid_text_ok E" "kernel_ok E (hn_kernel h)" "kernel_ok E (hn_untrusted h)"
    "kernel_ok E (hn_kernel2 h)" "fresh 0 \<noteq> fresh 1" "fresh 0 \<noteq> fresh 2" "fresh 1 \<noteq> fresh 2"
    "- 7200 \<le> d \<Longrightarrow> d \<le> 7200 \<Longrightarrow> e6_range (ts (secs + d))"
  using assms harness_new_ok [of E h] secs_ok_range [of secs d] by (auto simp: harness_ready_def)

lemma root_alone:
  "parent_vaid d = None \<Longrightarrow> presented_chain d (pb_new []) ([] @ [d])"
  by (rule presented_list) (simp_all add: pinned_def MAX_LINEAGE_DEPTH_def)

lemma single_root_verdict:
  assumes r: "harness_ready E h fresh secs" and "- 7200 \<le> to" "to \<le> 7200"
  shows "chain_verdict E (hn_kernel h) (build_doc_ex E (hn_kernel h) i None iat (ts (secs + to)) caps scope TRUST_DOMAIN) [] (ts secs) tool
      = Permit \<longleftrightarrow> 0 \<le> to \<and> tool \<in> set caps"
proof -
  note f = harness_readyD [OF r]
  let ?d = "build_doc_ex E (hn_kernel h) i None iat (ts (secs + to)) caps scope TRUST_DOMAIN"
  have "verify_vaid_authenticity E (kn_public_key (hn_kernel h)) ?d"
    using build_doc_authentic [OF f(1,4) harness_domains(1)] .
  then have "chain_verdict E (hn_kernel h) ?d [] (ts secs) tool = Permit \<longleftrightarrow>
      \<not> is_expired_at E ?d (ts secs) \<and> has_capability ?d tool"
    by (subst chain_verdict_iff [OF root_alone]) simp_all
  then show ?thesis
    by (simp add: built_expired [OF f(2) f(10) [OF assms(2,3)]] has_capability_def caps_contain_def list_ex_iff not_less)
qed

lemma two_verdict:
  assumes r: "harness_ready E h fresh secs" and b: "- 7200 \<le> rt" "rt \<le> 7200" "- 7200 \<le> lt" "lt \<le> 7200"
    and root: "root = build_doc_ex E (hn_kernel h) (fresh 0) None riat (ts (secs + rt)) rcaps rscope TRUST_DOMAIN"
  shows "chain_verdict E (hn_kernel h)
      (build_doc_ex E (hn_kernel h) (fresh 1) (Some root) liat (ts (secs + lt)) lcaps lscope TRUST_DOMAIN) [root] (ts secs) tool = Permit
    \<longleftrightarrow> scope_attenuates_within rscope lscope \<and> set lcaps \<subseteq> set rcaps \<and> lt \<le> rt \<and> 0 \<le> lt \<and> tool \<in> set lcaps"
proof -
  note f = harness_readyD [OF r]
  let ?leaf = "build_doc_ex E (hn_kernel h) (fresh 1) (Some root) liat (ts (secs + lt)) lcaps lscope TRUST_DOMAIN"
  have "presented_chain ?leaf (pb_new [root]) ([root] @ [?leaf])"
    using f(7) by (intro presented_list) (simp_all add: root pinned_def MAX_LINEAGE_DEPTH_def)
  moreover have "\<forall>d \<in> set ([root] @ [?leaf]). verify_vaid_authenticity E (kn_public_key (hn_kernel h)) d"
    using build_doc_authentic [OF f(1,4) harness_domains(1)] by (simp add: root)
  ultimately have "chain_verdict E (hn_kernel h) ?leaf [root] (ts secs) tool = Permit \<longleftrightarrow>
      plain_hop E root ?leaf \<and> \<not> is_expired_at E ?leaf (ts secs) \<and> has_capability ?leaf tool"
    by (subst chain_verdict_iff) simp_all
  then show ?thesis
    unfolding root
    by (auto simp: built_expired [OF f(2) f(10) [OF b(3,4)]] plain_hop_built [OF f(2) f(10) [OF b(1,2)] f(10) [OF b(3,4)]]
        has_capability_def caps_contain_def list_ex_iff not_less)
qed

lemma pair_verdict_iff:
  assumes "harness_ready E h fresh secs" and "- 7200 \<le> rt" "rt \<le> 7200" "- 7200 \<le> lt" "lt \<le> 7200"
  shows "pair_verdict E h fresh secs tool rt rcaps lf lt lcaps =
     (if set lcaps \<subseteq> set rcaps \<and> lt \<le> rt \<and> 0 \<le> lt \<and> tool \<in> set lcaps then Permit else Deny)"
proof -
  have "scope_attenuates_within [] []" by (simp add: scope_attenuates_within_prefixes)
  with two_verdict [OF assms refl] show ?thesis
    by (simp add: pair_verdict_def root_doc_def child_doc_def build_doc_def chain_verdict_Deny Let_def)
qed

lemma scoped_pair_verdict_iff:
  assumes "harness_ready E h fresh secs"
  shows "scoped_pair_verdict E h fresh secs tool rs ls = (if scope_attenuates_within rs ls then Permit else Deny)"
  using two_verdict [OF assms, of 3600 1800, OF _ _ _ _ refl]
  by (simp add: scoped_pair_verdict_def scoped_root_def scoped_child_def chain_verdict_Deny Let_def)

lemma j9_4_Permit: "harness_ready E h fresh secs \<Longrightarrow> j9_4_verdict E h fresh secs tool = Permit"
  using two_verdict [of E h fresh secs 7200 3600, OF _ _ _ _ _ refl]
  by (simp add: j9_4_verdict_def root_doc_def child_doc_def build_doc_def scope_attenuates_within_prefixes Let_def)

lemma j3_Permit:
  assumes r: "harness_ready E h fresh secs"
  shows "j3_verdict E h fresh secs tool = Permit"
proof -
  note f = harness_readyD [OF r]
  define root where "root = root_doc E h (fresh 0) secs (-600) 7200 [tool, ''search_index'']"
  define mid where "mid = child_doc E h (fresh 1) root secs (-300) 3600 [tool]"
  define leaf where "leaf = child_doc E h (fresh 2) mid secs (-60) 1800 [tool]"
  note docs = root_def mid_def leaf_def root_doc_def child_doc_def build_doc_def
  have "presented_chain leaf (pb_new [root, mid]) ([root, mid] @ [leaf])"
    using f(7-9) by (intro presented_list) (simp_all add: docs pinned_def MAX_LINEAGE_DEPTH_def)
  moreover have "\<forall>d \<in> set ([root, mid] @ [leaf]). verify_vaid_authenticity E (kn_public_key (hn_kernel h)) d"
    using build_doc_authentic [OF f(1,4) harness_domains(1)] by (simp add: docs)
  moreover have "scope_attenuates_within [] []" by (simp add: scope_attenuates_within_prefixes)
  then have "plain_hop E root mid" "plain_hop E mid leaf"
    using f(10) by (auto simp: docs plain_hop_built [OF f(2)])
  moreover have "\<not> is_expired_at E leaf (ts secs)" "has_capability leaf tool"
    using f(10) by (simp_all add: docs built_expired [OF f(2)] has_capability_def caps_contain_def)
  ultimately have "chain_verdict E (hn_kernel h) leaf [root, mid] (ts secs) tool = Permit"
    by (subst chain_verdict_iff) simp_all
  then show ?thesis by (simp add: j3_verdict_def root_def mid_def leaf_def Let_def)
qed

text \<open>An unknown key, and a known one outside its domain.\<close>

lemma j14_c_Deny:
  assumes "kn_thumbprint (hn_untrusted h) \<noteq> kn_thumbprint (hn_kernel h)" and "kernel_ok E (hn_kernel h)"
  shows "j14_c_verdict E h fresh secs tool = Deny"
proof -
  have "\<not> authenticate E (sk_resolve_key (sk_new E (kn_public_key (hn_kernel h))))
      (build_doc E (hn_untrusted h) (fresh 0) None (ts (secs - 300)) (ts (secs + 3600)) [tool])"
    using assms by (simp add: authenticate_def build_doc_def sk_resolve_key_def sk_new_def kernel_ok_def)
  then show ?thesis
    by (simp add: j14_c_verdict_def chain_verdict_def decided_def verify_chain_at_def Let_def)
qed

lemma as_key_map_resolves:
  assumes ok: "\<forall>(k, domain) \<in> set entries. kernel_ok E k"
    and look: "map_of (tim_by_thumbprint (tim_new entries)) t = Some (pk, domain)"
  shows "km_resolve_key (as_key_map E (tim_new entries)) t = Some pk"
proof -
  let ?m = "tim_by_thumbprint (tim_new entries)"
  let ?kvs = "map (\<lambda>k. (kernel_key_thumbprint E k, k)) (map (fst \<circ> snd) ?m)"
  have dist: "distinct (map fst ?m)" using tim_ok [of entries] by (rule map_ok_distinct)
  have "kernel_key_thumbprint E (fst (snd e)) = fst e" if "e \<in> set ?m" for e
  proof -
    obtain t' pk' d' where e: "e = (t', pk', d')" by (metis surj_pair)
    with that dist have "map_of ?m t' = Some (pk', d')" by simp
    from tim_entry [OF this] ok show ?thesis by (auto simp: e kernel_ok_def)
  qed
  then have keys: "map fst ?kvs = map fst ?m" by simp
  have "distinct (map fst ?kvs)" unfolding keys by (rule dist)
  moreover have "(t, pk) \<in> set ?kvs"
    using map_of_SomeD [OF look] tim_entry [OF look] ok by (force simp: kernel_ok_def)
  ultimately show ?thesis
    by (simp only: km_resolve_key_def as_key_map_def km_new_def kernel_key_map.simps map_of_collect_distinct map_of_is_SomeI)
qed

lemma second_anchor_iff:
  assumes r: "harness_ready E h fresh secs" and apart: "kn_thumbprint (hn_kernel2 h) \<noteq> kn_thumbprint (hn_kernel h)"
    and d: "is_valid_trust_domain domain"
  shows "second_anchor_verdict E h fresh secs tool domain = (if domain = TRUST_DOMAIN_2 then Permit else Deny)"
proof -
  note f = harness_readyD [OF r]
  let ?root = "build_doc_ex E (hn_kernel2 h) (fresh 0) None (ts (secs - 300)) (ts (secs + 3600)) [tool] [] domain"
  let ?keys = "km_resolve_key (as_key_map E (trust_map h))"
  have "distinct (map fst (map (\<lambda>(k, domain). (kn_thumbprint k, kn_public_key k, domain))
      [(hn_kernel h, TRUST_DOMAIN), (hn_kernel2 h, TRUST_DOMAIN_2)]))" using apart by simp
  from map_of_collect_distinct [OF this]
  have look: "map_of (tim_by_thumbprint (trust_map h)) (kn_thumbprint (hn_kernel2 h)) =
      Some (kn_public_key (hn_kernel2 h), TRUST_DOMAIN_2)"
    using apart by (simp add: trust_map_def tim_new_def)
  then have bind: "binds (trust_map h) ?root \<longleftrightarrow> domain = TRUST_DOMAIN_2"
    by (auto simp: binds_def trust_domain_for_def)
  have "?keys (kn_thumbprint (hn_kernel2 h)) = Some (kn_public_key (hn_kernel2 h))"
    using look f(4,6) unfolding trust_map_def by (intro as_key_map_resolves) auto
  then have "authenticate E ?keys ?root"
    using build_doc_authentic [OF f(1,6) d] by (simp add: authenticate_def)
  moreover have "\<not> is_expired_at E ?root (ts secs)"
    using f(10) by (simp add: built_expired [OF f(2)])
  ultimately have "decided E ?keys ?root [] (ts secs) tool = Permit"
    by (subst decided_iff [OF root_alone]) (simp_all add: has_capability_def caps_contain_def)
  with bind show ?thesis
    by (cases "domain = TRUST_DOMAIN_2") (simp_all add: second_anchor_verdict_def chain_verdict_with_binding_def Let_def)
qed

section \<open>Unknown members and unknown kinds\<close>

lemma unknown_kind_Deny:
  assumes r: "harness_ready E h fresh secs"
  shows "unknown_kind_verdict E h i secs tool = Some Deny"
proof -
  note f = harness_readyD [OF r]
  have new: "scope_entry_new ''future-constraint-kind-v99'' (JString ''whatever-value'') =
      Inr \<lparr>se_kind = ''future-constraint-kind-v99'', se_value = JString ''whatever-value''\<rparr>"
    by code_simp
  have unread: "\<not> boundary_is_evaluable [\<lparr>se_kind = ''future-constraint-kind-v99'', se_value = JString ''whatever-value''\<rparr>]"
    by code_simp
  have graded: "verify_vaid_authenticity_graded E (kn_public_key (hn_kernel h))
      (scoped_root E h i secs (-300) 3600 [tool] b) = Valid" for b
    using build_doc_authentic [OF f(1,4) harness_domains(1)]
    by (simp add: scoped_root_def verify_vaid_authenticity_def)
  have "\<not> is_expired_at E (scoped_root E h i secs (-300) 3600 [tool] b) (ts secs)" for b
    using f(10) by (simp add: scoped_root_def built_expired [OF f(2)])
  with graded unread show ?thesis
    by (simp add: unknown_kind_verdict_def new Let_def) (simp add: scoped_root_def)
qed

lemma map_collect_snoc: "map_collect (kvs @ [(k, v)]) = map_insert k v (map_collect kvs)"
  by (simp add: map_collect_def)

lemma unknown_member_Permit:
  assumes r: "harness_ready E h fresh secs"
  shows "unknown_member_verdict E h i secs tool = Some Permit"
proof -
  note f = harness_readyD [OF r]
  define root where "root = root_doc E h i secs (-300) 3600 [tool]"
  define claim where "claim = (''x_harness_unrecognized_claim'', JString ''ignored-by-a-conforming-verifier'')"
  define d where "d = root\<lparr>vd_unknown_fields := [claim]\<rparr>"
  have unknown: "vd_unknown_fields root = []"
    by (simp add: root_def root_doc_def build_doc_def build_doc_ex_def with_lineage_def with_kernel_signature_def Let_def)
  have "vaid_ok E root"
    using f(3) by (simp add: root_def root_doc_def build_doc_def build_doc_ex_def Let_def with_lineage_ok)
  then have ok: "vaid_ok E d"
    by (simp add: d_def claim_def vaid_ok_def map_ok_def vaid_member_names_def)
  have "object_insert (fst claim) (snd claim) (ser_vaid root) = ser_vaid d"
    by (simp add: d_def object_insert_def ser_vaid_def vaid_all_members_def vaid_members_def unknown map_collect_snoc [symmetric])
  with de_ser_vaid [OF ok]
  have de: "de_vaid E (object_insert ''x_harness_unrecognized_claim'' (JString ''ignored-by-a-conforming-verifier'') (ser_vaid root)) = Some d"
    by (simp add: claim_def)
  let ?s = "with_kernel_signature d (kernel_sign E (hn_kernel h) (canonical_vaid_signing_bytes E d))"
  have same: "vd_trust_domain ?s = TRUST_DOMAIN" "vd_kernel_key_thumbprint ?s = kn_thumbprint (hn_kernel h)"
    "vd_sig_version ?s = VAID_SIG_VERSION_V4" "parent_vaid ?s = None" "agent_id ?s = i"
    "vd_lineage_hash ?s = compute_lineage_hash E None i" "vd_capability_set ?s = [tool]"
    "vd_expires_at ?s = format_e6 E (ts (secs + 3600))"
    by (simp_all add: d_def root_def root_doc_def build_doc_def build_doc_ex_def with_lineage_def with_kernel_signature_def
          parent_vaid_def agent_id_def presented_of_uuid_def Let_def)
  have "ext_verify E (kn_public_key (hn_kernel h)) (canonical_vaid_signing_bytes E ?s) (vd_kernel_signature ?s)"
    using f(4)
    by (simp add: signing_bytes_unsigned [OF ok])
       (simp add: with_kernel_signature_def kernel_sign_def kernel_ok_def ed25519_correctD [OF f(1)])
  then have "verify_vaid_authenticity E (kn_public_key (hn_kernel h)) ?s"
    using f(4) harness_domains(1) by (simp add: authentic_iff same verify_lineage_hash_def kernel_ok_def)
  moreover have "\<not> is_expired_at E ?s (ts secs)"
    using rfc3339_okD [OF f(2) f(10) [of 3600]] by (simp add: is_expired_at_def expires_at_def same format_e6_def parse_rfc3339_def)
  ultimately have "chain_verdict E (hn_kernel h) ?s [] (ts secs) tool = Permit"
    by (subst chain_verdict_iff [OF root_alone]) (simp_all add: same has_capability_def caps_contain_def)
  with de show ?thesis
    by (simp add: unknown_member_verdict_def root_def [symmetric] Let_def)
qed

section \<open>Tampered documents\<close>

text \<open>J.14 rests on one fact about the signature: with its bit flipped it no longer verifies.\<close>

definition flip_refused :: "ext \<Rightarrow> harness \<Rightarrow> uuid \<Rightarrow> int \<Rightarrow> string \<Rightarrow> bool" where
  "flip_refused E h i secs tool =
     (let root = root_doc E h i secs (-300) 3600 [tool] in
      case vd_kernel_signature root of
        [] \<Rightarrow> False
      | b # bs \<Rightarrow> \<not> ext_verify E (kn_public_key (hn_kernel h)) (canonical_vaid_signing_bytes E root) (xor b 1 # bs))"

lemma unauthenticated_Deny:
  assumes "\<not> verify_vaid_authenticity E (kn_public_key k) leaf"
  shows "chain_verdict E k leaf ancs now tool = Deny"
proof -
  have "\<not> authenticate E (sk_resolve_key (sk_new E (kn_public_key k))) leaf"
    using assms by (simp add: authenticate_def sk_resolve_key_def sk_new_def)
  then show ?thesis by (simp add: chain_verdict_def decided_def verify_chain_at_def Let_def)
qed

lemma tampered_Deny:
  assumes "flip_refused E h i secs tool"
  shows "tampered_verdict E h i secs tool = Some Deny"
proof -
  define root where "root = root_doc E h i secs (-300) 3600 [tool]"
  have "vd_unknown_fields root = []"
    by (simp add: root_def root_doc_def build_doc_def build_doc_ex_def with_lineage_def with_kernel_signature_def Let_def)
  then have same: "canonical_vaid_signing_bytes E (with_kernel_signature root sig) = canonical_vaid_signing_bytes E root" for sig
    by (rule constructed_signing_bytes)
  from assms obtain b bs where sig: "vd_kernel_signature root = b # bs"
    and "\<not> ext_verify E (kn_public_key (hn_kernel h)) (canonical_vaid_signing_bytes E root) (xor b 1 # bs)"
    by (auto simp: flip_refused_def root_def Let_def split: list.splits)
  then have "\<not> verify_vaid_authenticity E (kn_public_key (hn_kernel h)) (with_kernel_signature root (xor b 1 # bs))"
    by (simp add: authentic_iff same) (simp add: with_kernel_signature_def)
  with sig show ?thesis by (simp add: tampered_verdict_def root_def unauthenticated_Deny Let_def)
qed

text \<open>The JSON writer, at one document: an object of the grammar with the members' names in their order.\<close>

definition writes_members :: "((string \<times> json) list \<Rightarrow> string) \<Rightarrow> (string \<times> json) list \<Rightarrow> bool" where
  "writes_members to_text kvs \<longleftrightarrow> (\<exists>ms. map fst ms = map fst kvs \<and> jvalue (TObj ms) (to_text kvs))"

inductive_cases jvalue_TObjE: "jvalue (TObj ms) s"
inductive_cases jmembers_ConsE: "jmembers (m # ms) s"

lemma jmembers_snoc:
  assumes "jmembers ms s" and "ms \<noteq> []" and "ws w" and "raw_body k" and "jvalue v t"
  shows "jmembers (ms @ [(k, v)]) (s @ '','' @ w @ quoted k @ '':'' @ t)"
  using assms(1,2)
proof (induction ms arbitrary: s)
  case (Cons m ms)
  have last: "jmembers [(k, v)] (w @ quoted k @ '':'' @ t)"
    using jmembers_one [OF assms(3,4) _ _ assms(5), of "[]" "[]" "[]"] by (simp add: ws_def)
  show ?case
  proof (rule jmembers_ConsE [OF Cons.prems(1)])
    fix w1 k' w2 w3 v' s' w4
    assume "s = w1 @ quoted k' @ w2 @ CHR '':'' # w3 @ s' @ w4" "m = (k', v')" "ms = []"
      and parts: "ws w1" "raw_body k'" "ws w2" "ws w3" "jvalue v' s'" "ws w4"
    with jmembers_more [OF parts last] show ?thesis by simp
  next
    fix w1 k' w2 w3 v' s' w4 m' ms' t'
    assume s: "s = w1 @ quoted k' @ w2 @ CHR '':'' # w3 @ s' @ w4 @ CHR '','' # t'" "m = (k', v')" "ms = m' # ms'"
      and parts: "ws w1" "raw_body k'" "ws w2" "ws w3" "jvalue v' s'" "ws w4" and rest: "jmembers (m' # ms') t'"
    have "jmembers ((m' # ms') @ [(k, v)]) (t' @ '','' @ w @ quoted k @ '':'' @ t)"
      using Cons.IH [of t'] rest s(3) by simp
    with s jmembers_more [OF parts, of m' "ms' @ [(k, v)]"] show ?thesis by simp
  qed
qed simp

lemma spliced_Deny:
  assumes "writes_members to_text (vaid_all_members (root_doc E h i secs (-300) 3600 [tool]))"
  shows "spliced_verdict E to_text wall h i secs tool = Some Deny"
proof -
  define kvs where "kvs = vaid_all_members (root_doc E h i secs (-300) 3600 [tool])"
  from assms obtain ms where ms: "map fst ms = map fst kvs" "jvalue (TObj ms) (to_text kvs)"
    by (auto simp: writes_members_def kvs_def)
  from ms(2) obtain s where s: "to_text kvs = ''{'' @ s @ ''}''" "jmembers ms s" by (auto elim: jvalue_TObjE)
  have tenant: "''tenant_id'' \<in> set (map fst ms)"
    unfolding ms(1) by (simp add: kvs_def vaid_all_members_def vaid_members_def)
  then have "ms \<noteq> []" by auto
  moreover have "ws '' ''" "raw_body ''tenant_id''" "raw_body TENANT" by code_simp+
  ultimately have "jmembers (ms @ [(''tenant_id'', TStr TENANT)]) (s @ '','' @ '' '' @ quoted ''tenant_id'' @ '':'' @ quoted TENANT)"
    using s(2) by (intro jmembers_snoc jstr)
  from jobj [OF this]
  have "jvalue (TObj (ms @ [(''tenant_id'', TStr TENANT)])) (butlast (to_text kvs) @ '', \"tenant_id\":\"'' @ TENANT @ ''\"}'')"
    by (simp add: s(1) quoted_def butlast_append)
  moreover have "repeats_name (TObj (ms @ [(''tenant_id'', TStr TENANT)]))" using tenant by auto
  ultimately have "verify_vaid_standing_from_json E wall (kn_public_key (hn_kernel h))
      (butlast (to_text kvs) @ '', \"tenant_id\":\"'' @ TENANT @ ''\"}'') NotRevoked = Unparseable"
    using repeated_names_unparseable by blast
  then show ?thesis by (simp add: spliced_verdict_def kvs_def [symmetric] s(1) Let_def)
qed

section \<open>The answers\<close>

lemma wider_scopes:
  "scope_attenuates_within [prefix_entry ''data.allowed''] [prefix_entry ''data.''] = False"
  "scope_attenuates_within [prefix_entry ''data.allowed''] [] = False"
  by code_simp+

text \<open>What every run over a suite answers, vector by vector.\<close>

lemma harness_answers:
  fixes to_text wall
  assumes r: "harness_ready E h fresh secs"
    and apart: "kn_thumbprint (hn_untrusted h) \<noteq> kn_thumbprint (hn_kernel h)" "kn_thumbprint (hn_kernel2 h) \<noteq> kn_thumbprint (hn_kernel h)"
    and flip: "flip_refused E h (fresh 0) secs tool"
    and writes: "writes_members to_text (vaid_all_members (root_doc E h (fresh 0) secs (-300) 3600 [tool]))"
  defines "answer \<equiv> \<lambda>grp vid. vector_entry E to_text wall h fresh grp vid secs tool"
  shows "answer ''1'' vid = Some Permit" "answer ''3'' vid = Some Permit" "answer ''9'' ''J.9.4'' = Some Permit"
    "answer ''27'' ''J.27.1'' = Some Permit" "answer ''21'' ''J.21.23'' = Some Permit"
    "answer ''5'' vid = Some Deny" "answer ''13'' ''J.13'' = Some Deny"
    "answer ''13'' ''J.13.c'' = Some Deny" "answer ''14'' ''J.14'' = Some Deny" "answer ''14'' ''J.14.c'' = Some Deny"
    "answer ''23'' ''J.23.1'' = Some Deny" "answer ''23'' ''J.23.4'' = Some Deny"
    "answer ''21'' ''J.21.22'' = Some Deny" "answer ''8'' ''J.8.3'' = Some Deny" "answer ''8'' ''J.8.5'' = Some Deny"
    "answer ''11'' ''J.11'' = Some Deny" "answer ''19'' ''J.19.11'' = Some Deny" "answer ''19'' ''J.19.15'' = Some Deny"
    "answer ''9'' ''J.9.3'' = Some (if tool = ''other_tool'' then Permit else Deny)"
    "answer ''11'' ''J.11.b'' = Some (if tool = ''other_tool'' then Permit else Deny)"
    "answer ''26'' ''J.26.1'' = Some (if tool = ''other_tool'' then Permit else Deny)"
    "answer ''9'' ''J.9.6'' = Some (if tool = ''read_file'' then Permit else Deny)"
proof -
  note f = harness_readyD [OF r]
  note [simp] = answer_def vector_entry_def
  have domains: "TRUST_DOMAIN \<noteq> TRUST_DOMAIN_2" by (simp add: TRUST_DOMAIN_def TRUST_DOMAIN_2_def)
  show "answer ''1'' vid = Some Permit"
    using single_root_verdict [OF r, of 3600] by (simp add: j1_verdict_def root_doc_def build_doc_def)
  show "answer ''5'' vid = Some Deny"
    using single_root_verdict [OF r, of "-3600"] by (simp add: j5_verdict_def root_doc_def build_doc_def chain_verdict_Deny)
  show "answer ''3'' vid = Some Permit" using j3_Permit [OF r] by simp
  show "answer ''9'' ''J.9.4'' = Some Permit" using j9_4_Permit [OF r] by simp
  show "answer ''27'' ''J.27.1'' = Some Permit" using unknown_member_Permit [OF r] by simp
  show "answer ''21'' ''J.21.23'' = Some Permit" "answer ''21'' ''J.21.22'' = Some Deny"
    using second_anchor_iff [OF r apart(2)] harness_domains domains by simp_all
  show "answer ''14'' ''J.14'' = Some Deny" using tampered_Deny [OF flip] by simp
  show "answer ''14'' ''J.14.c'' = Some Deny" using j14_c_Deny [OF apart(1) f(4)] by simp
  show "answer ''23'' ''J.23.1'' = Some Deny" by simp
  show "answer ''23'' ''J.23.4'' = Some Deny" using spliced_Deny [OF writes] by simp
  show "answer ''8'' ''J.8.3'' = Some Deny" "answer ''8'' ''J.8.5'' = Some Deny" using unknown_kind_Deny [OF r] by simp_all
  show "answer ''11'' ''J.11'' = Some Deny" "answer ''19'' ''J.19.11'' = Some Deny" "answer ''19'' ''J.19.15'' = Some Deny"
    by (simp_all add: scoped_pair_verdict_iff [OF r] wider_scopes)
  show "answer ''13'' ''J.13'' = Some Deny" "answer ''13'' ''J.13.c'' = Some Deny"
    "answer ''9'' ''J.9.3'' = Some (if tool = ''other_tool'' then Permit else Deny)"
    "answer ''11'' ''J.11.b'' = Some (if tool = ''other_tool'' then Permit else Deny)"
    "answer ''26'' ''J.26.1'' = Some (if tool = ''other_tool'' then Permit else Deny)"
    "answer ''9'' ''J.9.6'' = Some (if tool = ''read_file'' then Permit else Deny)"
    by (auto simp: pair_verdict_iff [OF r])
qed

end
