(* ===== verification/Vaid_Firewall.thy ===== *)
theory Vaid_Firewall
  imports Vaid_Error Vaid_External "HOL-Library.Product_Lexorder"
begin

text \<open>
  What the two packaged conformance programs (\<^verbatim>\<open>crates/vaid-mint/src/bin/conformance.rs\<close> and
  \<^verbatim>\<open>crates/vaid-pop/src/bin/conformance.rs\<close>) share: their error, the reading of hex, loops with an
  early return, and the run over the embedded vectors, which must be exactly the vectors of the
  table of checks.  The embedded vectors are an argument (the build script writes them).  The
  locale \<open>vector_firewall\<close> is the contract of a table of checks; what a PASS means is proved in it
  once and holds of both programs.

  An error keeps the fixed part of its message.  A Rust panic, which stops the program with a
  code of its own, is the error \<open>Panicked\<close>.
\<close>

datatype conformance_error = Diverged string string string | Blocker string | Panicked

definition assert_hex :: "string \<Rightarrow> string \<Rightarrow> string \<Rightarrow> conformance_error + unit" where
  "assert_hex label got want = (if got \<noteq> want then Inl (Diverged label got want) else Inr ())"

section \<open>Hex\<close>

text \<open>\<^verbatim>\<open>u8::from_str_radix\<close> on two bytes: a leading plus sign is allowed.\<close>

definition hex_value :: "char \<Rightarrow> nat option" where
  "hex_value c =
     (let n = of_char c :: nat in
      if 48 \<le> n \<and> n \<le> 57 then Some (n - 48)
      else if 97 \<le> n \<and> n \<le> 102 then Some (n - 87)
      else if 65 \<le> n \<and> n \<le> 70 then Some (n - 55)
      else None)"

definition u8_from_hex :: "char \<Rightarrow> char \<Rightarrow> u8 option" where
  "u8_from_hex c d =
     (if c = CHR ''+'' then map_option word_of_nat (hex_value d)
      else do { a \<leftarrow> hex_value c; b \<leftarrow> hex_value d; Some (word_of_nat (16 * a + b)) })"

text \<open>A slice \<^verbatim>\<open>s[i..i + 2]\<close> panics past the end and inside a multi-byte character.\<close>

definition utf8_continuation :: "char \<Rightarrow> bool" where
  "utf8_continuation c = (128 \<le> (of_char c :: nat) \<and> (of_char c :: nat) < 192)"

fun hex_pairs :: "string \<Rightarrow> (char \<times> char) list option" where
  "hex_pairs [] = Some []"
| "hex_pairs [c] = None"
| "hex_pairs (c # d # rest) =
     (if rest \<noteq> [] \<and> utf8_continuation (hd rest) then None
      else map_option (Cons (c, d)) (hex_pairs rest))"

text \<open>The mint's reader skips a pair that is not a number, the request crate's panics on it.\<close>

definition unhex_lossy :: "string \<Rightarrow> conformance_error + bytes" where
  "unhex_lossy s = map_sum id (List.map_filter (\<lambda>(c, d). u8_from_hex c d)) (ok_or Panicked (hex_pairs s))"

definition unhex_strict :: "string \<Rightarrow> conformance_error + bytes" where
  "unhex_strict s = and_then (ok_or Panicked (hex_pairs s))
     (\<lambda>ps. ok_or Panicked (those (map (\<lambda>(c, d). u8_from_hex c d) ps)))"

section \<open>Reading a vector\<close>

definition text_at :: "json \<Rightarrow> string \<Rightarrow> string" where
  "text_at v k = str_or_default (index_member v k)"

definition ed25519_at :: "json \<Rightarrow> string \<Rightarrow> string" where
  "ed25519_at v k = text_at (index_member v ''ed25519'') k"

definition array_or_empty :: "json \<Rightarrow> json list" where
  "array_or_empty v = (case as_array v of Some vs \<Rightarrow> vs | None \<Rightarrow> [])"

text \<open>\<^verbatim>\<open>Some(c) if !c.is_empty()\<close>\<close>

definition some_cases :: "json \<Rightarrow> string \<Rightarrow> json list option" where
  "some_cases v k = (case as_array (index_member v k) of Some (c # cs) \<Rightarrow> Some (c # cs) | _ \<Rightarrow> None)"

text \<open>A \<^verbatim>\<open>for\<close> loop whose body may return early.\<close>

fun for_each :: "('s \<Rightarrow> 'a \<Rightarrow> 'e + 's) \<Rightarrow> 's \<Rightarrow> 'a list \<Rightarrow> 'e + 's" where
  "for_each f s [] = Inr s"
| "for_each f s (x # xs) = and_then (f s x) (\<lambda>s'. for_each f s' xs)"

section \<open>The run\<close>

definition parse_value :: "ext \<Rightarrow> string \<Rightarrow> json option" where
  "parse_value E text = map_option value_norm (ext_parse_json E text)"

definition check_vector ::
  "ext \<Rightarrow> (string \<times> (json \<Rightarrow> conformance_error + unit)) list \<Rightarrow> (json \<Rightarrow> string) \<Rightarrow>
   (string \<times> string) list \<Rightarrow> string \<times> string \<Rightarrow> conformance_error + (string \<times> string) list" where
  "check_vector E table report checked entry =
     (let (name, content) = entry in
      and_then (ok_or (Blocker (name @ '' is not valid JSON'')) (parse_value E content)) (\<lambda>v.
      case map_of table name of
        None \<Rightarrow> Inl Panicked
      | Some check \<Rightarrow> and_then (check v) (\<lambda>_. Inr (checked @ [(name, report v)]))))"

definition firewall_run ::
  "ext \<Rightarrow> (string \<times> (json \<Rightarrow> conformance_error + unit)) list \<Rightarrow> (json \<Rightarrow> string) \<Rightarrow>
   (string \<times> string) list \<Rightarrow> conformance_error + (string \<times> string) list" where
  "firewall_run E table report vectors =
     (let embedded = set (map fst vectors); known = set (map fst table) in
      if embedded = {} then Inl (Blocker ''no conformance vectors are embedded in this build'')
      else if \<not> embedded \<subseteq> known
      then Inl (Blocker ''vector(s) ship in this crate but no firewall check covers them'')
      else if \<not> known \<subseteq> embedded
      then Inl (Blocker ''firewall expects vector(s) that are not in this crate'')
      else and_then (for_each (check_vector E table report) [] vectors) (\<lambda>checked. Inr (sort checked)))"

text \<open>\<^verbatim>\<open>main\<close>: the exit code.\<close>

definition firewall_exit :: "conformance_error + (string \<times> string) list \<Rightarrow> nat" where
  "firewall_exit r = (case r of Inr checked \<Rightarrow> 0 | Inl Panicked \<Rightarrow> 101 | Inl e \<Rightarrow> 1)"

section \<open>Lemmas\<close>

lemma assert_hex_Inr [simp]: "assert_hex label got want = Inr u \<longleftrightarrow> got = want"
  by (simp add: assert_hex_def)

lemma assert_hex_refl [simp]: "assert_hex label got got = Inr ()"
  by simp

lemma hex_value_digit:
  assumes "n < 16"
  shows "hex_value (hex_digit n) = Some n" "\<not> utf8_continuation (hex_digit n)" "hex_digit n \<noteq> CHR ''+''"
proof -
  have "list_all (\<lambda>n. hex_value (hex_digit n) = Some n \<and> \<not> utf8_continuation (hex_digit n) \<and>
      hex_digit n \<noteq> CHR ''+'') [0..<16]" by code_simp
  with assms show "hex_value (hex_digit n) = Some n" "\<not> utf8_continuation (hex_digit n)"
    "hex_digit n \<noteq> CHR ''+''" by (simp_all add: list_all_iff)
qed

lemma hex_pairs_to_hex:
  "hex_pairs (to_hex bs) = Some (map (\<lambda>b. (hex_digit (unat b div 16), hex_digit (unat b mod 16))) bs)"
proof (induction bs)
  case (Cons b bs)
  have "to_hex bs \<noteq> [] \<longrightarrow> \<not> utf8_continuation (hd (to_hex bs))"
  proof (cases bs)
    case (Cons c cs)
    have "unat c div 16 < 16" using unsigned_less [of c, where ?'a = nat] by simp
    with Cons show ?thesis by (simp add: to_hex_def hex_value_digit)
  qed (simp add: to_hex_def)
  with Cons show ?case by (auto simp: to_hex_def)
qed (simp add: to_hex_def)

lemma u8_from_hex_digits: "u8_from_hex (hex_digit (unat b div 16)) (hex_digit (unat b mod 16)) = Some b"
proof -
  have "unat b div 16 < 16" using unsigned_less [of b, where ?'a = nat] by simp
  moreover have "16 * (unat b div 16) + unat b mod 16 = unat b" by presburger
  then have "word_of_nat (16 * (unat b div 16) + unat b mod 16) = b" by (metis of_nat_unat ucast_id)
  ultimately show ?thesis by (simp add: u8_from_hex_def hex_value_digit del: of_nat_add of_nat_mult)
qed

text \<open>Both readers invert \<^verbatim>\<open>to_hex\<close>.\<close>

lemma unhex_to_hex [simp]: "unhex_lossy (to_hex bs) = Inr bs" "unhex_strict (to_hex bs) = Inr bs"
  by (simp_all add: unhex_lossy_def unhex_strict_def hex_pairs_to_hex u8_from_hex_digits comp_def
        List.map_filter_def those_eq_Some)

lemma some_cases_Some: "some_cases v k = Some cs \<longleftrightarrow> as_array (index_member v k) = Some cs \<and> cs \<noteq> []"
  by (auto simp: some_cases_def split: option.splits list.splits)

text \<open>A loop over a state that each turn extends, and a loop that only checks.\<close>

lemma for_each_append:
  assumes "\<And>s x s'. f s x = Inr s' \<longleftrightarrow> P x \<and> s' = s @ [g x]"
  shows "for_each f s xs = Inr s' \<longleftrightarrow> list_all P xs \<and> s' = s @ map g xs"
  by (induction xs arbitrary: s) (auto simp: and_then_Inr assms)

lemma for_each_unit: "for_each f (u :: unit) xs = Inr v \<longleftrightarrow> list_all (\<lambda>x. f () x = Inr ()) xs"
  by (induction xs) (auto simp: and_then_Inr)

text \<open>An invariant of a loop, with the turns already made.\<close>

lemma for_each_invariant:
  assumes "for_each f s xs = Inr s'" and "I [] s"
    and "\<And>done x s s'. I done s \<Longrightarrow> x \<in> set xs \<Longrightarrow> f s x = Inr s' \<Longrightarrow> I (done @ [x]) s'"
  shows "I xs s'"
proof -
  have "for_each f s ys = Inr s' \<Longrightarrow> I zs s \<Longrightarrow> zs @ ys = xs \<Longrightarrow> I xs s'" for ys zs s
  proof (induction ys arbitrary: zs s)
    case (Cons y ys)
    then obtain t where "f s y = Inr t" "for_each f t ys = Inr s'" by (auto simp: and_then_Inr)
    moreover from this(1) have "I (zs @ [y]) t" using Cons.prems by (intro assms(3)) auto
    ultimately show ?case using Cons.IH [of t "zs @ [y]"] Cons.prems(3) by simp
  qed simp
  then show ?thesis using assms(1,2) by simp
qed

section \<open>The contract of a table of checks\<close>

definition vector_passes ::
  "ext \<Rightarrow> (string \<times> (json \<Rightarrow> conformance_error + unit)) list \<Rightarrow> string \<times> string \<Rightarrow> bool" where
  "vector_passes E table entry \<longleftrightarrow>
     (\<exists>v check. parse_value E (snd entry) = Some v \<and> (fst entry, check) \<in> set table \<and> check v = Inr ())"

definition vector_reported :: "ext \<Rightarrow> (json \<Rightarrow> string) \<Rightarrow> string \<times> string \<Rightarrow> string \<times> string" where
  "vector_reported E report entry = (fst entry, report (the (parse_value E (snd entry))))"

locale vector_firewall =
  fixes table :: "ext \<Rightarrow> (string \<times> (json \<Rightarrow> conformance_error + unit)) list"
    and report :: "json \<Rightarrow> string"
  assumes table_names: "distinct (map fst (table E))"
    and table_nonempty: "table E \<noteq> []"
begin

lemma check_vector_Inr:
  "check_vector E (table E) report checked entry = Inr checked' \<longleftrightarrow>
     vector_passes E (table E) entry \<and> checked' = checked @ [vector_reported E report entry]"
proof -
  have found: "(fst entry, check) \<in> set (table E) \<longleftrightarrow> map_of (table E) (fst entry) = Some check" for check
    using map_of_eq_Some_iff [OF table_names [of E]] by simp
  show ?thesis
    unfolding vector_passes_def vector_reported_def found check_vector_def
    by (cases "parse_value E (snd entry)"; cases "map_of (table E) (fst entry)")
       (auto simp: case_prod_beta and_then_Inr)
qed

text \<open>
  A PASS, exactly: the embedded vectors are the vectors of the table, every one of them parses and
  its check accepts it, and the report names them all in order.
\<close>

lemma run_passes_iff:
  "firewall_run E (table E) report vectors = Inr checked \<longleftrightarrow>
     set (map fst vectors) = set (map fst (table E)) \<and> list_all (vector_passes E (table E)) vectors \<and>
     checked = sort (map (vector_reported E report) vectors)"
  using table_nonempty [of E]
    for_each_append [where f = "check_vector E (table E) report" and s = "[]" and xs = vectors, OF check_vector_Inr]
  by (auto simp: firewall_run_def Let_def and_then_Inr)

text \<open>The lookup in the table never fails: only a check can make the run panic.\<close>

lemma run_panics:
  assumes "firewall_run E (table E) report vectors = Inl Panicked"
  shows "\<exists>name check v. (name, check) \<in> set (table E) \<and> check v = Inl Panicked"
proof -
  have known: "set (map fst vectors) \<subseteq> set (map fst (table E))"
    and loop: "for_each (check_vector E (table E) report) [] vectors = Inl Panicked"
    using assms unfolding firewall_run_def Let_def
    by (simp_all split: if_splits)
       (cases "for_each (check_vector E (table E) report) [] vectors"; simp)
  have "for_each (check_vector E (table E) report) s vs = Inl Panicked \<Longrightarrow> set vs \<subseteq> set vectors \<Longrightarrow>
      \<exists>name check v. (name, check) \<in> set (table E) \<and> check v = Inl Panicked" for s vs
  proof (induction vs arbitrary: s)
    case (Cons entry vs)
    obtain name content where entry: "entry = (name, content)" by force
    with Cons.prems(2) have "name \<in> set (map fst vectors)" by (force simp: image_iff)
    with known have "map_of (table E) name \<noteq> None" unfolding map_of_eq_None_iff by auto
    then obtain check where check: "map_of (table E) name = Some check" by blast
    show ?case
    proof (cases "check_vector E (table E) report s entry")
      case (Inl e)
      with Cons.prems(1) have "check_vector E (table E) report s entry = Inl Panicked" by simp
      then obtain v where "check v = Inl Panicked"
        using check by (cases "parse_value E content") (auto simp: entry check_vector_def and_then_def split: sum.splits)
      with map_of_SomeD [OF check] show ?thesis by blast
    next
      case (Inr s')
      with Cons show ?thesis by simp
    qed
  qed simp
  with loop show ?thesis by blast
qed

end

end
