(* ===== verification/Vaid_Mint_Firewall.thy ===== *)
theory Vaid_Mint_Firewall
  imports Vaid_Firewall Vaid_Chain
begin

text \<open>
  The conformance program of the mint crate (\<^verbatim>\<open>crates/vaid-mint/src/bin/conformance.rs\<close>): one check
  per vector file, the table of the checks and the run.  A check reads its vector as a JSON value
  and compares what this build computes with what is frozen in it; the predicate vectors must
  also keep cases of both outcomes.  The wall clock is read only by the standing cases of the
  verdict vector: \<open>clock i\<close> is what case number \<open>i\<close> reads.  Canonicalization of a value never
  fails (\<^verbatim>\<open>document.rs\<close> relies on the same), so the error branches behind it have no counterpart.
\<close>

definition doc_from :: "ext \<Rightarrow> json \<Rightarrow> conformance_error + vaid" where
  "doc_from E v = ok_or (Blocker ''vector document is not a valid VAID'') (de_vaid E v)"

definition seed_key :: "ext \<Rightarrow> string \<Rightarrow> json \<Rightarrow> string \<Rightarrow> conformance_error + keypair" where
  "seed_key E complaint v member_name =
     and_then (unhex_lossy (ed25519_at v member_name)) (\<lambda>seed. ok_or (Blocker complaint) (ext_from_seed E seed))"

section \<open>Vectors of bytes\<close>

definition check_mint :: "ext \<Rightarrow> json \<Rightarrow> conformance_error + unit" where
  "check_mint E v =
     and_then (doc_from E (index_member v ''input'')) (\<lambda>unsigned.
     let digest = canonical_vaid_signing_bytes E unsigned in
     and_then (assert_hex ''Rust document digest'' (to_hex digest) (text_at v ''digest_sha256_hex'')) (\<lambda>_.
     and_then (seed_key E ''vector kernel seed is not a valid Ed25519 seed'' v ''kernel_private_key_seed_hex'') (\<lambda>kp.
     and_then (assert_hex ''Rust kernel public key'' (to_hex (ext_public_key E kp))
       (ed25519_at v ''kernel_public_key_hex'')) (\<lambda>_.
     and_then (assert_hex ''Rust kernel signature'' (to_hex (ext_sign E kp digest)) (ed25519_at v ''signature_hex'')) (\<lambda>_.
     and_then (assert_hex ''Rust lineage_hash'' (compute_lineage_hash E (parent_vaid unsigned) (agent_id unsigned))
       (vd_lineage_hash unsigned)) (\<lambda>_.
     if ext_uuid_to_string E (vaid_id unsigned) \<noteq> ext_uuid_to_string E (agent_id unsigned)
     then Inl (Blocker ''vaid_id MUST equal agent_id'')
     else
       and_then (unhex_lossy (ed25519_at v ''signature_hex'')) (\<lambda>sig.
       if \<not> verify_vaid_authenticity E (ext_public_key E kp) (with_kernel_signature unsigned sig)
       then Inl (Blocker ''the frozen document must verify under the frozen kernel public key'')
       else Inr ())))))))"

definition check_mint_pop :: "ext \<Rightarrow> json \<Rightarrow> conformance_error + unit" where
  "check_mint_pop E v =
     and_then (seed_key E ''vector PoP seed is not a valid Ed25519 seed'' v ''private_key_seed_hex'') (\<lambda>kp.
     and_then (assert_hex ''Rust mint-PoP public key'' (to_hex (ext_public_key E kp)) (ed25519_at v ''public_key_hex'')) (\<lambda>_.
     and_then (unhex_lossy (text_at v ''digest_sha256_hex'')) (\<lambda>digest.
     and_then (assert_hex ''Rust mint-PoP signature'' (to_hex (ext_sign E kp digest)) (ed25519_at v ''signature_hex'')) (\<lambda>_.
     if get_member (index_member v ''input'') ''parentVaid'' \<noteq> Some Null
     then Inl (Blocker ''parentVaid must be a PRESENT JSON null in this vector'')
     else Inr ()))))"

definition check_attestation :: "ext \<Rightarrow> json \<Rightarrow> conformance_error + unit" where
  "check_attestation E v =
     and_then (ok_or (Blocker ''vector attestation does not deserialize'')
       (de_attestation E (index_member v ''attestation''))) (\<lambda>unsigned.
     let digest = canonical_attestation_signing_bytes E unsigned in
     and_then (assert_hex ''Rust attestation digest'' (to_hex digest) (text_at v ''digest_sha256_hex'')) (\<lambda>_.
     and_then (seed_key E ''attestation seed is not a valid Ed25519 seed'' v ''kernel_private_key_seed_hex'') (\<lambda>kp.
     and_then (assert_hex ''Rust attestation signature'' (to_hex (ext_sign E kp digest)) (text_at v ''signature_hex'')) (\<lambda>_.
     and_then (assert_hex ''attestation kernel_key_thumbprint'' (kernel_key_thumbprint E (ext_public_key E kp))
       (att_kernel_key_thumbprint unsigned)) (\<lambda>_.
     and_then (unhex_lossy (text_at v ''signature_hex'')) (\<lambda>sig.
     if \<not> verify_attestation_authenticity E (ext_public_key E kp) (with_signature unsigned sig)
     then Inl (Blocker ''the frozen attestation must verify as authentic under the frozen key'')
     else Inr ()))))))"

section \<open>Chains\<close>

fun verdict_name :: "ChainVerification \<Rightarrow> string" where
  "verdict_name ChainVerification.Attenuated = ''attenuated''"
| "verdict_name ChainVerification.Inauthentic = ''inauthentic''"
| "verdict_name Unverifiable = ''unverifiable''"
| "verdict_name NotAttenuated = ''not_attenuated''"
| "verdict_name ChainVerification.Expired = ''expired''"
| "verdict_name ConsentExpired = ''consent_expired''"

definition instant_of :: "ext \<Rightarrow> json \<Rightarrow> instant option" where
  "instant_of E v = as_str v \<bind> ext_parse_rfc3339 E"

text \<open>One document of a frozen chain: reproduce its digest and signature, then sign it.\<close>

definition reproduce_hop :: "ext \<Rightarrow> keypair \<Rightarrow> string \<Rightarrow> string \<Rightarrow> json \<Rightarrow> conformance_error + vaid" where
  "reproduce_hop E kp label complaint entry =
     and_then (ok_or (Blocker complaint) (de_vaid E (index_member entry ''document''))) (\<lambda>unsigned.
     let digest = canonical_vaid_signing_bytes E unsigned in
     and_then (assert_hex (label @ '' digest'') (to_hex digest) (text_at entry ''digest_sha256_hex'')) (\<lambda>_.
     and_then (assert_hex (label @ '' signature'') (to_hex (ext_sign E kp digest)) (text_at entry ''signature_hex'')) (\<lambda>_.
     and_then (unhex_lossy (text_at entry ''signature_hex'')) (\<lambda>sig.
     Inr (with_kernel_signature unsigned sig)))))"

definition role_of :: "json \<Rightarrow> string" where
  "role_of entry = (case as_str (index_member entry ''_role'') of Some r \<Rightarrow> r | None \<Rightarrow> ''?'')"

definition name_of :: "json \<Rightarrow> string" where
  "name_of case_value = (case as_str (index_member case_value ''name'') of Some n \<Rightarrow> n | None \<Rightarrow> ''<unnamed>'')"

text \<open>The verdict of this build on a chain under one key.\<close>

definition walk_verdict :: "ext \<Rightarrow> keypair \<Rightarrow> vaid list \<Rightarrow> instant \<Rightarrow> string" where
  "walk_verdict E kp docs now =
     verdict_name (verify_chain_at E (sk_resolve_key (sk_new E (ext_public_key E kp))) (last docs) (pb_new docs)
       ab_empty now)"

definition object_remove :: "string \<Rightarrow> json \<Rightarrow> json" where
  "object_remove k v = (case v of JObject ms \<Rightarrow> JObject (filter (\<lambda>m. fst m \<noteq> k) ms) | _ \<Rightarrow> v)"

definition check_chain :: "ext \<Rightarrow> json \<Rightarrow> conformance_error + unit" where
  "check_chain E v =
     and_then (seed_key E ''chain vector seed is not a valid Ed25519 seed'' v ''kernel_private_key_seed_hex'') (\<lambda>kp.
     and_then (ok_or (Blocker ''chain vector has no `chain` array'') (as_array (index_member v ''chain''))) (\<lambda>entries.
     and_then (for_each (\<lambda>docs entry.
         and_then (reproduce_hop E kp (''chain hop '' @ role_of entry) ''vector document is not a valid VAID'' entry)
           (\<lambda>d. Inr (docs @ [d]))) [] entries) (\<lambda>docs.
     let contract = JObject (map_collect
           [(''chain'', index_member v ''chain''),
            (''expected'', object_remove ''_comment'' (index_member v ''expected''))]) in
     and_then (assert_hex ''chain contract digest'' (to_hex (ext_sha256 E (ext_jcs E contract)))
       (text_at v ''digest_sha256_hex'')) (\<lambda>_.
     if docs = [] then Inl (Blocker ''chain vector is empty'')
     else
       and_then (ok_or (Blocker ''chain vector states no verification_instant'')
         (instant_of E (index_member (index_member v ''expected'') ''verification_instant''))) (\<lambda>now.
       if walk_verdict E kp docs now \<noteq> text_at (index_member v ''expected'') ''verification''
       then Inl (Blocker ''the installed verifier disagrees with the frozen walk'')
       else Inr ())))))"

definition expiry_case_ok :: "ext \<Rightarrow> json \<Rightarrow> bool" where
  "expiry_case_ok E c =
     (expiry_attenuates_within E (text_at c ''parent_expires_at'') (as_str (index_member c ''child_expires_at'')) \<longleftrightarrow>
      text_at c ''expected'' = ''permitted'')"

definition check_expiry_chain :: "ext \<Rightarrow> json \<Rightarrow> bool \<Rightarrow> json \<Rightarrow> conformance_error + bool" where
  "check_expiry_chain E v saw_positive_chain c =
     and_then (seed_key E ''vector seed is not a usable Ed25519 seed'' v ''kernel_private_key_seed_hex'') (\<lambda>kp.
     and_then (for_each (\<lambda>docs entry.
         and_then (reproduce_hop E kp (name_of c @ '' / '' @ role_of entry) ''does not deserialize'' entry)
           (\<lambda>d. Inr (docs @ [d]))) [] (array_or_empty (index_member c ''chain''))) (\<lambda>docs.
     if docs = [] then Inl (Blocker ''empty chain'')
     else
       and_then (ok_or (Blocker ''no verification_instant'') (instant_of E (index_member c ''verification_instant''))) (\<lambda>now.
       let want = text_at c ''expected_verification'' in
       if walk_verdict E kp docs now \<noteq> want
       then Inl (Blocker ''the installed verifier disagrees with the frozen expiry rule'')
       else Inr (saw_positive_chain \<or> want = ''attenuated''))))"

definition check_chain_expiry :: "ext \<Rightarrow> json \<Rightarrow> conformance_error + unit" where
  "check_chain_expiry E v =
     (let containments = array_or_empty (index_member v ''expiry_containment'');
          cases = array_or_empty (index_member v ''cases'') in
      if \<not> list_all (expiry_case_ok E) containments then Inl (Blocker ''expiry containment'')
      else if cases = [] then Inl (Blocker ''chain_expiry vector has no cases'')
      else
        and_then (for_each (check_expiry_chain E v) False cases) (\<lambda>saw_positive_chain.
        if \<not> saw_positive_chain then Inl (Blocker ''chain_expiry_v1 carries no positive control'')
        else if \<not> list_ex (\<lambda>c. as_str (index_member c ''expected'') = Some ''permitted'') containments
        then Inl (Blocker ''chain_expiry_v1 carries no positive containment control'')
        else Inr ()))"

section \<open>Vectors of predicates\<close>

text \<open>A boundary of a case, through the library's own entry decoder; \<^term>\<open>None\<close> is the error text.\<close>

definition boundary_of :: "json \<Rightarrow> scope_entry list option" where
  "boundary_of v = (case as_array v of None \<Rightarrow> None | Some es \<Rightarrow> those (map de_scope_entry es))"

text \<open>Bare prefix matching, the rule the scope vector must still tell from containment.\<close>

definition bare_prefix_match :: "scope_entry list \<Rightarrow> string \<Rightarrow> bool" where
  "bare_prefix_match b resource =
     list_ex (\<lambda>e. case entry_claimed_resource e of None \<Rightarrow> False | Some p \<Rightarrow> starts_with resource p) b"

record scope_tally =
  st_positives :: nat
  st_negatives :: nat
  st_disagreements :: nat

definition check_scope_case :: "scope_tally \<Rightarrow> json \<Rightarrow> conformance_error + scope_tally" where
  "check_scope_case tally c =
     and_then (ok_or (Blocker ''scope case boundary is not well formed'') (boundary_of (index_member c ''boundary''))) (\<lambda>boundary.
     let resource = text_at c ''resource'' in
     and_then (ok_or (Blocker ''scope case has no boolean `expected`'') (as_bool (index_member c ''expected''))) (\<lambda>expected.
     if scope_contains boundary resource \<noteq> expected then Inl (Blocker ''scope containment mismatch'')
     else
       let tally = (if expected then tally\<lparr>st_positives := st_positives tally + 1\<rparr>
                    else tally\<lparr>st_negatives := st_negatives tally + 1\<rparr>)
       in Inr (if boundary \<noteq> [] \<and> bare_prefix_match boundary resource \<noteq> expected
               then tally\<lparr>st_disagreements := st_disagreements tally + 1\<rparr> else tally)))"

definition check_scope :: "json \<Rightarrow> conformance_error + unit" where
  "check_scope v =
     and_then (ok_or (Blocker ''scope vector carries no cases'') (some_cases v ''cases'')) (\<lambda>cases.
     and_then (for_each check_scope_case \<lparr>st_positives = 0, st_negatives = 0, st_disagreements = 0\<rparr> cases) (\<lambda>tally.
     if st_positives tally = 0 \<or> st_negatives tally = 0
     then Inl (Blocker ''scope vector must exercise both outcomes'')
     else if st_disagreements tally < 5
     then Inl (Blocker ''scope vector must pin the sibling-capture regression class'')
     else
       let declared = map (\<lambda>c. [c]) SCOPE_SEPARATORS;
           frozen = map str_or_default (array_or_empty (index_member (index_member v ''rule'') ''separators'')) in
       if declared \<noteq> frozen then Inl (Blocker ''separator set mismatch'') else Inr ()))"

definition as_u64 :: "json \<Rightarrow> 64 word option" where
  "as_u64 v = (case v of JNumber (PosInt n) \<Rightarrow> Some n | _ \<Rightarrow> None)"

text \<open>The signature bytes of a presented document, read without the library (\<^verbatim>\<open>as u8\<close> truncates).\<close>

definition sig_of :: "json \<Rightarrow> bytes" where
  "sig_of doc = map (\<lambda>n. ucast (case as_u64 n of Some w \<Rightarrow> w | None \<Rightarrow> 0)) (array_or_empty (index_member doc ''kernel_signature''))"

definition check_roundtrip_case :: "ext \<Rightarrow> bytes \<Rightarrow> unit \<Rightarrow> json \<Rightarrow> conformance_error + unit" where
  "check_roundtrip_case E pk u c =
     (let doc = index_member c ''document'' in
     and_then (ok_or (Blocker ''roundtrip case has no boolean `expected_valid`'') (as_bool (index_member c ''expected_valid''))) (\<lambda>expected.
     and_then (ok_or (Blocker ''roundtrip case document does not deserialize'') (de_vaid E doc)) (\<lambda>parsed.
     if ser_vaid parsed \<noteq> doc then Inl (Blocker ''roundtrip case did not round-trip byte-exactly'')
     else if ext_verify E pk (canonical_vaid_signing_bytes E parsed) (sig_of doc) \<noteq> expected
     then Inl (Blocker ''roundtrip case verdict'')
     else Inr ())))"

text \<open>What an implementation that drops unknown members would answer.\<close>

definition dropping_verdict :: "ext \<Rightarrow> bytes \<Rightarrow> json \<Rightarrow> bool" where
  "dropping_verdict E pk doc =
     (let dropped = (case doc of
            JObject ms \<Rightarrow> JObject (map_insert ''kernel_signature'' Null (filter (\<lambda>m. \<not> starts_with (fst m) ''x_'') ms))
          | _ \<Rightarrow> doc)
      in ext_verify E pk (ext_sha256 E (ext_jcs E dropped)) (sig_of doc))"

definition expected_or_false :: "json \<Rightarrow> bool" where
  "expected_or_false c = (case as_bool (index_member c ''expected_valid'') of Some b \<Rightarrow> b | None \<Rightarrow> False)"

definition check_roundtrip :: "ext \<Rightarrow> json \<Rightarrow> conformance_error + unit" where
  "check_roundtrip E v =
     and_then (ok_or (Blocker ''roundtrip vector carries no cases'') (some_cases v ''cases'')) (\<lambda>cases.
     and_then (unhex_lossy (ed25519_at v ''kernel_public_key_hex'')) (\<lambda>pk.
     and_then (for_each (check_roundtrip_case E pk) () cases) (\<lambda>_.
     let wrong = (\<lambda>expected c. expected_or_false c = expected \<and>
           dropping_verdict E pk (index_member c ''document'') \<noteq> expected);
         false_negative = list_ex (wrong True) cases;
         false_accept = list_ex (wrong False) cases in
     if \<not> false_negative \<or> \<not> false_accept
     then Inl (Blocker ''the roundtrip vector no longer catches a dropping implementation in both directions'')
     else Inr ())))"

section \<open>Verdicts\<close>

fun attenuation_code :: "AttenuationReason \<Rightarrow> string" where
  "attenuation_code AttenuationReason.Attenuated = ''attenuated''"
| "attenuation_code ScopeEscalation = ''scope_escalation''"
| "attenuation_code AttenuationReason.UnknownScopeKind = ''unknown_scope_kind''"

definition revocation_of :: "json \<Rightarrow> RevocationStatus option" where
  "revocation_of v =
     (if v = JString ''not_revoked'' then Some NotRevoked
      else if v = JString ''revoked'' then Some RevocationStatus.Revoked
      else if v = JString ''unavailable'' then Some Unavailable
      else None)"

text \<open>Both answers of the library on an attenuation case, which must agree.\<close>

definition attenuation_answer :: "json \<Rightarrow> conformance_error + AttenuationReason \<times> bool" where
  "attenuation_answer c =
     and_then (ok_or (Blocker ''attenuation case parent'') (boundary_of (index_member c ''parent_scope''))) (\<lambda>parent.
     and_then (ok_or (Blocker ''attenuation case child'') (boundary_of (index_member c ''child_scope''))) (\<lambda>child.
     let reason = scope_attenuation_reason parent child;
         ok = scope_attenuates_within parent child in
     if ok \<noteq> (reason = AttenuationReason.Attenuated)
     then Inl (Blocker ''the boolean and the reason disagree'')
     else Inr (reason, ok)))"

definition standing_answer :: "ext \<Rightarrow> bytes \<Rightarrow> instant \<Rightarrow> json \<Rightarrow> conformance_error + string \<times> bool" where
  "standing_answer E pk now c =
     and_then (ok_or (Blocker ''standing case has no document_json'') (as_str (index_member c ''document_json''))) (\<lambda>document.
     and_then (ok_or (Blocker ''standing case names unknown revocation state'') (revocation_of (index_member c ''revocation''))) (\<lambda>rev.
     let verdict = verify_vaid_standing_from_json E now pk document rev in
     Inr (code_of verdict, is_valid verdict)))"

definition is_standing :: "json \<Rightarrow> bool" where
  "is_standing c = (index_member c ''surface'' = JString ''standing'')"

definition verdict_answer :: "ext \<Rightarrow> bytes \<Rightarrow> instant \<Rightarrow> json \<Rightarrow> conformance_error + string \<times> bool" where
  "verdict_answer E pk now c =
     (if is_standing c then standing_answer E pk now c
      else if index_member c ''surface'' = JString ''attenuation''
      then map_sum id (map_prod attenuation_code id) (attenuation_answer c)
      else Inl (Blocker ''verdict case names unknown surface''))"

record verdict_tally =
  vt_standing_positives :: nat
  vt_attenuation_positives :: nat
  vt_standing_negatives :: nat
  vt_attenuation_negatives :: nat
  vt_refusal_reasons :: "string set"
  vt_exercised :: "string set"

definition tally_case :: "json \<Rightarrow> string \<Rightarrow> bool \<Rightarrow> verdict_tally \<Rightarrow> verdict_tally" where
  "tally_case c reason valid t =
     (let t = (if valid
               then (if is_standing c then t\<lparr>vt_standing_positives := vt_standing_positives t + 1\<rparr>
                     else t\<lparr>vt_attenuation_positives := vt_attenuation_positives t + 1\<rparr>)
               else (if is_standing c then t\<lparr>vt_standing_negatives := vt_standing_negatives t + 1\<rparr>
                     else t\<lparr>vt_attenuation_negatives := vt_attenuation_negatives t + 1\<rparr>)
                    \<lparr>vt_refusal_reasons := insert reason (vt_refusal_reasons t)\<rparr>)
      in t\<lparr>vt_exercised := insert reason (vt_exercised t)\<rparr>)"

definition check_verdict_case ::
  "ext \<Rightarrow> (nat \<Rightarrow> instant) \<Rightarrow> bytes \<Rightarrow> verdict_tally \<Rightarrow> nat \<times> json \<Rightarrow> conformance_error + verdict_tally" where
  "check_verdict_case E clock pk tally entry =
     (let (i, c) = entry in
     and_then (ok_or (Blocker ''verdict case has no expected_reason'') (as_str (index_member c ''expected_reason''))) (\<lambda>expected_reason.
     and_then (ok_or (Blocker ''verdict case has no boolean expected_valid'') (as_bool (index_member c ''expected_valid''))) (\<lambda>expected_valid.
     and_then (verdict_answer E pk (clock i) c) (\<lambda>(reason, valid).
     if reason \<noteq> expected_reason then Inl (Blocker ''verdict case reason'')
     else if valid \<noteq> expected_valid then Inl (Blocker ''verdict case valid'')
     else Inr (tally_case c reason valid tally)))))"

definition names_of :: "json \<Rightarrow> string set" where
  "names_of v = set (map str_or_default (array_or_empty v))"

definition check_verdict :: "ext \<Rightarrow> (nat \<Rightarrow> instant) \<Rightarrow> json \<Rightarrow> conformance_error + unit" where
  "check_verdict E clock v =
     and_then (ok_or (Blocker ''verdict vector carries no cases'') (some_cases v ''cases'')) (\<lambda>cases.
     and_then (unhex_lossy (ed25519_at v ''kernel_public_key_hex'')) (\<lambda>pk.
     and_then (for_each (check_verdict_case E clock pk)
       \<lparr>vt_standing_positives = 0, vt_attenuation_positives = 0, vt_standing_negatives = 0,
        vt_attenuation_negatives = 0, vt_refusal_reasons = {}, vt_exercised = {}\<rparr>
       (List.enumerate 0 cases)) (\<lambda>t.
     if vt_standing_positives t = 0 \<or> vt_attenuation_positives t = 0
     then Inl (Blocker ''the verdict vector has lost a positive control'')
     else if vt_standing_negatives t = 0 \<or> vt_attenuation_negatives t = 0
     then Inl (Blocker ''the verdict vector has lost a negative case on one of its surfaces'')
     else if card (vt_refusal_reasons t) < 2
     then Inl (Blocker ''every refusing case expects the same reason'')
     else
       let declared = names_of (index_member (index_member v ''reasons'') ''standing'');
           implemented = set (map code_of verdict_ALL) in
       if declared \<noteq> implemented
       then Inl (Blocker ''the standing vocabulary of the vector and this build disagree'')
       else if \<not> declared \<union> names_of (index_member (index_member v ''reasons'') ''attenuation'') \<subseteq> vt_exercised t
       then Inl (Blocker ''reason(s) declared by the vector but exercised by no case'')
       else Inr ())))"

section \<open>Scope kinds\<close>

definition containment_reason :: "scope_entry list \<Rightarrow> bool \<Rightarrow> string" where
  "containment_reason boundary got =
     (if \<not> boundary_is_evaluable boundary then ''unknown_scope_kind''
      else if got then ''contained'' else ''not_contained'')"

definition check_containment_case :: "unit \<Rightarrow> json \<Rightarrow> conformance_error + unit" where
  "check_containment_case u c =
     and_then (ok_or (Blocker ''containment case'') (boundary_of (index_member c ''boundary''))) (\<lambda>boundary.
     and_then (ok_or (Blocker ''containment case has no `expected`'') (as_bool (index_member c ''expected''))) (\<lambda>expected.
     let got = scope_contains boundary (text_at c ''resource'') in
     if got \<noteq> expected then Inl (Blocker ''containment case expected'')
     else if containment_reason boundary got \<noteq> text_at c ''expected_reason''
     then Inl (Blocker ''containment case reason'')
     else Inr ()))"

definition check_attenuation_case :: "unit \<Rightarrow> json \<Rightarrow> conformance_error + unit" where
  "check_attenuation_case u c =
     and_then (attenuation_answer c) (\<lambda>(reason, ok).
     if ok \<noteq> expected_or_false c \<or> attenuation_code reason \<noteq> text_at c ''expected_reason''
     then Inl (Blocker ''attenuation case'') else Inr ())"

definition check_shape_case :: "ext \<Rightarrow> nat \<Rightarrow> json \<Rightarrow> conformance_error + nat" where
  "check_shape_case E parsed_controls c =
     and_then (ok_or (Blocker ''shape case has no boundary_json'') (as_str (index_member c ''boundary_json''))) (\<lambda>boundary_json.
     and_then (ok_or (Blocker ''shape case is not valid JSON'') (parse_value E boundary_json)) (\<lambda>val.
     let got_reason = (if boundary_of val \<noteq> None then ''parsed'' else ''unparseable'') in
     if got_reason \<noteq> text_at c ''expected_reason'' then Inl (Blocker ''shape case'')
     else Inr (if got_reason = ''parsed'' then parsed_controls + 1 else parsed_controls)))"

definition check_scope_kinds :: "ext \<Rightarrow> json \<Rightarrow> conformance_error + unit" where
  "check_scope_kinds E v =
     and_then (ok_or (Blocker ''scope-kinds vector declares no `rule.kinds`'')
       (as_array (index_member (index_member v ''rule'') ''kinds''))) (\<lambda>kinds.
     if set (List.map_filter as_str kinds) \<noteq> set RECOGNISED_SCOPE_KINDS
     then Inl (Blocker ''recognised scope kinds disagree'')
     else
       and_then (ok_or (Blocker ''scope-kinds vector carries no containment_cases'') (some_cases v ''containment_cases'')) (\<lambda>cases.
       and_then (for_each check_containment_case () cases) (\<lambda>_.
       and_then (ok_or (Blocker ''scope-kinds vector carries no attenuation_cases'') (some_cases v ''attenuation_cases'')) (\<lambda>cases.
       and_then (for_each check_attenuation_case () cases) (\<lambda>_.
       and_then (ok_or (Blocker ''scope-kinds vector carries no shape_cases'') (some_cases v ''shape_cases'')) (\<lambda>cases.
       and_then (for_each (check_shape_case E) 0 cases) (\<lambda>parsed_controls.
       if parsed_controls < 2 then Inl (Blocker ''the shape surface needs at least two positive controls'')
       else Inr ())))))))"

section \<open>The table and the run\<close>

definition mint_vector_checks ::
  "(nat \<Rightarrow> instant) \<Rightarrow> ext \<Rightarrow> (string \<times> (json \<Rightarrow> conformance_error + unit)) list" where
  "mint_vector_checks clock E =
     [(''mint_v1.json'', check_mint E),
      (''mint_pop_v1.json'', check_mint_pop E),
      (''chain_v1.json'', check_chain E),
      (''chain_expiry_v1.json'', check_chain_expiry E),
      (''attestation_v1.json'', check_attestation E),
      (''scope_v1.json'', check_scope),
      (''roundtrip_v1.json'', check_roundtrip E),
      (''verdict_v1.json'', check_verdict E clock),
      (''scope_kinds_v1.json'', check_scope_kinds E)]"

fun show_nat :: "nat \<Rightarrow> string" where
  "show_nat n = (if n < 10 then [char_of (48 + n)] else show_nat (n div 10) @ [char_of (48 + n mod 10)])"

text \<open>The dash of the message is the three bytes of U+2014.\<close>

definition mint_report :: "json \<Rightarrow> string" where
  "mint_report v =
     (case as_str (index_member v ''digest_sha256_hex'') of
        Some s \<Rightarrow> s
      | None \<Rightarrow>
          (let counted = sum_list (map (\<lambda>k. length (array_or_empty (index_member v k)))
                 [''cases'', ''containment_cases'', ''attenuation_cases'', ''shape_cases''])
           in if counted > 0
              then show_nat counted @ '' case(s) '' @ [CHR 0xE2, CHR 0x80, CHR 0x94] @ '' predicate vector, no digest''
              else ''(no digest)''))"

definition mint_firewall ::
  "ext \<Rightarrow> (nat \<Rightarrow> instant) \<Rightarrow> (string \<times> string) list \<Rightarrow> conformance_error + (string \<times> string) list" where
  "mint_firewall E clock vectors = firewall_run E (mint_vector_checks clock E) mint_report vectors"

interpretation mint_vectors: vector_firewall "mint_vector_checks clock" mint_report for clock
  by unfold_locales (simp_all add: mint_vector_checks_def)

section \<open>What a passing vector says\<close>

lemma seed_key_Inr: "seed_key E complaint v k = Inr kp \<longleftrightarrow>
    (\<exists>seed. unhex_lossy (ed25519_at v k) = Inr seed \<and> ext_from_seed E seed = Some kp)"
  by (simp add: seed_key_def and_then_Inr)

text \<open>
  A frozen document that is reproduced carries the signature this build makes: the hex is that of
  the signature, and reading it back gives the signature itself.
\<close>

lemma reproduce_hop_Inr:
  "reproduce_hop E kp label complaint entry = Inr d \<longleftrightarrow>
     (\<exists>u. de_vaid E (index_member entry ''document'') = Some u \<and>
        text_at entry ''digest_sha256_hex'' = to_hex (canonical_vaid_signing_bytes E u) \<and>
        text_at entry ''signature_hex'' = to_hex (ext_sign E kp (canonical_vaid_signing_bytes E u)) \<and>
        d = with_kernel_signature u (ext_sign E kp (canonical_vaid_signing_bytes E u)))"
proof (cases "de_vaid E (index_member entry ''document'')")
  case (Some u)
  have sym: "to_hex b = text_at entry k \<longleftrightarrow> text_at entry k = to_hex b" for b k by auto
  from Some show ?thesis by (auto simp: reproduce_hop_def and_then_Inr Let_def sym)
qed (simp add: reproduce_hop_def)

definition hop_frozen :: "ext \<Rightarrow> keypair \<Rightarrow> json \<Rightarrow> vaid \<Rightarrow> bool" where
  "hop_frozen E kp entry d \<longleftrightarrow>
     (\<exists>u. de_vaid E (index_member entry ''document'') = Some u \<and>
        text_at entry ''digest_sha256_hex'' = to_hex (canonical_vaid_signing_bytes E u) \<and>
        text_at entry ''signature_hex'' = to_hex (ext_sign E kp (canonical_vaid_signing_bytes E u)) \<and>
        d = with_kernel_signature u (ext_sign E kp (canonical_vaid_signing_bytes E u)))"

lemma reproduce_hops:
  "for_each (\<lambda>docs entry. and_then (reproduce_hop E kp (label entry) complaint entry) (\<lambda>d. Inr (docs @ [d]))) ds entries
     = Inr docs \<longleftrightarrow> (\<exists>new. docs = ds @ new \<and> list_all2 (hop_frozen E kp) entries new)"
  by (induction entries arbitrary: ds)
     (auto simp: and_then_Inr reproduce_hop_Inr hop_frozen_def list_all2_Cons1)

text \<open>
  The chain vector passes exactly when every frozen document is reproduced, the contract digest is
  that of the frozen chain and outcome, and the walk of this build ends as frozen.
\<close>

lemma check_chain_exact:
  "check_chain E v = Inr () \<longleftrightarrow>
     (\<exists>seed kp entries docs now.
        unhex_lossy (ed25519_at v ''kernel_private_key_seed_hex'') = Inr seed \<and> ext_from_seed E seed = Some kp \<and>
        as_array (index_member v ''chain'') = Some entries \<and> list_all2 (hop_frozen E kp) entries docs \<and> docs \<noteq> [] \<and>
        text_at v ''digest_sha256_hex'' = to_hex (ext_sha256 E (ext_jcs E (JObject (map_collect
           [(''chain'', index_member v ''chain''),
            (''expected'', object_remove ''_comment'' (index_member v ''expected''))])))) \<and>
        instant_of E (index_member (index_member v ''expected'') ''verification_instant'') = Some now \<and>
        walk_verdict E kp docs now = text_at (index_member v ''expected'') ''verification'')"
proof -
  have sym: "to_hex b = text_at v k \<longleftrightarrow> text_at v k = to_hex b" for b k by auto
  show ?thesis
    unfolding check_chain_def by (auto simp: and_then_Inr seed_key_Inr reproduce_hops Let_def sym)
qed

section \<open>The scope vector\<close>

definition scope_case_ok :: "json \<Rightarrow> bool" where
  "scope_case_ok c \<longleftrightarrow>
     (\<exists>b. boundary_of (index_member c ''boundary'') = Some b \<and>
        as_bool (index_member c ''expected'') = Some (scope_contains b (text_at c ''resource'')))"

definition scope_case_admits :: "json \<Rightarrow> bool" where
  "scope_case_admits c \<longleftrightarrow> as_bool (index_member c ''expected'') = Some True"

definition scope_case_disagrees :: "json \<Rightarrow> bool" where
  "scope_case_disagrees c \<longleftrightarrow>
     (case boundary_of (index_member c ''boundary'') of
        None \<Rightarrow> False
      | Some b \<Rightarrow> b \<noteq> [] \<and> bare_prefix_match b (text_at c ''resource'') \<noteq> scope_contains b (text_at c ''resource''))"

lemma check_scope_case_Inr:
  "check_scope_case t c = Inr t' \<longleftrightarrow> scope_case_ok c \<and>
     t' = \<lparr>st_positives = st_positives t + of_bool (scope_case_admits c),
           st_negatives = st_negatives t + of_bool (\<not> scope_case_admits c),
           st_disagreements = st_disagreements t + of_bool (scope_case_disagrees c)\<rparr>"
  by (cases "boundary_of (index_member c ''boundary'')"; cases "as_bool (index_member c ''expected'')"; cases t)
     (auto simp: check_scope_case_def scope_case_ok_def scope_case_admits_def scope_case_disagrees_def Let_def)

lemma scope_cases_Inr:
  "for_each check_scope_case t cs = Inr t' \<longleftrightarrow> list_all scope_case_ok cs \<and>
     t' = \<lparr>st_positives = st_positives t + length (filter scope_case_admits cs),
           st_negatives = st_negatives t + length (filter (\<lambda>c. \<not> scope_case_admits c) cs),
           st_disagreements = st_disagreements t + length (filter scope_case_disagrees cs)\<rparr>"
proof (induction cs arbitrary: t)
  case (Cons c cs)
  then show ?case by (auto simp: and_then_Inr check_scope_case_Inr)
qed auto

text \<open>
  The scope vector passes exactly when every case is decided as frozen, both outcomes occur, at
  least five cases tell containment from bare prefix matching, and the separators are the build's.
\<close>

lemma check_scope_exact:
  "check_scope v = Inr () \<longleftrightarrow>
     (\<exists>cs. as_array (index_member v ''cases'') = Some cs \<and> list_all scope_case_ok cs \<and>
        list_ex scope_case_admits cs \<and> list_ex (\<lambda>c. \<not> scope_case_admits c) cs \<and>
        5 \<le> length (filter scope_case_disagrees cs)) \<and>
     map str_or_default (array_or_empty (index_member (index_member v ''rule'') ''separators'')) = map (\<lambda>c. [c]) SCOPE_SEPARATORS"
proof -
  have sym: "map (\<lambda>c. [c]) SCOPE_SEPARATORS = xs \<longleftrightarrow> xs = map (\<lambda>c. [c]) SCOPE_SEPARATORS" for xs by auto
  show ?thesis
    unfolding check_scope_def
    by (auto simp: and_then_Inr some_cases_Some scope_cases_Inr sym Let_def not_less filter_empty_conv list_ex_iff)
qed

section \<open>The verdict vector\<close>

definition frozen_reason :: "json \<Rightarrow> string" where
  "frozen_reason c = text_at c ''expected_reason''"

definition verdict_case_ok :: "ext \<Rightarrow> (nat \<Rightarrow> instant) \<Rightarrow> bytes \<Rightarrow> nat \<times> json \<Rightarrow> bool" where
  "verdict_case_ok E clock pk entry \<longleftrightarrow>
     is_string (index_member (snd entry) ''expected_reason'') \<and> as_bool (index_member (snd entry) ''expected_valid'') \<noteq> None \<and>
     verdict_answer E pk (clock (fst entry)) (snd entry) = Inr (frozen_reason (snd entry), expected_or_false (snd entry))"

lemma check_verdict_case_Inr:
  "check_verdict_case E clock pk t (i, c) = Inr t' \<longleftrightarrow>
     verdict_case_ok E clock pk (i, c) \<and> t' = tally_case c (frozen_reason c) (expected_or_false c) t"
proof (cases "index_member c ''expected_reason''")
  case (JString r)
  then show ?thesis
    by (cases "as_bool (index_member c ''expected_valid'')"; cases "verdict_answer E pk (clock i) c")
       (auto simp: check_verdict_case_def verdict_case_ok_def frozen_reason_def expected_or_false_def text_at_def
          split: if_splits)
qed (auto simp: check_verdict_case_def verdict_case_ok_def)

abbreviation tally_cases :: "json list \<Rightarrow> verdict_tally \<Rightarrow> verdict_tally" where
  "tally_cases cs t \<equiv> fold (\<lambda>c. tally_case c (frozen_reason c) (expected_or_false c)) cs t"

lemma verdict_cases_Inr:
  "for_each (check_verdict_case E clock pk) t (List.enumerate n cs) = Inr t' \<longleftrightarrow>
     list_all (verdict_case_ok E clock pk) (List.enumerate n cs) \<and> t' = tally_cases cs t"
  by (induction cs arbitrary: n t) (auto simp: and_then_Inr check_verdict_case_Inr)

lemma tally_case_fields:
  "vt_standing_positives (tally_case c r v t) = vt_standing_positives t + of_bool (is_standing c \<and> v)"
  "vt_attenuation_positives (tally_case c r v t) = vt_attenuation_positives t + of_bool (\<not> is_standing c \<and> v)"
  "vt_standing_negatives (tally_case c r v t) = vt_standing_negatives t + of_bool (is_standing c \<and> \<not> v)"
  "vt_attenuation_negatives (tally_case c r v t) = vt_attenuation_negatives t + of_bool (\<not> is_standing c \<and> \<not> v)"
  "vt_refusal_reasons (tally_case c r v t) = (if v then {} else {r}) \<union> vt_refusal_reasons t"
  "vt_exercised (tally_case c r v t) = insert r (vt_exercised t)"
  by (simp_all add: tally_case_def Let_def)

lemma tally_cases_fields:
  "vt_standing_positives (tally_cases cs t) = vt_standing_positives t + length (filter (\<lambda>c. is_standing c \<and> expected_or_false c) cs)"
  "vt_attenuation_positives (tally_cases cs t) = vt_attenuation_positives t + length (filter (\<lambda>c. \<not> is_standing c \<and> expected_or_false c) cs)"
  "vt_standing_negatives (tally_cases cs t) = vt_standing_negatives t + length (filter (\<lambda>c. is_standing c \<and> \<not> expected_or_false c) cs)"
  "vt_attenuation_negatives (tally_cases cs t) = vt_attenuation_negatives t + length (filter (\<lambda>c. \<not> is_standing c \<and> \<not> expected_or_false c) cs)"
  "vt_refusal_reasons (tally_cases cs t) = frozen_reason ` set (filter (\<lambda>c. \<not> expected_or_false c) cs) \<union> vt_refusal_reasons t"
  "vt_exercised (tally_cases cs t) = frozen_reason ` set cs \<union> vt_exercised t"
  by (induction cs arbitrary: t) (auto simp: tally_case_fields)

section \<open>Properties\<close>

text \<open>
  C39.  The verdict vector passes exactly when it proves something: every case, on either surface, is
  answered by this build with the frozen reason and the frozen verdict; each surface has a case
  that must be accepted and one that must be refused; the refusals have at least two reasons; the
  standing reasons it declares are those this build can give; and every declared reason is the
  answer of some case.
\<close>

theorem verdict_vector_exact:
  "check_verdict E clock v = Inr () \<longleftrightarrow>
     (\<exists>cs pk. as_array (index_member v ''cases'') = Some cs \<and>
        unhex_lossy (ed25519_at v ''kernel_public_key_hex'') = Inr pk \<and>
        list_all (verdict_case_ok E clock pk) (List.enumerate 0 cs) \<and>
        list_ex (\<lambda>c. is_standing c \<and> expected_or_false c) cs \<and>
        list_ex (\<lambda>c. \<not> is_standing c \<and> expected_or_false c) cs \<and>
        list_ex (\<lambda>c. is_standing c \<and> \<not> expected_or_false c) cs \<and>
        list_ex (\<lambda>c. \<not> is_standing c \<and> \<not> expected_or_false c) cs \<and>
        2 \<le> card (frozen_reason ` set (filter (\<lambda>c. \<not> expected_or_false c) cs)) \<and>
        names_of (index_member (index_member v ''reasons'') ''standing'') = set (map code_of verdict_ALL) \<and>
        names_of (index_member (index_member v ''reasons'') ''standing'') \<union>
          names_of (index_member (index_member v ''reasons'') ''attenuation'') \<subseteq> frozen_reason ` set cs)"
proof -
  have none: "length (filter P cs) = 0 \<longleftrightarrow> \<not> list_ex P cs" for P :: "json \<Rightarrow> bool" and cs
    by (auto simp: filter_empty_conv list_ex_iff)
  show ?thesis
  proof (cases "some_cases v ''cases''")
    case None
    then have "as_array (index_member v ''cases'') = Some cs \<Longrightarrow> cs = []" for cs
      using some_cases_Some [of v "''cases''" cs] by auto
    with None show ?thesis by (auto simp: check_verdict_def)
  next
    case (Some cs)
    then have "as_array (index_member v ''cases'') = Some cs" by (simp add: some_cases_Some)
    with Some show ?thesis
      by (cases "unhex_lossy (ed25519_at v ''kernel_public_key_hex'')")
         (auto simp: check_verdict_def and_then_Inr verdict_cases_Inr tally_cases_fields none not_less Let_def
          simp del: length_0_conv)
  qed
qed

end
