(* ===== verification/Vaid_Json_Text.thy ===== *)
theory Vaid_Json_Text
  imports Vaid_Mint_Firewall
begin

text \<open>
  A reader and a writer of JSON text for the concrete records of libraries: the writer has the layout of
  \<^verbatim>\<open>to_string_pretty\<close>, the reader takes any white space, and both leave out escapes, fractions,
  exponents and negative numbers.  The reader undoes the writer, and what is written is a text of the
  grammar of \<open>Vaid_Text\<close>.  A second writer, on one line and with escapes, serves where only the grammar
  matters.  Nothing here models code of the repository.
\<close>

section \<open>Plain values\<close>

definition json_plain :: "string \<Rightarrow> bool" where
  "json_plain s = list_all (\<lambda>c. c \<noteq> CHR 0x22 \<and> c \<noteq> CHR 0x5C \<and> (of_char c :: nat) \<ge> 32) s"

fun plain_json :: "json \<Rightarrow> bool" where
  "plain_json Null = True"
| "plain_json (JBool b) = True"
| "plain_json (JNumber (PosInt w)) = True"
| "plain_json (JNumber n) = False"
| "plain_json (JString s) = json_plain s"
| "plain_json (JArray vs) = (\<forall>v \<in> set vs. plain_json v)"
| "plain_json (JObject ms) = (distinct (map fst ms) \<and> (\<forall>m \<in> set ms. json_plain (fst m) \<and> plain_json (snd m)))"

section \<open>The writer\<close>

definition line :: "nat \<Rightarrow> string" where
  "line n = CHR 0x0A # replicate (2 * n) (CHR 0x20)"

fun pretty :: "nat \<Rightarrow> json \<Rightarrow> string"
  and pretty_elems :: "nat \<Rightarrow> json list \<Rightarrow> string"
  and pretty_members :: "nat \<Rightarrow> (string \<times> json) list \<Rightarrow> string" where
  "pretty n Null = ''null''"
| "pretty n (JBool b) = (if b then ''true'' else ''false'')"
| "pretty n (JNumber (PosInt w)) = show_nat (unat w)"
| "pretty n (JNumber v) = ''null''"
| "pretty n (JString s) = quoted s"
| "pretty n (JArray []) = ''[]''"
| "pretty n (JArray (v # vs)) = ''['' @ line (Suc n) @ pretty (Suc n) v @ pretty_elems (Suc n) vs @ line n @ '']''"
| "pretty n (JObject []) = ''{}''"
| "pretty n (JObject ((k, v) # ms)) =
     ''{'' @ line (Suc n) @ quoted k @ '': '' @ pretty (Suc n) v @ pretty_members (Suc n) ms @ line n @ ''}''"
| "pretty_elems n [] = []"
| "pretty_elems n (v # vs) = '','' @ line n @ pretty n v @ pretty_elems n vs"
| "pretty_members n [] = []"
| "pretty_members n ((k, v) # ms) = '','' @ line n @ quoted k @ '': '' @ pretty n v @ pretty_members n ms"

section \<open>The reader\<close>

definition json_space :: "char \<Rightarrow> bool" where
  "json_space c = (c \<in> set [CHR 0x20, CHR 0x09, CHR 0x0A, CHR 0x0D])"

definition skip_ws :: "string \<Rightarrow> string" where
  "skip_ws s = dropWhile json_space s"

fun read_string :: "string \<Rightarrow> (string \<times> string) option" where
  "read_string [] = None"
| "read_string (c # cs) =
     (if c = CHR 0x22 then Some ([], cs)
      else if c = CHR 0x5C \<or> (of_char c :: nat) < 32 then None
      else map_option (map_prod (Cons c) id) (read_string cs))"

definition number_value :: "string \<Rightarrow> int" where
  "number_value s = foldl (\<lambda>a c. 10 * a + (of_char c - 48)) 0 s"

definition read_number :: "string \<Rightarrow> (json \<times> string) option" where
  "read_number s =
     (let ds = takeWhile is_ascii_digit s; k = number_value ds in
      if k < 18446744073709551616 \<and> (hd ds = CHR ''0'' \<longrightarrow> tl ds = [])
      then Some (JNumber (PosInt (word_of_int k)), dropWhile is_ascii_digit s)
      else None)"

definition read_word :: "string \<Rightarrow> (json \<times> string) option" where
  "read_word s =
     (if starts_with s ''null'' then Some (Null, drop 4 s)
      else if starts_with s ''true'' then Some (JBool True, drop 4 s)
      else if starts_with s ''false'' then Some (JBool False, drop 5 s)
      else None)"

definition read_key :: "string \<Rightarrow> (string \<times> string) option" where
  "read_key s =
     (case skip_ws s of [] \<Rightarrow> None | c # cs \<Rightarrow>
        if c \<noteq> CHR 0x22 then None
        else (case read_string cs of None \<Rightarrow> None | Some (k, r) \<Rightarrow>
          (case skip_ws r of [] \<Rightarrow> None | d # r' \<Rightarrow> if d = CHR '':'' then Some (k, r') else None)))"

fun read_value :: "nat \<Rightarrow> string \<Rightarrow> (json \<times> string) option"
  and read_elems :: "nat \<Rightarrow> string \<Rightarrow> (json list \<times> string) option"
  and read_members :: "nat \<Rightarrow> string \<Rightarrow> ((string \<times> json) list \<times> string) option" where
  "read_value 0 s = None"
| "read_value (Suc n) s =
     (case skip_ws s of [] \<Rightarrow> None | c # cs \<Rightarrow>
        if c = CHR 0x22 then map_option (map_prod JString id) (read_string cs)
        else if c = CHR ''['' then
          (if starts_with_char (skip_ws cs) (CHR '']'') then Some (JArray [], tl (skip_ws cs))
           else (case read_value n cs of None \<Rightarrow> None | Some (v, r) \<Rightarrow>
             map_option (map_prod (\<lambda>vs. JArray (v # vs)) id) (read_elems n r)))
        else if c = CHR ''{'' then
          (if starts_with_char (skip_ws cs) (CHR ''}'') then Some (JObject [], tl (skip_ws cs))
           else (case read_key cs of None \<Rightarrow> None | Some (k, r) \<Rightarrow>
             (case read_value n r of None \<Rightarrow> None | Some (v, r') \<Rightarrow>
                map_option (map_prod (\<lambda>ms. JObject ((k, v) # ms)) id) (read_members n r'))))
        else if is_ascii_digit c then read_number (c # cs)
        else read_word (c # cs))"
| "read_elems 0 s = None"
| "read_elems (Suc n) s =
     (case skip_ws s of [] \<Rightarrow> None | c # cs \<Rightarrow>
        if c = CHR '']'' then Some ([], cs)
        else if c = CHR '','' then
          (case read_value n cs of None \<Rightarrow> None | Some (v, r) \<Rightarrow> map_option (map_prod (Cons v) id) (read_elems n r))
        else None)"
| "read_members 0 s = None"
| "read_members (Suc n) s =
     (case skip_ws s of [] \<Rightarrow> None | c # cs \<Rightarrow>
        if c = CHR ''}'' then Some ([], cs)
        else if c = CHR '','' then
          (case read_key cs of None \<Rightarrow> None | Some (k, r) \<Rightarrow>
             (case read_value n r of None \<Rightarrow> None | Some (v, r') \<Rightarrow>
                map_option (map_prod (Cons (k, v)) id) (read_members n r')))
        else None)"

text \<open>A whole text is one value with white space around it.\<close>

definition json_read :: "string \<Rightarrow> json option" where
  "json_read s = (case read_value (Suc (length s)) s of None \<Rightarrow> None | Some (v, r) \<Rightarrow> if skip_ws r = [] then Some v else None)"

section \<open>The reader undoes the writer\<close>

lemma skip_ws_simps [simp]:
  "skip_ws [] = []"
  "skip_ws (c # s) = (if json_space c then skip_ws s else c # s)"
  by (simp_all add: skip_ws_def)

lemma skip_ws_line [simp]: "skip_ws (line n @ s) = skip_ws s"
  by (simp add: line_def json_space_def) (induction n, simp_all add: json_space_def)

lemma skip_ws_idem [simp]: "skip_ws (skip_ws s) = skip_ws s"
  by (induction s) simp_all

lemma read_value_skip: "read_value n s = read_value n (skip_ws s)"
  by (cases n) simp_all

lemma read_value_line [simp]: "read_value n (line m @ s) = read_value n s"
  using read_value_skip [of n "line m @ s"] read_value_skip [of n s] by simp

lemma read_string_plain: "json_plain s \<Longrightarrow> read_string (s @ CHR 0x22 # rest) = Some (s, rest)"
  by (induction s) (auto simp: json_plain_def)

lemma read_key_quoted: "json_plain k \<Longrightarrow> read_key (quoted k @ CHR '':'' # rest) = Some (k, rest)"
  by (simp add: read_key_def quoted_def read_string_plain json_space_def)

lemma read_key_line [simp]: "read_key (line m @ s) = read_key s"
  by (simp add: read_key_def)

definition no_digit :: "string \<Rightarrow> bool" where
  "no_digit s = (s = [] \<or> \<not> is_ascii_digit (hd s))"

declare show_nat.simps [simp del]

lemma show_nat_digits: "c \<in> set (show_nat n) \<Longrightarrow> is_ascii_digit c"
proof (induction n rule: show_nat.induct)
  case (1 n)
  have "is_ascii_digit (char_of (48 + k))" if "k < 10" for k :: nat
    using that by (simp add: is_ascii_digit_def less_eq_char_def of_char_of)
  with 1 show ?case by (auto simp: show_nat.simps [of n] split: if_splits)
qed

lemma number_value_show: "number_value (show_nat n) = int n"
proof (induction n rule: show_nat.induct)
  case (1 n)
  have digit: "(of_char (char_of (48 + k) :: char) :: int) = 48 + int k" if "k < 10" for k :: nat
    using that of_nat_of_char [of "char_of (48 + k) :: char", where 'a = int] by (simp add: of_char_of)
  have "10 * int (n div 10) + int (n mod 10) = int n" by (metis mult_div_mod_eq of_nat_add of_nat_mult of_nat_numeral)
  with 1 show ?case by (subst show_nat.simps) (auto simp: number_value_def digit)
qed

lemma show_nat_zero: "hd (show_nat n) = CHR ''0'' \<Longrightarrow> n = 0"
proof (induction n rule: show_nat.induct)
  case (1 n)
  have ne: "show_nat m \<noteq> []" for m by (subst show_nat.simps) simp
  show ?case
  proof (cases "n < 10")
    case True
    with 1(2) have "(of_char (char_of (48 + n)) :: nat) = of_char CHR ''0''" by (simp add: show_nat.simps [of n])
    with True show ?thesis by (simp add: of_char_of)
  next
    case False
    with 1 ne have "n div 10 = 0" by (simp add: show_nat.simps [of n])
    with False show ?thesis by simp
  qed
qed

lemma show_nat_0: "show_nat 0 = ''0''"
  by code_simp

lemma read_number_show: "no_digit rest \<Longrightarrow> read_number (show_nat (unat (w :: 64 word)) @ rest) = Some (JNumber (PosInt w), rest)"
proof -
  assume "no_digit rest"
  then have "takeWhile is_ascii_digit rest = []" "dropWhile is_ascii_digit rest = rest"
    by (cases rest; simp add: no_digit_def)+
  moreover have "int (unat w) < 18446744073709551616"
    using unsigned_less [of w, where 'a = int] by simp
  ultimately show ?thesis
    by (simp add: read_number_def takeWhile_append dropWhile_append show_nat_digits number_value_show Let_def) (metis list.sel(3) show_nat_0 show_nat_zero)
qed

lemma show_nat_Cons: "\<exists>c s. show_nat n = c # s \<and> is_ascii_digit c"
proof -
  have "show_nat n \<noteq> []" by (subst show_nat.simps) simp
  then show ?thesis using show_nat_digits [of _ n] by (cases "show_nat n") auto
qed

lemma ascii_digit_other:
  assumes "is_ascii_digit c"
  shows "c \<noteq> CHR 0x22" "c \<noteq> CHR ''[''" "c \<noteq> CHR ''{''" "c \<noteq> CHR '']''" "c \<noteq> CHR ''}''" "\<not> json_space c"
  using assms by (auto simp: is_ascii_digit_def json_space_def less_eq_char_def)

lemma pretty_Cons:
  "\<exists>c s. pretty n v = c # s \<and> \<not> json_space c \<and> c \<noteq> CHR '']'' \<and> c \<noteq> CHR ''}''"
proof (cases v)
  case (JNumber k)
  then show ?thesis
  proof (cases k)
    case (PosInt w)
    then show ?thesis using JNumber show_nat_Cons [of "unat w"] ascii_digit_other by fastforce
  qed (simp_all add: json_space_def)
next
  case (JArray vs)
  then show ?thesis by (cases vs) (simp_all add: json_space_def)
next
  case (JObject ms)
  then show ?thesis by (cases ms) (auto simp: json_space_def)
qed (simp_all add: quoted_def json_space_def)

lemma no_digit_line [simp]: "no_digit (line n @ s)"
  by (simp add: no_digit_def line_def is_ascii_digit_def less_eq_char_def)

lemma no_digit_Cons: "c \<in> set '',]}'' \<Longrightarrow> no_digit (c # s)"
  by (auto simp: no_digit_def is_ascii_digit_def less_eq_char_def)

lemma no_digit_tails:
  "no_digit (pretty_elems m vs @ line k @ s)" "no_digit (pretty_members m ms @ line k @ s)"
proof -
  show "no_digit (pretty_elems m vs @ line k @ s)" by (cases vs) (simp_all add: no_digit_Cons)
  show "no_digit (pretty_members m ms @ line k @ s)"
    by (cases "(m, ms)" rule: pretty_members.cases) (simp_all add: no_digit_Cons)
qed

lemma read_pretty:
  "plain_json v \<Longrightarrow> length (pretty m v) < n \<Longrightarrow> no_digit rest \<Longrightarrow> read_value n (pretty m v @ rest) = Some (v, rest)"
  "\<forall>v \<in> set vs. plain_json v \<Longrightarrow> length (pretty_elems m vs) < n \<Longrightarrow>
     read_elems n (pretty_elems m vs @ line k @ CHR '']'' # rest) = Some (vs, rest)"
  "\<forall>e \<in> set ms. json_plain (fst e) \<and> plain_json (snd e) \<Longrightarrow> length (pretty_members m ms) < n \<Longrightarrow>
     read_members n (pretty_members m ms @ line k @ CHR ''}'' # rest) = Some (ms, rest)"
proof (induction m v and m vs and m ms arbitrary: n rest and n k rest and n k rest
    rule: pretty_pretty_elems_pretty_members.induct)
  case (1 m)
  then show ?case by (cases n) (simp_all add: json_space_def is_ascii_digit_def less_eq_char_def read_word_def starts_with_def)
next
  case (2 m b)
  then show ?case
    by (cases n) (auto simp: json_space_def is_ascii_digit_def less_eq_char_def read_word_def starts_with_def)
next
  case (3 m w)
  obtain c s where cs: "show_nat (unat w) = c # s" "is_ascii_digit c" using show_nat_Cons by blast
  with read_number_show [OF 3(3), of w] ascii_digit_other [OF cs(2)] 3(2) show ?case by (cases n) simp_all
next
  case (5 m s)
  then show ?case by (cases n) (simp_all add: quoted_def json_space_def read_string_plain)
next
  case (6 m)
  then show ?case by (cases n) (simp_all add: json_space_def starts_with_char_def)
next
  case (7 m v vs)
  obtain n' where n: "n = Suc n'" using 7(4) by (cases n) auto
  obtain c s where c: "pretty (Suc m) v = c # s" "\<not> json_space c" "c \<noteq> CHR '']''"
    using pretty_Cons by blast
  have v: "read_value n' (pretty (Suc m) v @ pretty_elems (Suc m) vs @ line m @ CHR '']'' # rest) =
      Some (v, pretty_elems (Suc m) vs @ line m @ CHR '']'' # rest)"
    using 7(3,4) by (intro 7(1)) (simp_all add: n no_digit_tails)
  have vs: "read_elems n' (pretty_elems (Suc m) vs @ line m @ CHR '']'' # rest) = Some (vs, rest)"
    using 7(3,4) by (intro 7(2)) (simp_all add: n)
  show ?case using v vs c by (simp add: n json_space_def starts_with_char_def)
next
  case (8 m)
  then show ?case by (cases n) (simp_all add: json_space_def starts_with_char_def)
next
  case (9 m k v ms)
  obtain n' where n: "n = Suc n'" using 9(4) by (cases n) auto
  have v: "read_value n' (CHR 0x20 # pretty (Suc m) v @ pretty_members (Suc m) ms @ line m @ CHR ''}'' # rest) =
      Some (v, pretty_members (Suc m) ms @ line m @ CHR ''}'' # rest)"
    using 9(1) [of n' "pretty_members (Suc m) ms @ line m @ CHR ''}'' # rest"] 9(3,4)
      read_value_skip [of n' "CHR 0x20 # s" for s] read_value_skip [of n' "pretty (Suc m) v @ s" for s]
    by (simp add: n no_digit_tails json_space_def)
  have ms: "read_members n' (pretty_members (Suc m) ms @ line m @ CHR ''}'' # rest) = Some (ms, rest)"
    using 9(3,4) by (intro 9(2)) (auto simp: n)
  have k: "read_key (line (Suc m) @ quoted k @ CHR '':'' # s) = Some (k, s)" for s
    using 9(3) by (simp add: read_key_quoted)
  show ?case using v ms k by (simp add: n json_space_def starts_with_char_def quoted_def)
next
  case (10 m)
  then show ?case by (cases n) (simp_all add: json_space_def)
next
  case (11 m v vs)
  obtain n' where n: "n = Suc n'" using 11(4) by (cases n) auto
  have v: "read_value n' (pretty m v @ pretty_elems m vs @ line k @ CHR '']'' # rest) =
      Some (v, pretty_elems m vs @ line k @ CHR '']'' # rest)"
    using 11(3,4) by (intro 11(1)) (simp_all add: n no_digit_tails)
  have vs: "read_elems n' (pretty_elems m vs @ line k @ CHR '']'' # rest) = Some (vs, rest)"
    using 11(3,4) by (intro 11(2)) (simp_all add: n)
  show ?case using v vs by (simp add: n json_space_def)
next
  case (12 m)
  then show ?case by (cases n) (simp_all add: json_space_def)
next
  case (13 m k' v ms)
  obtain n' where n: "n = Suc n'" using 13(4) by (cases n) auto
  have v: "read_value n' (CHR 0x20 # pretty m v @ pretty_members m ms @ line k @ CHR ''}'' # rest) =
      Some (v, pretty_members m ms @ line k @ CHR ''}'' # rest)"
    using 13(1) [of n' "pretty_members m ms @ line k @ CHR ''}'' # rest"] 13(3,4)
      read_value_skip [of n' "CHR 0x20 # s" for s] read_value_skip [of n' "pretty m v @ s" for s]
    by (simp add: n no_digit_tails json_space_def)
  have ms: "read_members n' (pretty_members m ms @ line k @ CHR ''}'' # rest) = Some (ms, rest)"
    using 13(3,4) by (intro 13(2)) (simp_all add: n)
  have k': "read_key (line m @ quoted k' @ CHR '':'' # s) = Some (k', s)" for s
    using 13(3) by (simp add: read_key_quoted)
  show ?case using v ms k' by (simp add: n json_space_def quoted_def)
qed simp_all

lemma json_read_pretty: "plain_json v \<Longrightarrow> json_read (pretty m v) = Some v"
  using read_pretty(1) [of v m "Suc (length (pretty m v))" "[]"] by (simp add: json_read_def no_digit_def)

section \<open>What is written is JSON text\<close>

text \<open>The layout of an object, its members given with the text of their values.\<close>

fun more_members :: "nat \<Rightarrow> (string \<times> string) list \<Rightarrow> string" where
  "more_members n [] = []"
| "more_members n ((k, s) # es) = '','' @ line n @ quoted k @ '': '' @ s @ more_members n es"

fun object_text :: "nat \<Rightarrow> (string \<times> string) list \<Rightarrow> string" where
  "object_text n [] = ''{}''"
| "object_text n ((k, s) # es) =
     ''{'' @ line (Suc n) @ quoted k @ '': '' @ s @ more_members (Suc n) es @ line n @ ''}''"

lemma pretty_members_text: "pretty_members n ms = more_members n (map (map_prod id (pretty n)) ms)"
  by (induction ms) auto

lemma pretty_object_text: "pretty n (JObject ms) = object_text n (map (map_prod id (pretty (Suc n))) ms)"
  by (cases ms) (auto simp: pretty_members_text)

lemma ws_line [simp]: "ws (line n)" "ws []" "ws [CHR 0x20]"
  by (simp_all add: ws_def line_def is_ascii_whitespace_def list_all_iff)

lemma raw_body_plain: "json_plain s \<Longrightarrow> raw_body s"
  by (induction s) (auto simp: json_plain_def)

lemma jmembers_text:
  assumes "raw_body k" and "jvalue t s" and "\<forall>(k, t, s) \<in> set es. raw_body k \<and> jvalue t s" and "ws w"
  shows "jmembers ((k, t) # map (\<lambda>(k, t, s). (k, t)) es)
    (line n @ quoted k @ '': '' @ s @ more_members n (map (\<lambda>(k, t, s). (k, s)) es) @ w)"
  using assms
proof (induction es arbitrary: k t s)
  case Nil
  then show ?case using jmembers_one [of "line n" k "[]" "[CHR 0x20]" t s w] by simp
next
  case (Cons e es)
  obtain k' t' s' where e: "e = (k', t', s')" using prod_cases3 by blast
  have "jmembers ((k', t') # map (\<lambda>(k, t, s). (k, t)) es)
      (line n @ quoted k' @ '': '' @ s' @ more_members n (map (\<lambda>(k, t, s). (k, s)) es) @ w)"
    using Cons.prems e by (intro Cons.IH) auto
  then show ?case
    using Cons.prems e
      jmembers_more [of "line n" k "[]" "[CHR 0x20]" t s "[]" "(k', t')" "map (\<lambda>(k, t, s). (k, t)) es"
        "line n @ quoted k' @ '': '' @ s' @ more_members n (map (\<lambda>(k, t, s). (k, s)) es) @ w"]
    by simp
qed

lemma jvalue_object_text:
  assumes "\<forall>(k, t, s) \<in> set es. raw_body k \<and> jvalue t s"
  shows "jvalue (TObj (map (\<lambda>(k, t, s). (k, t)) es)) (object_text n (map (\<lambda>(k, t, s). (k, s)) es))"
proof (cases es)
  case Nil
  then show ?thesis using jobj [OF jmembers_none, of "[]"] by simp
next
  case (Cons e es')
  obtain k t s where e: "e = (k, t, s)" using prod_cases3 by blast
  have "jmembers ((k, t) # map (\<lambda>(k, t, s). (k, t)) es')
      (line (Suc n) @ quoted k @ '': '' @ s @ more_members (Suc n) (map (\<lambda>(k, t, s). (k, s)) es') @ line n)"
    using assms Cons e by (intro jmembers_text) auto
  then show ?thesis using jobj Cons e by fastforce
qed

lemma jelems_text:
  assumes "\<forall>u \<in> set (v # vs). jvalue (f u) (pretty n u)" and "ws w"
  shows "jelems (f v # map f vs) (line n @ pretty n v @ pretty_elems n vs @ w)"
  using assms
proof (induction vs arbitrary: v)
  case Nil
  then show ?case using jelems_one [of "line n" "f v" "pretty n v" w] by simp
next
  case (Cons u vs)
  then have "jelems (f u # map f vs) (line n @ pretty n u @ pretty_elems n vs @ w)" by simp
  then show ?case
    using Cons.prems jelems_more [of "line n" "f v" "pretty n v" "[]" "f u" "map f vs"
        "line n @ pretty n u @ pretty_elems n vs @ w"] by simp
qed

primrec tree_of :: "json \<Rightarrow> jtree" where
  "tree_of Null = TLit ''null''"
| "tree_of (JBool b) = TLit (if b then ''true'' else ''false'')"
| "tree_of (JNumber n) = TLit (pretty 0 (JNumber n))"
| "tree_of (JString s) = TStr s"
| "tree_of (JArray vs) = TArr (map tree_of vs)"
| "tree_of (JObject ms) = TObj (map (map_prod id tree_of) ms)"

lemma jvalue_pretty: "plain_json v \<Longrightarrow> jvalue (tree_of v) (pretty n v)"
proof (induction v arbitrary: n)
  case (JNumber k)
  then obtain w where k: "k = PosInt w" by (cases k) auto
  have "list_all plain_char (show_nat (unat w))"
    using show_nat_digits ascii_digit_other by (fastforce simp: list_all_iff plain_char_def is_ascii_digit_def less_eq_char_def)
  then show ?case by (simp add: k jlit)
next
  case (JArray vs)
  show ?case
  proof (cases vs)
    case Nil
    then show ?thesis using jarr [OF jelems_none, of "[]"] by simp
  next
    case (Cons u us)
    have "jelems (tree_of u # map tree_of us) (line (Suc n) @ pretty (Suc n) u @ pretty_elems (Suc n) us @ line n)"
      using JArray Cons by (intro jelems_text) auto
    then show ?thesis using jarr Cons by fastforce
  qed
next
  case (JObject ms)
  let ?es = "map (\<lambda>(k, v). (k, tree_of v, pretty (Suc n) v)) ms"
  have "jvalue (TObj (map (\<lambda>(k, t, s). (k, t)) ?es)) (object_text n (map (\<lambda>(k, t, s). (k, s)) ?es))"
    using JObject by (intro jvalue_object_text) (fastforce intro: raw_body_plain)
  moreover have "map (\<lambda>(k, t, s). (k, t)) ?es = map (map_prod id tree_of) ms"
    "map (\<lambda>(k, t, s). (k, s)) ?es = map (map_prod id (pretty (Suc n))) ms" by auto
  ultimately show ?case by (metis pretty_object_text tree_of.simps(6))
qed (auto simp: plain_char_def raw_body_plain intro: jlit jstr)

lemma tree_of_unique: "plain_json v \<Longrightarrow> \<not> repeats_name (tree_of v)"
proof (induction v)
  case (JObject ms)
  then show ?case by (fastforce simp: list_ex_iff comp_def)
qed (auto simp: list_ex_iff)

section \<open>What is asked of a JSON library\<close>

text \<open>
  A reader of JSON gives the value of every text that the reader here takes, up to the nesting that
  \<^verbatim>\<open>serde_json\<close> allows, and refuses a text that is empty, that begins like \<^verbatim>\<open>true\<close> and is not, or that
  opens an object which no brace closes at the end.  A writer in member order writes plain members in
  the layout of \<open>pretty\<close>.
\<close>

fun nests_within :: "nat \<Rightarrow> json \<Rightarrow> bool" where
  "nests_within 0 (JArray vs) = False"
| "nests_within 0 (JObject ms) = False"
| "nests_within (Suc n) (JArray vs) = (\<forall>v \<in> set vs. nests_within n v)"
| "nests_within (Suc n) (JObject ms) = (\<forall>m \<in> set ms. nests_within n (snd m))"
| "nests_within n v = True"

definition reads_plain :: "ext \<Rightarrow> bool" where
  "reads_plain E \<longleftrightarrow> (\<forall>s v. json_read s = Some v \<and> nests_within 127 v \<longrightarrow> ext_parse_json E s = Some v)"

definition refused_text :: "string \<Rightarrow> bool" where
  "refused_text s \<longleftrightarrow>
     (case skip_ws s of [] \<Rightarrow> True | c # cs \<Rightarrow>
        (c = CHR ''t'' \<and> \<not> starts_with (c # cs) ''true'') \<or>
        (c = CHR ''{'' \<and> \<not> starts_with_char (skip_ws (rev cs)) (CHR ''}'')))"

definition refuses :: "ext \<Rightarrow> bool" where
  "refuses E \<longleftrightarrow> (\<forall>s. refused_text s \<longrightarrow> ext_parse_json E s = None)"

definition writes_plain :: "((string \<times> json) list \<Rightarrow> string) \<Rightarrow> bool" where
  "writes_plain to_text \<longleftrightarrow> (\<forall>kvs. plain_json (JObject kvs) \<longrightarrow> to_text kvs = pretty 0 (JObject kvs))"

lemma nests_within_mono: "nests_within m v \<Longrightarrow> m \<le> n \<Longrightarrow> nests_within n v"
proof (induction m v arbitrary: n rule: nests_within.induct)
  case (3 m vs)
  then show ?case by (cases n) auto
next
  case (4 m ms)
  then show ?case by (cases n) auto
qed simp_all

lemma nests_within_leaf [simp]:
  "nests_within n Null" "nests_within n (JBool b)" "nests_within n (JNumber k)" "nests_within n (JString s)"
  by (cases n; simp)+

lemma reads_plainD: "reads_plain E \<Longrightarrow> json_read s = Some v \<Longrightarrow> nests_within 127 v \<Longrightarrow> ext_parse_json E s = Some v"
  by (simp add: reads_plain_def)

lemma reads_written:
  assumes "reads_plain E" and "writes_plain to_text" and "plain_json (JObject kvs)" and "nests_within 127 (JObject kvs)"
  shows "ext_parse_json E (to_text kvs) = Some (JObject kvs)"
  using assms json_read_pretty [OF assms(3), of 0] by (simp add: reads_plain_def writes_plain_def del: plain_json.simps)

text \<open>A written object repeats no member name, at any depth.\<close>

lemma written_unique:
  assumes "plain_json v"
  shows "\<not> has_duplicate_member_names (pretty n v)"
  using scanner_spec(1) [OF jvalue_pretty [OF assms, of n], of "[]" "[]"] tree_of_unique [OF assms]
  by (simp add: has_duplicate_member_names_def colon_follows_def starts_with_char_def)

text \<open>The reader here meets both laws of a reader.\<close>

lemma skip_ws_suffix: "suffix (skip_ws s) s"
  by (simp add: skip_ws_def suffix_dropWhile)

lemma skip_ws_Cons_suffix: "skip_ws s = c # cs \<Longrightarrow> suffix cs s"
  using skip_ws_suffix [of s] by (metis suffix_ConsD)

lemma tl_skip_ws_suffix: "suffix (tl (skip_ws s)) s"
  using skip_ws_suffix [of s] by (meson suffix_order.trans suffix_tl)

lemma read_string_suffix: "read_string s = Some (t, r) \<Longrightarrow> suffix r s"
proof (induction s arbitrary: t)
  case (Cons c s)
  then show ?case by (auto split: if_splits intro: suffix_ConsI)
qed simp

lemma read_key_suffix: "read_key s = Some (k, r) \<Longrightarrow> suffix r s"
proof -
  assume "read_key s = Some (k, r)"
  then obtain cs u where "skip_ws s = CHR 0x22 # cs" "read_string cs = Some (k, u)" "skip_ws u = CHR '':'' # r"
    by (auto simp: read_key_def split: list.splits option.splits prod.splits if_splits)
  then show ?thesis using skip_ws_Cons_suffix read_string_suffix by (meson suffix_order.trans)
qed

lemma read_word_suffix: "read_word s = Some (v, r) \<Longrightarrow> suffix r s"
  by (auto simp: read_word_def suffix_drop split: if_splits)

lemma read_number_suffix: "read_number s = Some (v, r) \<Longrightarrow> suffix r s"
  by (auto simp: read_number_def Let_def suffix_dropWhile split: if_splits)

lemma read_suffixes:
  "(\<forall>s v r. read_value n s = Some (v, r) \<longrightarrow> suffix r s) \<and>
   (\<forall>s vs r. read_elems n s = Some (vs, r) \<longrightarrow> suffix r s) \<and>
   (\<forall>s ms r. read_members n s = Some (ms, r) \<longrightarrow> suffix (CHR ''}'' # r) s)"
proof (induction n)
  case (Suc n)
  then have val: "read_value n s = Some (v, r) \<Longrightarrow> suffix r s"
    and elems: "read_elems n s = Some (vs, r) \<Longrightarrow> suffix r s"
    and members: "read_members n s = Some (ms, r) \<Longrightarrow> suffix (CHR ''}'' # r) s" for s v vs ms r by blast+
  have "suffix r s" if read: "read_value (Suc n) s = Some (v, r)" for s v r
  proof -
    from that obtain c cs where s: "skip_ws s = c # cs" by (auto split: list.splits)
    consider (arr0) "r = tl (skip_ws cs)"
      | (arr) u r1 us where "read_value n cs = Some (u, r1)" "read_elems n r1 = Some (us, r)"
      | (obj) k r1 u r2 ms where "read_key cs = Some (k, r1)" "read_value n r1 = Some (u, r2)" "read_members n r2 = Some (ms, r)"
      | (str) t where "read_string cs = Some (t, r)"
      | (lit) "read_number (c # cs) = Some (v, r) \<or> read_word (c # cs) = Some (v, r)"
      using read s by (auto split: if_splits option.splits)
    then have "suffix r (c # cs)"
    proof cases
      case arr0
      then show ?thesis using tl_skip_ws_suffix by (simp add: suffix_ConsI)
    next
      case arr
      then show ?thesis using suffix_order.trans [OF elems val] by (simp add: suffix_ConsI)
    next
      case obj
      from members [OF obj(3)] val [OF obj(2)] read_key_suffix [OF obj(1)] have "suffix r cs"
        by (meson suffix_ConsD suffix_order.trans)
      then show ?thesis by (simp add: suffix_ConsI)
    qed (auto intro: suffix_ConsI read_string_suffix dest: read_number_suffix read_word_suffix)
    then show ?thesis using skip_ws_suffix [of s] s by (metis suffix_order.trans)
  qed
  moreover have "suffix r s" if "read_elems (Suc n) s = Some (vs, r)" for s vs r
  proof -
    from that obtain c cs where s: "skip_ws s = c # cs" by (auto split: list.splits)
    have "r = cs \<or> (\<exists>u r1 us. read_value n cs = Some (u, r1) \<and> read_elems n r1 = Some (us, r))"
      using that s by (auto split: if_splits option.splits)
    then have "suffix r cs" using suffix_order.trans [OF elems val] by auto
    then show ?thesis using skip_ws_Cons_suffix [OF s] by (rule suffix_order.trans)
  qed
  moreover have "suffix (CHR ''}'' # r) s" if "read_members (Suc n) s = Some (ms, r)" for s ms r
  proof -
    from that obtain c cs where s: "skip_ws s = c # cs" by (auto split: list.splits)
    have "c = CHR ''}'' \<and> r = cs \<or> (\<exists>k r1 u r2 us. read_key cs = Some (k, r1) \<and> read_value n r1 = Some (u, r2) \<and>
        read_members n r2 = Some (us, r))"
      using that s by (auto split: if_splits option.splits)
    then show ?thesis
    proof
      assume "c = CHR ''}'' \<and> r = cs"
      then show ?thesis using skip_ws_suffix [of s] s by simp
    next
      assume "\<exists>k r1 u r2 us. read_key cs = Some (k, r1) \<and> read_value n r1 = Some (u, r2) \<and> read_members n r2 = Some (us, r)"
      then have "suffix (CHR ''}'' # r) cs" using members val read_key_suffix by (meson suffix_order.trans)
      then show ?thesis using skip_ws_Cons_suffix [OF s] by (rule suffix_order.trans)
    qed
  qed
  ultimately show ?case by blast
qed simp

lemma skip_ws_rev:
  assumes "skip_ws r = []"
  shows "skip_ws (rev r @ CHR ''}'' # s) = CHR ''}'' # s"
  using assms by (auto simp: skip_ws_def dropWhile_eq_Nil_conv json_space_def dropWhile_append)

text \<open>An object is read up to a brace.\<close>

lemma read_object_closed:
  assumes "read_value n s = Some (v, r)" and "skip_ws s = CHR ''{'' # cs"
  shows "suffix (CHR ''}'' # r) cs"
proof (cases n)
  case (Suc m)
  show ?thesis
  proof (cases "starts_with_char (skip_ws cs) (CHR ''}'')")
    case True
    with assms Suc have "CHR ''}'' # r = skip_ws cs" by (cases "skip_ws cs") (simp_all add: starts_with_char_def)
    then show ?thesis using skip_ws_suffix by metis
  next
    case False
    with assms Suc obtain k r1 u r2 ms where "read_key cs = Some (k, r1)" "read_value m r1 = Some (u, r2)"
        "read_members m r2 = Some (ms, r)"
      by (auto split: option.splits)
    then show ?thesis using read_suffixes [of m] read_key_suffix by (meson suffix_order.trans)
  qed
qed (use assms in simp)

lemma json_read_refuses: "refused_text s \<Longrightarrow> json_read s = None"
proof (rule ccontr)
  assume refused: "refused_text s" and "json_read s \<noteq> None"
  then obtain v r where v: "read_value (Suc (length s)) s = Some (v, r)" and r: "skip_ws r = []"
    by (auto simp: json_read_def split: option.splits if_splits)
  from v obtain c cs where s: "skip_ws s = c # cs" by (auto split: list.splits)
  from refused s consider "c = CHR ''t''" "\<not> starts_with (c # cs) ''true''"
    | "c = CHR ''{''" "\<not> starts_with_char (skip_ws (rev cs)) (CHR ''}'')"
    by (auto simp: refused_text_def)
  then show False
  proof cases
    case 1
    then show False using v s by (simp add: is_ascii_digit_def less_eq_char_def read_word_def starts_with_def)
  next
    case 2
    obtain p where "cs = p @ CHR ''}'' # r" using read_object_closed [OF v] s 2(1) by (auto simp: suffix_def)
    with 2(2) skip_ws_rev [OF r, of "rev p"] show False by (simp add: starts_with_char_def)
  qed
qed

section \<open>A writer for any strings\<close>

text \<open>The members of an object on one line: strings escaped where JSON has to, numbers by their digits.\<close>

definition escape_text :: "string \<Rightarrow> string" where
  "escape_text s = concat (map (\<lambda>c. if c = CHR 0x22 \<or> c = CHR 0x5C then [CHR 0x5C, c] else [c]) s)"

primrec written_tree :: "json \<Rightarrow> jtree" where
  "written_tree Null = TLit ''null''"
| "written_tree (JBool b) = TLit (if b then ''true'' else ''false'')"
| "written_tree (JNumber n) = TLit (case n of PosInt w \<Rightarrow> show_nat (unat w) | _ \<Rightarrow> ''null'')"
| "written_tree (JString s) = TStr (escape_text s)"
| "written_tree (JArray vs) = TArr (map written_tree vs)"
| "written_tree (JObject ms) = TObj (map (map_prod escape_text written_tree) ms)"

definition write_members :: "(string \<times> json) list \<Rightarrow> string" where
  "write_members kvs = compact (written_tree (JObject kvs))"

lemma raw_body_escape: "raw_body (escape_text s)"
proof -
  have "raw_body r \<Longrightarrow> raw_body (escape_text s @ r)" for r
    by (induction s) (auto simp: escape_text_def)
  from this [of "[]"] show ?thesis by simp
qed

lemma written_tree_ok: "jtree_ok (written_tree v)"
proof (induction v)
  case (JNumber n)
  have "list_all plain_char (show_nat k)" for k
    using show_nat_digits ascii_digit_other by (fastforce simp: list_all_iff plain_char_def is_ascii_digit_def less_eq_char_def)
  then show ?case by (cases n) (simp_all add: plain_char_def)
next
  case (JObject ms)
  then show ?case by (auto simp: list_all_iff raw_body_escape)
qed (auto simp: raw_body_escape list_all_iff plain_char_def)

end
