(* ===== verification/Vaid_Emitters.thy ===== *)
theory Vaid_Emitters
  imports Vaid_Mint_Firewall Vaid_World
begin

text \<open>
  The programs that print the frozen vectors (\<^verbatim>\<open>crates/vaid-mint/examples/emit_*.rs\<close>): each builds its
  documents through the library from inputs fixed in its source, signs them and writes the JSON
  value that a conformance program reads back.  \<^term>\<open>None\<close> is a panic (an \<^verbatim>\<open>unwrap\<close> of a literal the
  library does not read); \<open>prose\<close> gives the explanatory texts, by the member or the case they belong to, which no
  check reads.  The result is the value handed to \<^verbatim>\<open>to_string_pretty\<close>.
\<close>

definition json_object :: "(string \<times> json) list \<Rightarrow> json" where
  "json_object kvs = JObject (map_collect kvs)"

definition prose_members :: "(string \<Rightarrow> string) \<Rightarrow> string \<Rightarrow> string list \<Rightarrow> json" where
  "prose_members prose at ks = json_object (map (\<lambda>k. (k, JString (prose (at @ CHR ''.'' # k)))) ks)"

definition unhex :: "string \<Rightarrow> bytes option" where
  "unhex s = (case unhex_strict s of Inr bs \<Rightarrow> Some bs | Inl e \<Rightarrow> None)"

definition KERNEL_SEED_HEX :: string where
  "KERNEL_SEED_HEX = ''000102030405060708090a0b0c0d0e0f101112131415161718191a1b1c1d1e1f''"

text \<open>\<^verbatim>\<open>(0u8..32).collect()\<close>\<close>

definition fixed_key_bytes :: bytes where
  "fixed_key_bytes = map word_of_nat [0..<32]"

definition kernel_key_pair :: "ext \<Rightarrow> keypair option" where
  "kernel_key_pair E = unhex KERNEL_SEED_HEX \<bind> ext_from_seed E"

section \<open>The mint vector\<close>

definition emit_mint_vector :: "(string \<Rightarrow> string) \<Rightarrow> ext \<Rightarrow> json option" where
  "emit_mint_vector prose E =
     do { agent_uuid \<leftarrow> ext_uuid_parse E ''aaaaaaaa-aaaa-aaaa-aaaa-aaaaaaaaaaaa'';
          parent_uuid \<leftarrow> ext_uuid_parse E ''11111111-1111-1111-1111-111111111111'';
          let iat = ''2026-06-04T12:00:00Z'';
          let eat = ''2026-06-05T12:00:00Z'';
          let scope = [prefix_entry ''data.aifactory.sub''];
          kernel_kp \<leftarrow> kernel_key_pair E;
          let kernel_pub = ext_public_key E kernel_kp;
          let kernel_thumbprint = kernel_key_thumbprint E kernel_pub;
          let lineage_hash = compute_lineage_hash E (Some parent_uuid) agent_uuid;
          issued \<leftarrow> ext_parse_rfc3339 E iat;
          expires \<leftarrow> ext_parse_rfc3339 E eat;
          let unsigned = with_lineage E agent_uuid ''child'' ''1.0.0'' ''aifactory'' issued expires fixed_key_bytes []
            (Some parent_uuid) scope lineage_hash [''read''] ''vaid.example'' kernel_thumbprint;
          let digest = canonical_vaid_signing_bytes E unsigned;
          let signature = ext_sign E kernel_kp digest;
          let input = json_object
            [(''sig_version'', ser_u8 VAID_SIG_VERSION_V4),
             (''vaid_id'', JString (ext_uuid_to_string E agent_uuid)),
             (''agent_id'', JString (ext_uuid_to_string E agent_uuid)),
             (''agent_class'', JString ''child''),
             (''version'', JString ''1.0.0''),
             (''tenant_id'', JString ''aifactory''),
             (''issued_at'', JString iat),
             (''expires_at'', JString eat),
             (''public_key_der'', ser_bytes fixed_key_bytes),
             (''kernel_signature'', JArray []),
             (''parent_vaid'', JString (ext_uuid_to_string E parent_uuid)),
             (''scope_boundary'', JArray (map ser_scope_entry scope)),
             (''lineage_hash'', JString lineage_hash),
             (''capability_set'', ser_strings [''read'']),
             (''trust_domain'', JString ''vaid.example''),
             (''kernel_key_thumbprint'', JString kernel_thumbprint)];
          Some (json_object
            [(''_comment'', JString (prose ''_comment'')),
             (''scheme'', JString (prose ''scheme'')),
             (''input'', input),
             (''digest_sha256_hex'', JString (to_hex digest)),
             (''ed25519'', json_object
                [(''_comment'', JString (prose ''ed25519'')),
                 (''kernel_private_key_seed_hex'', JString KERNEL_SEED_HEX),
                 (''kernel_public_key_hex'', JString (to_hex kernel_pub)),
                 (''signature_hex'', JString (to_hex signature))])]) }"

section \<open>The chain vector\<close>

record chain_hop =
  ch_role :: string
  ch_agent_uuid :: string
  ch_agent_class :: string
  ch_parent_uuid :: "string option"
  ch_scope_boundary :: "scope_entry list"
  ch_capability_set :: "string list"

definition ROOT_UUID :: string where "ROOT_UUID = ''c0000000-0000-0000-0000-000000000001''"
definition MID_UUID :: string where "MID_UUID = ''c0000000-0000-0000-0000-000000000002''"
definition LEAF_UUID :: string where "LEAF_UUID = ''c0000000-0000-0000-0000-000000000003''"

definition CHAIN_HOPS :: "chain_hop list" where
  "CHAIN_HOPS =
     [\<lparr>ch_role = ''root'', ch_agent_uuid = ROOT_UUID, ch_agent_class = ''orchestrator'', ch_parent_uuid = None,
       ch_scope_boundary = [prefix_entry ''data.aifactory''], ch_capability_set = [''read'', ''write'']\<rparr>,
      \<lparr>ch_role = ''intermediate'', ch_agent_uuid = MID_UUID, ch_agent_class = ''planner'', ch_parent_uuid = Some ROOT_UUID,
       ch_scope_boundary = [prefix_entry ''data.aifactory.sub''], ch_capability_set = [''read'']\<rparr>,
      \<lparr>ch_role = ''leaf'', ch_agent_uuid = LEAF_UUID, ch_agent_class = ''worker'', ch_parent_uuid = Some MID_UUID,
       ch_scope_boundary = [prefix_entry ''data.aifactory.sub.task''], ch_capability_set = [''read'']\<rparr>]"

definition VERIFICATION_INSTANT :: string where
  "VERIFICATION_INSTANT = ''2026-06-04T18:00:00Z''"

text \<open>A parent named by a literal: a missing one is fine, one that is not a UUID panics.\<close>

definition parse_parent :: "ext \<Rightarrow> string option \<Rightarrow> uuid option option" where
  "parse_parent E p = (case p of None \<Rightarrow> Some None | Some s \<Rightarrow> map_option Some (ext_uuid_parse E s))"

definition opt_string :: "string option \<Rightarrow> json" where
  "opt_string s = (case s of None \<Rightarrow> Null | Some t \<Rightarrow> JString t)"

text \<open>The body of the loop over the hops.\<close>

definition emit_chain_hop :: "ext \<Rightarrow> keypair \<Rightarrow> chain_hop \<Rightarrow> json option" where
  "emit_chain_hop E kernel_kp hop =
     do { let iat = ''2026-06-04T12:00:00Z'';
          let eat = ''2026-06-05T12:00:00Z'';
          let kernel_thumbprint = kernel_key_thumbprint E (ext_public_key E kernel_kp);
          agent_uuid \<leftarrow> ext_uuid_parse E (ch_agent_uuid hop);
          parent \<leftarrow> parse_parent E (ch_parent_uuid hop);
          let lineage_hash = compute_lineage_hash E parent agent_uuid;
          issued \<leftarrow> ext_parse_rfc3339 E iat;
          expires \<leftarrow> ext_parse_rfc3339 E eat;
          let unsigned = with_lineage E agent_uuid (ch_agent_class hop) ''1.0.0'' ''aifactory'' issued expires
            fixed_key_bytes [] parent (ch_scope_boundary hop) lineage_hash (ch_capability_set hop) ''vaid.example''
            kernel_thumbprint;
          let digest = canonical_vaid_signing_bytes E unsigned;
          let signature = ext_sign E kernel_kp digest;
          Some (json_object
            [(''_role'', JString (ch_role hop)),
             (''digest_sha256_hex'', JString (to_hex digest)),
             (''signature_hex'', JString (to_hex signature)),
             (''document'', json_object
                [(''sig_version'', ser_u8 VAID_SIG_VERSION_V4),
                 (''vaid_id'', JString (ch_agent_uuid hop)),
                 (''agent_id'', JString (ch_agent_uuid hop)),
                 (''agent_class'', JString (ch_agent_class hop)),
                 (''version'', JString ''1.0.0''),
                 (''tenant_id'', JString ''aifactory''),
                 (''issued_at'', JString iat),
                 (''expires_at'', JString eat),
                 (''public_key_der'', ser_bytes fixed_key_bytes),
                 (''kernel_signature'', JArray []),
                 (''parent_vaid'', opt_string (ch_parent_uuid hop)),
                 (''scope_boundary'', JArray (map ser_scope_entry (ch_scope_boundary hop))),
                 (''lineage_hash'', JString lineage_hash),
                 (''capability_set'', ser_strings (ch_capability_set hop)),
                 (''trust_domain'', JString ''vaid.example''),
                 (''kernel_key_thumbprint'', JString kernel_thumbprint)])]) }"

definition emit_chain_vector :: "(string \<Rightarrow> string) \<Rightarrow> ext \<Rightarrow> json option" where
  "emit_chain_vector prose E =
     do { kernel_kp \<leftarrow> kernel_key_pair E;
          let kernel_pub = ext_public_key E kernel_kp;
          chain_json \<leftarrow> those (map (emit_chain_hop E kernel_kp) CHAIN_HOPS);
          let outcome =
            [(''assembled_lineage'', ser_strings [ROOT_UUID, MID_UUID, LEAF_UUID]),
             (''verification'', JString ''attenuated''),
             (''verification_instant'', JString VERIFICATION_INSTANT)];
          let contract = json_object [(''chain'', JArray chain_json), (''expected'', json_object outcome)];
          let contract_digest = to_hex (ext_sha256 E (ext_jcs E contract));
          Some (json_object
            [(''_comment'', JString (prose ''_comment'')),
             (''ed25519'', json_object
                [(''_comment'', JString (prose ''ed25519'')),
                 (''kernel_private_key_seed_hex'', JString KERNEL_SEED_HEX),
                 (''kernel_public_key_hex'', JString (to_hex kernel_pub)),
                 (''kernel_key_thumbprint'', JString (kernel_key_thumbprint E kernel_pub))]),
             (''digest_sha256_hex'', JString contract_digest),
             (''chain'', JArray chain_json),
             (''expected'', json_object ((''_comment'', JString (prose ''expected'')) # outcome))]) }"

section \<open>The chain-expiry vector\<close>

record expiry_case =
  xc_group :: nat
  xc_name :: string
  xc_expires_at :: "string list"
  xc_expected_verification :: string

definition EXPIRY_CASES :: "expiry_case list" where
  "EXPIRY_CASES =
     [\<lparr>xc_group = 1, xc_name = ''control: a chain live at the instant, every expiry contained'',
       xc_expires_at = [''2999-01-01T00:00:00Z'', ''2998-01-01T00:00:00Z'', ''2997-01-01T00:00:00Z''],
       xc_expected_verification = ''attenuated''\<rparr>,
      \<lparr>xc_group = 2, xc_name = ''boundary control: a child expiring at EXACTLY its parent's expires_at'',
       xc_expires_at = [''2999-01-01T00:00:00Z'', ''2999-01-01T00:00:00Z'', ''2999-01-01T00:00:00Z''],
       xc_expected_verification = ''attenuated''\<rparr>,
      \<lparr>xc_group = 3, xc_name = ''an expired ROOT makes the chain expired'',
       xc_expires_at = [''2006-01-02T00:00:00Z'', ''2006-01-02T00:00:00Z'', ''2006-01-02T00:00:00Z''],
       xc_expected_verification = ''expired''\<rparr>,
      \<lparr>xc_group = 4, xc_name = ''an expired INTERMEDIATE makes the chain expired'',
       xc_expires_at = [''2999-01-01T00:00:00Z'', ''2006-01-02T00:00:00Z'', ''2006-01-02T00:00:00Z''],
       xc_expected_verification = ''expired''\<rparr>,
      \<lparr>xc_group = 5, xc_name = ''a child outliving its parent is not attenuated, at any instant'',
       xc_expires_at = [''2999-01-01T00:00:00Z'', ''2997-01-01T00:00:00Z'', ''2998-01-01T00:00:00Z''],
       xc_expected_verification = ''not_attenuated''\<rparr>,
      \<lparr>xc_group = 6, xc_name = ''boundary, NOT an endorsement: an expired LEAF with live ancestors still verifies'',
       xc_expires_at = [''2999-01-01T00:00:00Z'', ''2999-01-01T00:00:00Z'', ''2006-01-02T00:00:00Z''],
       xc_expected_verification = ''attenuated''\<rparr>]"

text \<open>Role, agent class, scope and capabilities of the hops, the same in every case.\<close>

definition EXPIRY_HOPS :: "(string \<times> string \<times> string \<times> string list) list" where
  "EXPIRY_HOPS =
     [(''root'', ''orchestrator'', ''data.aifactory'', [''read'', ''write'']),
      (''intermediate'', ''planner'', ''data.aifactory.sub'', [''read'']),
      (''leaf'', ''worker'', ''data.aifactory.sub.task'', [''read''])]"

definition id_for :: "ext \<Rightarrow> nat \<Rightarrow> nat \<Rightarrow> uuid option" where
  "id_for E grp hop = ext_uuid_parse E (''e0000000-0000-0000-0000-0000000000'' @ show_nat grp @ show_nat hop)"

definition emit_expiry_hop ::
  "ext \<Rightarrow> keypair \<Rightarrow> expiry_case \<Rightarrow> nat \<times> string \<times> string \<times> string \<times> string list \<Rightarrow> json option" where
  "emit_expiry_hop E kernel_kp c entry =
     (let (hop_index, role, agent_class, scope, caps) = entry;
          hop = hop_index + 1;
          iat = ''2026-06-04T12:00:00Z'';
          thumbprint = kernel_key_thumbprint E (ext_public_key E kernel_kp) in
      do { i \<leftarrow> id_for E (xc_group c) hop;
           parent \<leftarrow> (if hop_index = 0 then Some None else map_option Some (id_for E (xc_group c) (hop - 1)));
           let lineage_hash = compute_lineage_hash E parent i;
           let scope_boundary = [prefix_entry scope];
           let eat = xc_expires_at c ! hop_index;
           issued \<leftarrow> ext_parse_rfc3339 E iat;
           expires \<leftarrow> ext_parse_rfc3339 E eat;
           let unsigned = with_lineage E i agent_class ''1.0.0'' ''aifactory'' issued expires fixed_key_bytes []
             parent scope_boundary lineage_hash caps ''vaid.example'' thumbprint;
           let digest = canonical_vaid_signing_bytes E unsigned;
           let signature = ext_sign E kernel_kp digest;
           Some (json_object
             [(''_role'', JString role),
              (''digest_sha256_hex'', JString (to_hex digest)),
              (''signature_hex'', JString (to_hex signature)),
              (''document'', json_object
                 [(''sig_version'', ser_u8 VAID_SIG_VERSION_V4),
                  (''vaid_id'', JString (ext_uuid_to_string E i)),
                  (''agent_id'', JString (ext_uuid_to_string E i)),
                  (''agent_class'', JString agent_class),
                  (''version'', JString ''1.0.0''),
                  (''tenant_id'', JString ''aifactory''),
                  (''issued_at'', JString iat),
                  (''expires_at'', JString eat),
                  (''public_key_der'', ser_bytes fixed_key_bytes),
                  (''kernel_signature'', ser_bytes signature),
                  (''parent_vaid'', opt_string (map_option (ext_uuid_to_string E) parent)),
                  (''scope_boundary'', JArray (map ser_scope_entry scope_boundary)),
                  (''lineage_hash'', JString lineage_hash),
                  (''capability_set'', ser_strings caps),
                  (''trust_domain'', JString ''vaid.example''),
                  (''kernel_key_thumbprint'', JString thumbprint)])]) })"

definition emit_expiry_case :: "(string \<Rightarrow> string) \<Rightarrow> ext \<Rightarrow> keypair \<Rightarrow> expiry_case \<Rightarrow> json option" where
  "emit_expiry_case prose E kernel_kp c =
     do { chain \<leftarrow> those (map (emit_expiry_hop E kernel_kp c) (List.enumerate 0 EXPIRY_HOPS));
          Some (json_object
            [(''name'', JString (xc_name c)),
             (''why'', JString (prose (xc_name c))),
             (''verification_instant'', JString VERIFICATION_INSTANT),
             (''chain'', JArray chain),
             (''expected_verification'', JString (xc_expected_verification c))]) }"

text \<open>The cases of the matcher: parent, child, expected outcome and name.\<close>

definition EXPIRY_CONTAINMENT :: "(string option \<times> string option \<times> string \<times> string) list" where
  "EXPIRY_CONTAINMENT =
     [(Some ''2026-06-05T12:00:00Z'', Some ''2026-06-05T11:00:00Z'', ''permitted'',
       ''control: a child ending before its parent is contained''),
      (Some ''2026-06-05T12:00:00Z'', Some ''2026-06-05T12:00:00Z'', ''permitted'', ''equality is contained''),
      (Some ''2026-06-05T12:00:00Z'', Some ''2026-06-05T12:00:01Z'', ''refused'', ''one second later is refused''),
      (Some ''2026-06-05T13:00:00+01:00'', Some ''2026-06-05T12:00:00Z'', ''permitted'',
       ''the comparison is by INSTANT, not by string''),
      (Some ''2026-06-05T12:00:00Z'', Some ''2026-06-05T13:00:01+01:00'', ''refused'',
       ''an offset form that really is later is refused''),
      (Some ''not a timestamp'', Some ''2026-06-05T11:00:00Z'', ''refused'', ''an unreadable parent expiry is refused''),
      (None, Some ''2026-06-05T11:00:00Z'', ''refused'', ''an absent parent expiry is refused''),
      (Some ''2026-06-05T12:00:00Z'', None, ''refused'', ''an absent child expiry is refused''),
      (Some ''2026-06-05T12:00:00'', Some ''2026-06-05T11:00:00Z'', ''refused'',
       ''a naive timestamp is not RFC 3339 and is refused'')]"

definition containment_json :: "(string \<Rightarrow> string) \<Rightarrow> string option \<times> string option \<times> string \<times> string \<Rightarrow> json" where
  "containment_json prose entry =
     (let (parent, child, outcome, name) = entry in json_object
        [(''child_expires_at'', opt_string child), (''expected'', JString outcome), (''name'', JString name),
         (''parent_expires_at'', opt_string parent), (''why'', JString (prose name))])"

definition emit_chain_expiry_vector :: "(string \<Rightarrow> string) \<Rightarrow> ext \<Rightarrow> json option" where
  "emit_chain_expiry_vector prose E =
     do { kernel_kp \<leftarrow> kernel_key_pair E;
          let kernel_pub = ext_public_key E kernel_kp;
          cases \<leftarrow> those (map (emit_expiry_case prose E kernel_kp) EXPIRY_CASES);
          Some (json_object
            [(''_comment'', JString (prose ''_comment'')),
             (''rule'', prose_members prose ''rule''
                [''an_unreadable_expiry_contains_nothing'', ''containment_is_not_equality_of_ttl'',
                 ''controls_are_load_bearing'', ''distance_not_a_clock'', ''equality_is_contained'',
                 ''lapse_is_checked_over_ANCESTORS_only'', ''order_of_faults_is_normative'', ''statement'']),
             (''mint_rule'', prose_members prose ''mint_rule''
                [''an_expired_parent_is_the_one_case_a_clamp_cannot_answer'', ''clamp_not_refuse_and_why'',
                 ''roots_are_not_clamped'', ''statement'', ''the_ceiling_is_an_instruction_the_mint_still_checks'']),
             (''verdicts'', json_object
                [(''chain'', ser_strings [''attenuated'', ''inauthentic'', ''unverifiable'', ''not_attenuated'',
                    ''expired'', ''consent_expired'']),
                 (''expiry_containment'', ser_strings [''permitted'', ''refused''])]),
             (''ed25519'', json_object
                [(''_comment'', JString (prose ''ed25519'')),
                 (''kernel_private_key_seed_hex'', JString KERNEL_SEED_HEX),
                 (''kernel_public_key_hex'', JString (to_hex kernel_pub)),
                 (''kernel_key_thumbprint'', JString (kernel_key_thumbprint E kernel_pub))]),
             (''expiry_containment'', JArray (map (containment_json prose) EXPIRY_CONTAINMENT)),
             (''cases'', JArray cases)]) }"

section \<open>What the emitters need of the libraries\<close>

text \<open>
  A UUID written in lowercase hexadecimal with hyphens is read, and printed back as written; an
  Ed25519 seed is any thirty-two bytes.
\<close>

definition lower_hex :: "char \<Rightarrow> bool" where
  "lower_hex c = (c \<in> set ''0123456789abcdef'')"

definition uuid_char :: "char \<Rightarrow> char \<Rightarrow> bool" where
  "uuid_char c p = (if p = CHR ''h'' then lower_hex c else c = p)"

definition uuid_shape :: "string \<Rightarrow> bool" where
  "uuid_shape s = list_all2 uuid_char s
     ''hhhhhhhh-hhhh-hhhh-hhhh-hhhhhhhhhhhh''"

definition uuid_canonical_ok :: "ext \<Rightarrow> bool" where
  "uuid_canonical_ok E \<longleftrightarrow>
     (\<forall>s. uuid_shape s \<longrightarrow> (\<exists>u. ext_uuid_parse E s = Some u \<and> ext_uuid_to_string E u = s))"

definition seed_ok :: "ext \<Rightarrow> bool" where
  "seed_ok E \<longleftrightarrow> (\<forall>s. length s = 32 \<longrightarrow> ext_from_seed E s \<noteq> None)"

text \<open>RFC 3339 in whole seconds: the proleptic Gregorian calendar, then the offset.\<close>

definition digits_at :: "string \<Rightarrow> nat \<Rightarrow> nat \<Rightarrow> int" where
  "digits_at s i n = foldl (\<lambda>a c. 10 * a + (of_char c - 48)) 0 (take n (drop i s))"

definition civil_days :: "int \<Rightarrow> int \<Rightarrow> int \<Rightarrow> int" where
  "civil_days y m d =
     (let y' = (if m \<le> 2 then y - 1 else y);
          era = y' div 400; yoe = y' mod 400;
          doy = (153 * (if m > 2 then m - 3 else m + 9) + 2) div 5 + d - 1
      in era * 146097 + (yoe * 365 + yoe div 4 - yoe div 100 + doy) - 719468)"

definition civil_instant :: "string \<Rightarrow> instant" where
  "civil_instant s =
     (civil_days (digits_at s 0 4) (digits_at s 5 2) (digits_at s 8 2) * 86400 +
      digits_at s 11 2 * 3600 + digits_at s 14 2 * 60 + digits_at s 17 2) * nanos_per_sec"

definition rfc3339_instant :: "string \<Rightarrow> instant option" where
  "rfc3339_instant s =
     (if e6_shape s then Some (civil_instant s)
      else if length s = 25 \<and> e6_shape (take 19 s @ ''Z'') \<and> s ! 19 \<in> {CHR ''+'', CHR ''-''}
      then Some (civil_instant s -
        (if s ! 19 = CHR ''+'' then 1 else -1) * (digits_at s 20 2 * 3600 + digits_at s 23 2 * 60) * nanos_per_sec)
      else None)"

text \<open>The library reads the literals so, and prints those of the profile as they are written.\<close>

definition reads_literals :: "ext \<Rightarrow> string list \<Rightarrow> bool" where
  "reads_literals E ss = list_all (\<lambda>s. ext_parse_rfc3339 E s = rfc3339_instant s \<and>
     (e6_shape s \<longrightarrow> ext_format_e6 E (civil_instant s) = s)) ss"

definition emitter_literals :: "string list" where
  "emitter_literals = [''2026-06-04T12:00:00Z'', ''2026-06-05T12:00:00Z'', ''2026-06-04T18:00:00Z'',
     ''2999-01-01T00:00:00Z'', ''2998-01-01T00:00:00Z'', ''2997-01-01T00:00:00Z'', ''2006-01-02T00:00:00Z'',
     ''2026-06-05T11:00:00Z'', ''2026-06-05T12:00:01Z'', ''2026-06-05T13:00:00+01:00'',
     ''2026-06-05T13:00:01+01:00'', ''not a timestamp'', ''2026-06-05T12:00:00'', []]"

definition emitter_laws :: "ext \<Rightarrow> bool" where
  "emitter_laws E \<longleftrightarrow> ed25519_correct E \<and> uuid_canonical_ok E \<and> seed_ok E \<and> reads_literals E emitter_literals"

section \<open>Lemmas\<close>

lemma index_json_object:
  "distinct (map fst kvs) \<Longrightarrow> index_member (json_object kvs) k = (case map_of kvs k of Some w \<Rightarrow> w | None \<Rightarrow> Null)"
  by (simp add: index_member_def json_object_def map_of_collect_distinct)

lemma get_json_object: "distinct (map fst kvs) \<Longrightarrow> get_member (json_object kvs) k = map_of kvs k"
  by (simp add: json_object_def map_of_collect_distinct)

text \<open>A literal of the profile: read as an instant that is printed as the literal.\<close>

definition stamps :: "ext \<Rightarrow> string \<Rightarrow> instant \<Rightarrow> bool" where
  "stamps E s t \<longleftrightarrow> ext_parse_rfc3339 E s = Some t \<and> ext_format_e6 E t = s"

lemma emitter_stamps:
  assumes "emitter_laws E"
  shows "stamps E ''2026-06-04T12:00:00Z'' 1780574400000000000" "stamps E ''2026-06-05T12:00:00Z'' 1780660800000000000"
    "stamps E ''2026-06-04T18:00:00Z'' 1780596000000000000" "stamps E ''2999-01-01T00:00:00Z'' 32472144000000000000"
    "stamps E ''2998-01-01T00:00:00Z'' 32440608000000000000" "stamps E ''2997-01-01T00:00:00Z'' 32409072000000000000"
    "stamps E ''2006-01-02T00:00:00Z'' 1136160000000000000"
proof -
  have r: "stamps E s t" if "s \<in> set emitter_literals" and "e6_shape s \<and> civil_instant s = t" for s t
    using assms that by (auto simp: emitter_laws_def reads_literals_def list_all_iff stamps_def rfc3339_instant_def)
  show "stamps E ''2026-06-04T12:00:00Z'' 1780574400000000000" by (rule r) (simp add: emitter_literals_def, code_simp)
  show "stamps E ''2026-06-05T12:00:00Z'' 1780660800000000000" by (rule r) (simp add: emitter_literals_def, code_simp)
  show "stamps E ''2026-06-04T18:00:00Z'' 1780596000000000000" by (rule r) (simp add: emitter_literals_def, code_simp)
  show "stamps E ''2999-01-01T00:00:00Z'' 32472144000000000000" by (rule r) (simp add: emitter_literals_def, code_simp)
  show "stamps E ''2998-01-01T00:00:00Z'' 32440608000000000000" by (rule r) (simp add: emitter_literals_def, code_simp)
  show "stamps E ''2997-01-01T00:00:00Z'' 32409072000000000000" by (rule r) (simp add: emitter_literals_def, code_simp)
  show "stamps E ''2006-01-02T00:00:00Z'' 1136160000000000000" by (rule r) (simp add: emitter_literals_def, code_simp)
qed

text \<open>A literal identifier, and one the library prints in the form it reads.\<close>

definition names :: "ext \<Rightarrow> string \<Rightarrow> uuid \<Rightarrow> bool" where
  "names E s u \<longleftrightarrow> ext_uuid_parse E s = Some u \<and> ext_uuid_to_string E u = s"

lemma emitter_names: "emitter_laws E \<Longrightarrow> uuid_shape s \<Longrightarrow> \<exists>u. names E s u"
  by (simp add: emitter_laws_def uuid_canonical_ok_def names_def)

lemma names_apart: "names E s u \<Longrightarrow> names E s' u' \<Longrightarrow> u = u' \<longleftrightarrow> s = s'"
  unfolding names_def by (metis option.inject)

lemma to_hex_nats:
  assumes "\<forall>n \<in> set ns. n < 256"
  shows "to_hex (map word_of_nat ns) = concat (map (\<lambda>n. [hex_digit (n div 16), hex_digit (n mod 16)]) ns)"
proof -
  have "unat (word_of_nat n :: u8) = n" if "n \<in> set ns" for n
    using assms that by (simp add: unsigned_of_nat take_bit_nat_eq_self)
  then show ?thesis by (simp add: to_hex_def cong: map_cong)
qed

lemma seed_hex: "KERNEL_SEED_HEX = to_hex fixed_key_bytes"
proof -
  have "KERNEL_SEED_HEX = concat (map (\<lambda>n. [hex_digit (n div 16), hex_digit (n mod 16)]) [0..<32])" by code_simp
  also have "\<dots> = to_hex fixed_key_bytes" unfolding fixed_key_bytes_def by (rule to_hex_nats [symmetric]) simp
  finally show ?thesis .
qed

lemma seed_bytes [simp]: "unhex_strict KERNEL_SEED_HEX = Inr fixed_key_bytes" "unhex_lossy KERNEL_SEED_HEX = Inr fixed_key_bytes"
  unfolding seed_hex by (rule unhex_to_hex)+

lemma emitter_key:
  assumes "emitter_laws E"
  shows "\<exists>kp. kernel_key_pair E = Some kp \<and> ext_from_seed E fixed_key_bytes = Some kp"
  using assms by (auto simp: emitter_laws_def seed_ok_def kernel_key_pair_def unhex_def seed_bytes fixed_key_bytes_def)

subsection \<open>The documents of the vectors\<close>

definition vector_doc ::
  "ext \<Rightarrow> keypair \<Rightarrow> uuid \<Rightarrow> string \<Rightarrow> instant \<Rightarrow> instant \<Rightarrow> uuid option \<Rightarrow> scope_entry list \<Rightarrow> string list \<Rightarrow> vaid" where
  "vector_doc E kp i cls issued expires p scope caps =
     with_lineage E i cls ''1.0.0'' ''aifactory'' issued expires fixed_key_bytes [] p scope
       (compute_lineage_hash E p i) caps ''vaid.example'' (kernel_key_thumbprint E (ext_public_key E kp))"

definition vector_signature :: "ext \<Rightarrow> keypair \<Rightarrow> vaid \<Rightarrow> bytes" where
  "vector_signature E kp d = ext_sign E kp (canonical_vaid_signing_bytes E d)"

definition vector_signed :: "ext \<Rightarrow> keypair \<Rightarrow> vaid \<Rightarrow> vaid" where
  "vector_signed E kp d = with_kernel_signature d (vector_signature E kp d)"

text \<open>The JSON the emitters write out by hand is the serialized document.\<close>

lemma vector_doc_json:
  assumes "stamps E iat issued" and "stamps E eat expires"
  shows "ser_vaid (with_kernel_signature (vector_doc E kp i cls issued expires p scope caps) sig) = json_object
     [(''sig_version'', ser_u8 VAID_SIG_VERSION_V4),
      (''vaid_id'', JString (ext_uuid_to_string E i)),
      (''agent_id'', JString (ext_uuid_to_string E i)),
      (''agent_class'', JString cls),
      (''version'', JString ''1.0.0''),
      (''tenant_id'', JString ''aifactory''),
      (''issued_at'', JString iat),
      (''expires_at'', JString eat),
      (''public_key_der'', ser_bytes fixed_key_bytes),
      (''kernel_signature'', ser_bytes sig),
      (''parent_vaid'', opt_string (map_option (ext_uuid_to_string E) p)),
      (''scope_boundary'', JArray (map ser_scope_entry scope)),
      (''lineage_hash'', JString (compute_lineage_hash E p i)),
      (''capability_set'', ser_strings caps),
      (''trust_domain'', JString ''vaid.example''),
      (''kernel_key_thumbprint'', JString (kernel_key_thumbprint E (ext_public_key E kp)))]"
  using assms
  by (cases p)
     (simp_all add: ser_vaid_def json_object_def vaid_all_members_def vaid_members_def vector_doc_def with_lineage_def
        with_kernel_signature_def ser_presented_def ser_parent_def opt_string_def format_e6_def stamps_def)

lemma unsigned_vector_doc: "with_kernel_signature (vector_doc E kp i cls issued expires p scope caps) [] =
    vector_doc E kp i cls issued expires p scope caps"
  by (simp add: vector_doc_def with_lineage_def with_kernel_signature_def)

lemma vector_doc_ok:
  assumes "names E s i" and "\<forall>q. p = Some q \<longrightarrow> (\<exists>s. names E s q)" and "list_all entry_ok scope"
  shows "vaid_ok E (vector_doc E kp i cls issued expires p scope caps)"
  using assms
  by (auto simp: vaid_ok_def vector_doc_def with_lineage_def presented_ok_def names_def split: option.splits)

lemma vector_signing_bytes [simp]:
  "canonical_vaid_signing_bytes E (with_kernel_signature (vector_doc E kp i cls issued expires p scope caps) sig) =
   canonical_vaid_signing_bytes E (vector_doc E kp i cls issued expires p scope caps)"
  by (rule constructed_signing_bytes) (simp add: vector_doc_def with_lineage_def)

lemma vector_doc_fields [simp]:
  "vd_sig_version (vector_doc E kp i cls issued expires p scope caps) = VAID_SIG_VERSION_V4"
  "vaid_id (vector_doc E kp i cls issued expires p scope caps) = i"
  "agent_id (vector_doc E kp i cls issued expires p scope caps) = i"
  "vd_tenant_id (vector_doc E kp i cls issued expires p scope caps) = ''aifactory''"
  "vd_expires_at (vector_doc E kp i cls issued expires p scope caps) = format_e6 E expires"
  "parent_vaid (vector_doc E kp i cls issued expires p scope caps) = p"
  "vd_scope_boundary (vector_doc E kp i cls issued expires p scope caps) = scope"
  "vd_lineage_hash (vector_doc E kp i cls issued expires p scope caps) = compute_lineage_hash E p i"
  "vd_capability_set (vector_doc E kp i cls issued expires p scope caps) = caps"
  "vd_trust_domain (vector_doc E kp i cls issued expires p scope caps) = ''vaid.example''"
  "vd_kernel_key_thumbprint (vector_doc E kp i cls issued expires p scope caps) =
     kernel_key_thumbprint E (ext_public_key E kp)"
  by (simp_all add: vector_doc_def with_lineage_def vaid_id_def agent_id_def parent_vaid_def presented_of_uuid_def
        split: option.splits)

lemma with_kernel_signature_fields [simp]:
  "vd_sig_version (with_kernel_signature d sig) = vd_sig_version d"
  "vaid_id (with_kernel_signature d sig) = vaid_id d"
  "agent_id (with_kernel_signature d sig) = agent_id d"
  "vd_tenant_id (with_kernel_signature d sig) = vd_tenant_id d"
  "vd_expires_at (with_kernel_signature d sig) = vd_expires_at d"
  "parent_vaid (with_kernel_signature d sig) = parent_vaid d"
  "vd_scope_boundary (with_kernel_signature d sig) = vd_scope_boundary d"
  "vd_lineage_hash (with_kernel_signature d sig) = vd_lineage_hash d"
  "vd_capability_set (with_kernel_signature d sig) = vd_capability_set d"
  "vd_trust_domain (with_kernel_signature d sig) = vd_trust_domain d"
  "vd_kernel_key_thumbprint (with_kernel_signature d sig) = vd_kernel_key_thumbprint d"
  "vd_kernel_signature (with_kernel_signature d sig) = sig"
  "with_kernel_signature (with_kernel_signature d sig') sig = with_kernel_signature d sig"
  by (simp_all add: with_kernel_signature_def vaid_id_def agent_id_def parent_vaid_def)

lemma vector_domain: "is_valid_trust_domain ''vaid.example''"
  by code_simp

lemma vector_authentic:
  assumes "ed25519_correct E"
  shows "verify_vaid_authenticity E (ext_public_key E kp)
    (with_kernel_signature (vector_doc E kp i cls issued expires p scope caps)
       (vector_signature E kp (vector_doc E kp i cls issued expires p scope caps)))"
  by (simp add: authentic_iff verify_lineage_hash_def vector_domain vector_signature_def ed25519_correctD [OF assms])

section \<open>Frozen chains\<close>

definition frozen_entry :: "string \<Rightarrow> ext \<Rightarrow> keypair \<Rightarrow> vaid \<Rightarrow> vaid \<Rightarrow> json" where
  "frozen_entry role E kp d doc = json_object
     [(''_role'', JString role),
      (''digest_sha256_hex'', JString (to_hex (canonical_vaid_signing_bytes E d))),
      (''signature_hex'', JString (to_hex (vector_signature E kp d))),
      (''document'', ser_vaid doc)]"

lemma frozen_entry_hop:
  assumes "vaid_ok E (vector_doc E kp i cls issued expires p scope caps)"
  shows "hop_frozen E kp
    (frozen_entry role E kp (vector_doc E kp i cls issued expires p scope caps)
       (with_kernel_signature (vector_doc E kp i cls issued expires p scope caps) sig))
    (vector_signed E kp (vector_doc E kp i cls issued expires p scope caps))"
proof -
  have "de_vaid E (ser_vaid (with_kernel_signature (vector_doc E kp i cls issued expires p scope caps) sig)) =
      Some (with_kernel_signature (vector_doc E kp i cls issued expires p scope caps) sig)"
    by (rule de_ser_vaid) (simp add: assms)
  then show ?thesis
    by (simp add: hop_frozen_def frozen_entry_def index_json_object text_at_def vector_signed_def vector_signature_def)
qed

lemma emit_chain_hop_entry:
  assumes laws: "emitter_laws E" and i: "names E (ch_agent_uuid hop) i"
    and p: "rel_option (names E) (ch_parent_uuid hop) p"
  shows "emit_chain_hop E kp hop = Some (frozen_entry (ch_role hop) E kp
     (vector_doc E kp i (ch_agent_class hop) 1780574400000000000 1780660800000000000 p (ch_scope_boundary hop) (ch_capability_set hop))
     (with_kernel_signature (vector_doc E kp i (ch_agent_class hop) 1780574400000000000 1780660800000000000 p
        (ch_scope_boundary hop) (ch_capability_set hop)) []))"
proof -
  note st = emitter_stamps(1,2) [OF laws]
  have "parse_parent E (ch_parent_uuid hop) = Some p"
    "opt_string (ch_parent_uuid hop) = opt_string (map_option (ext_uuid_to_string E) p)"
    using p by (cases "ch_parent_uuid hop"; cases p; simp add: parse_parent_def names_def opt_string_def)+
  with i st show ?thesis
    unfolding frozen_entry_def vector_doc_json [OF st]
    by (simp add: emit_chain_hop_def names_def stamps_def vector_signature_def vector_doc_def ser_bytes_def Let_def)
qed

section \<open>The walk over a chain under one key\<close>

lemma whole_chain_verdict:
  assumes auth: "\<forall>d \<in> set docs. verify_vaid_authenticity E pk d" and "pinned docs" and dist: "distinct (map vaid_id docs)"
    and "length docs \<le> MAX_LINEAGE_DEPTH"
  shows "verify_chain_at E (sk_resolve_key (sk_new E pk)) (last docs) (pb_new docs) ab_empty now =
     (if list_ex (\<lambda>a. is_expired_at E a now) (butlast docs) then ChainVerification.Expired
      else hops_verdict E (sk_resolve_key (sk_new E pk)) ab_empty now docs)"
proof -
  let ?keys = "sk_resolve_key (sk_new E pk)"
  have "presented_chain (last docs) (pb_new docs) docs"
    using assms by (auto simp: presented_chain_def pinned_def in_set_butlastD intro: pb_new_get)
  then have docs: "(case assemble_lineage (last docs) (pb_resolve_parent (pb_new docs)) of
      Incomplete \<Rightarrow> None | Complete ids \<Rightarrow> chain_documents (last docs) (pb_new docs) ids) = Some docs"
    by (simp add: assemble_documents)
  have each: "authenticate E ?keys d" if "d \<in> set docs" for d
    using auth that authentic_under [of E pk d ?keys] single_key_resolves [of E pk] by blast
  moreover have "docs \<noteq> []" using assms(2) by (simp add: pinned_def)
  ultimately have "authenticate E ?keys (last docs)" "list_all (authenticate E ?keys) (map snd (pb_documents (pb_new docs)))"
    using pb_new_documents [of docs] by (auto simp: list_all_iff)
  with docs show ?thesis
    by (auto simp: verify_chain_at_def split: LineageAssembly.splits)
qed

lemma one_key_hop:
  assumes "vd_kernel_key_thumbprint p = vd_kernel_key_thumbprint c" "vd_trust_domain p = vd_trust_domain c"
    "vd_tenant_id p = vd_tenant_id c"
  shows "hop_verdict E keys atts now p c = (if hop_contained E p c then None else Some NotAttenuated)"
  using assms by (simp add: hop_verdict_def hop_contained_def tenant_attenuates_def Let_def)

text \<open>An instant the library reads back from what it prints.\<close>

definition stable :: "ext \<Rightarrow> instant \<Rightarrow> bool" where
  "stable E t \<longleftrightarrow> ext_parse_rfc3339 E (ext_format_e6 E t) = Some t"

lemma stamps_stable: "stamps E s t \<Longrightarrow> stable E t"
  by (simp add: stamps_def stable_def)

lemma vector_contained:
  assumes "stable E t" and "stable E t'"
  shows "hop_contained E (with_kernel_signature (vector_doc E kp i cls iss t p scope caps) sig)
      (with_kernel_signature (vector_doc E kp j cls' iss' t' q scope' caps') sig') \<longleftrightarrow>
    scope_attenuates_within scope scope' \<and> set caps' \<subseteq> set caps \<and> t' \<le> t"
  using assms
  by (auto simp: hop_contained_def scope_attenuates_def caps_attenuate_def caps_attenuate_within_iff stable_def
        expiry_attenuates_def expiry_attenuates_within_iff format_e6_def parse_rfc3339_def)

lemma vector_expired:
  "stable E t \<Longrightarrow>
     is_expired_at E (with_kernel_signature (vector_doc E kp i cls iss t p scope caps) sig) now \<longleftrightarrow> t < now"
  by (simp add: is_expired_at_def expires_at_def parse_rfc3339_def format_e6_def stable_def)

lemma vector_scopes:
  "scope_attenuates_within [prefix_entry ''data.aifactory''] [prefix_entry ''data.aifactory.sub'']"
  "scope_attenuates_within [prefix_entry ''data.aifactory.sub''] [prefix_entry ''data.aifactory.sub.task'']"
  by code_simp+

text \<open>Root, intermediate and leaf as both chain vectors have them; only identifiers and expiries vary.\<close>

definition vector_chain ::
  "ext \<Rightarrow> keypair \<Rightarrow> uuid \<times> uuid \<times> uuid \<Rightarrow> instant \<Rightarrow> instant \<times> instant \<times> instant \<Rightarrow> vaid list" where
  "vector_chain E kp ids issued expiries =
     (let (r, m, l) = ids; (er, em, el) = expiries in
      [vector_doc E kp r ''orchestrator'' issued er None [prefix_entry ''data.aifactory''] [''read'', ''write''],
       vector_doc E kp m ''planner'' issued em (Some r) [prefix_entry ''data.aifactory.sub''] [''read''],
       vector_doc E kp l ''worker'' issued el (Some m) [prefix_entry ''data.aifactory.sub.task''] [''read'']])"

lemma vector_walk:
  assumes E: "ed25519_correct E" and ids: "distinct [r, m, l]"
    and st: "stable E er" "stable E em" "stable E el"
  shows "walk_verdict E kp (map (vector_signed E kp) (vector_chain E kp (r, m, l) issued (er, em, el))) now =
     (if er < now \<or> em < now then ''expired''
      else if em \<le> er \<and> el \<le> em then ''attenuated'' else ''not_attenuated'')"
proof -
  let ?docs = "map (vector_signed E kp) (vector_chain E kp (r, m, l) issued (er, em, el))"
  have "pinned ?docs" "distinct (map vaid_id ?docs)" "length ?docs \<le> MAX_LINEAGE_DEPTH"
    "\<forall>d \<in> set ?docs. verify_vaid_authenticity E (ext_public_key E kp) d"
    using ids by (simp_all add: vector_chain_def vector_signed_def pinned_def MAX_LINEAGE_DEPTH_def vector_authentic [OF E])
  note w = whole_chain_verdict [OF this(4,1-3), of now]
  show ?thesis
    unfolding walk_verdict_def w
    by (simp add: vector_chain_def vector_signed_def vector_expired st one_key_hop vector_contained vector_scopes)
qed

section \<open>The emitted vectors pass their checks\<close>

lemma ed25519_text:
  assumes "index_member v ''ed25519'' = json_object kvs" and "distinct (map fst kvs)" and "map_of kvs k = Some (JString s)"
  shows "ed25519_at v k = s"
  using assms by (simp add: ed25519_at_def text_at_def index_json_object)

lemma mint_vector_emitted:
  assumes laws: "emitter_laws E" and key: "kernel_key_pair E = Some kp"
    and i: "names E ''aaaaaaaa-aaaa-aaaa-aaaa-aaaaaaaaaaaa'' i" and q: "names E ''11111111-1111-1111-1111-111111111111'' q"
    and d: "d = vector_doc E kp i ''child'' 1780574400000000000 1780660800000000000 (Some q)
      [prefix_entry ''data.aifactory.sub''] [''read'']"
  shows "emit_mint_vector prose E = Some (json_object
     [(''_comment'', JString (prose ''_comment'')),
      (''scheme'', JString (prose ''scheme'')),
      (''input'', ser_vaid d),
      (''digest_sha256_hex'', JString (to_hex (canonical_vaid_signing_bytes E d))),
      (''ed25519'', json_object
         [(''_comment'', JString (prose ''ed25519'')),
          (''kernel_private_key_seed_hex'', JString KERNEL_SEED_HEX),
          (''kernel_public_key_hex'', JString (to_hex (ext_public_key E kp))),
          (''signature_hex'', JString (to_hex (vector_signature E kp d)))])])"
proof -
  note st = emitter_stamps(1,2) [OF laws]
  have "ser_vaid d = ser_vaid (with_kernel_signature d [])" by (simp add: d unsigned_vector_doc)
  then show ?thesis
    unfolding d vector_doc_json [OF st] using i q key st
    by (simp add: emit_mint_vector_def names_def stamps_def vector_signature_def vector_doc_def ser_bytes_def
          opt_string_def Let_def)
qed

lemma mint_vector_passes:
  assumes laws: "emitter_laws E"
  shows "\<exists>v. emit_mint_vector prose E = Some v \<and> check_mint E v = Inr ()"
proof -
  from emitter_key [OF laws] obtain kp where key: "kernel_key_pair E = Some kp" "ext_from_seed E fixed_key_bytes = Some kp"
    by blast
  obtain i q where i: "names E ''aaaaaaaa-aaaa-aaaa-aaaa-aaaaaaaaaaaa'' i"
    and q: "names E ''11111111-1111-1111-1111-111111111111'' q"
    using emitter_names [OF laws, of "''aaaaaaaa-aaaa-aaaa-aaaa-aaaaaaaaaaaa''"]
      emitter_names [OF laws, of "''11111111-1111-1111-1111-111111111111''"] by (auto simp: uuid_shape_def uuid_char_def lower_hex_def)
  define d where "d = vector_doc E kp i ''child'' 1780574400000000000 1780660800000000000 (Some q)
      [prefix_entry ''data.aifactory.sub''] [''read'']"
  have "vaid_ok E d" unfolding d_def using i q by (intro vector_doc_ok) auto
  then have de: "de_vaid E (ser_vaid d) = Some d" by (rule de_ser_vaid)
  have auth: "verify_vaid_authenticity E (ext_public_key E kp) (with_kernel_signature d (vector_signature E kp d))"
    unfolding d_def using laws by (intro vector_authentic) (simp add: emitter_laws_def)
  have f: "parent_vaid d = Some q" "agent_id d = i" "vaid_id d = i" "vd_lineage_hash d = compute_lineage_hash E (Some q) i"
    by (simp_all add: d_def)
  show ?thesis
    unfolding mint_vector_emitted [OF laws key(1) i q d_def]
    by (simp add: check_mint_def doc_from_def index_json_object de text_at_def ed25519_at_def seed_key_def key(2) f auth
          vector_signature_def [symmetric] Let_def)
qed

text \<open>The entries of a frozen chain; \<open>sig\<close> is the signature its documents carry.\<close>

definition frozen_chain :: "(vaid \<Rightarrow> bytes) \<Rightarrow> ext \<Rightarrow> keypair \<Rightarrow> vaid list \<Rightarrow> json list" where
  "frozen_chain sig E kp docs =
     map2 (\<lambda>role d. frozen_entry role E kp d (with_kernel_signature d (sig d))) [''root'', ''intermediate'', ''leaf''] docs"

lemma vector_chain_ok:
  assumes "names E sr r" "names E sm m" "names E sl l"
  shows "\<forall>d \<in> set (vector_chain E kp (r, m, l) issued (er, em, el)). vaid_ok E d"
  using assms by (auto simp: vector_chain_def intro!: vector_doc_ok)

lemma frozen_chain_hops:
  assumes "\<forall>d \<in> set (vector_chain E kp (r, m, l) issued (er, em, el)). vaid_ok E d"
  shows "list_all2 (hop_frozen E kp) (frozen_chain sig E kp (vector_chain E kp (r, m, l) issued (er, em, el)))
     (map (vector_signed E kp) (vector_chain E kp (r, m, l) issued (er, em, el)))"
  using assms by (simp add: vector_chain_def frozen_chain_def frozen_entry_hop)

lemma chain_hops_emitted:
  assumes laws: "emitter_laws E" and ids: "names E ROOT_UUID r" "names E MID_UUID m" "names E LEAF_UUID l"
  shows "those (map (emit_chain_hop E kp) CHAIN_HOPS) = Some (frozen_chain (\<lambda>d. []) E kp
     (vector_chain E kp (r, m, l) 1780574400000000000 (1780660800000000000, 1780660800000000000, 1780660800000000000)))"
  using emit_chain_hop_entry [OF laws, of "CHAIN_HOPS ! 0" r None kp]
    emit_chain_hop_entry [OF laws, of "CHAIN_HOPS ! 1" m "Some r" kp]
    emit_chain_hop_entry [OF laws, of "CHAIN_HOPS ! 2" l "Some m" kp] ids
  by (simp add: CHAIN_HOPS_def frozen_chain_def vector_chain_def)

lemma outcome_without_comment:
  "object_remove ''_comment'' (json_object [(''_comment'', w), (''assembled_lineage'', x), (''verification'', y), (''verification_instant'', z)]) =
   json_object [(''assembled_lineage'', x), (''verification'', y), (''verification_instant'', z)]"
  by (simp add: object_remove_def json_object_def map_collect_def)

lemma chain_names:
  assumes "emitter_laws E"
  shows "\<exists>r m l. names E ROOT_UUID r \<and> names E MID_UUID m \<and> names E LEAF_UUID l \<and> distinct [r, m, l]"
proof -
  obtain r m l where n: "names E ROOT_UUID r" "names E MID_UUID m" "names E LEAF_UUID l"
    using emitter_names [OF assms, of ROOT_UUID] emitter_names [OF assms, of MID_UUID] emitter_names [OF assms, of LEAF_UUID]
    by (auto simp: uuid_shape_def uuid_char_def lower_hex_def ROOT_UUID_def MID_UUID_def LEAF_UUID_def)
  then have "distinct [r, m, l]"
    using names_apart [OF n(1,2)] names_apart [OF n(1,3)] names_apart [OF n(2,3)]
    by (simp add: ROOT_UUID_def MID_UUID_def LEAF_UUID_def)
  with n show ?thesis by blast
qed

lemma chain_vector_passes:
  assumes laws: "emitter_laws E"
  shows "\<exists>v. emit_chain_vector prose E = Some v \<and> check_chain E v = Inr ()"
proof -
  from emitter_key [OF laws] obtain kp where key: "kernel_key_pair E = Some kp" "ext_from_seed E fixed_key_bytes = Some kp"
    by blast
  from chain_names [OF laws] obtain r m l where ids: "names E ROOT_UUID r" "names E MID_UUID m" "names E LEAF_UUID l"
    and dist: "distinct [r, m, l]" by blast
  let ?docs = "vector_chain E kp (r, m, l) 1780574400000000000 (1780660800000000000, 1780660800000000000, 1780660800000000000)"
  let ?entries = "frozen_chain (\<lambda>d. []) E kp ?docs"
  let ?signed = "map (vector_signed E kp) ?docs"
  note st = stamps_stable [OF emitter_stamps(2) [OF laws]]
  from laws have E: "ed25519_correct E" by (simp add: emitter_laws_def)
  have hops: "list_all2 (hop_frozen E kp) ?entries ?signed" by (intro frozen_chain_hops vector_chain_ok [OF ids])
  have walk: "walk_verdict E kp ?signed 1780596000000000000 = ''attenuated''"
    by (simp add: vector_walk [OF E dist st st st])
  have ne: "?signed \<noteq> []" by (simp add: vector_chain_def)
  have inst: "ext_parse_rfc3339 E VERIFICATION_INSTANT = Some 1780596000000000000"
    using emitter_stamps(3) [OF laws] by (simp add: stamps_def VERIFICATION_INSTANT_def)
  obtain v where v: "emit_chain_vector prose E = Some v" and
    "index_member v ''chain'' = JArray ?entries"
    "index_member v ''expected'' = json_object [(''_comment'', JString (prose ''expected'')),
       (''assembled_lineage'', ser_strings [ROOT_UUID, MID_UUID, LEAF_UUID]), (''verification'', JString ''attenuated''),
       (''verification_instant'', JString VERIFICATION_INSTANT)]"
    "index_member v ''ed25519'' = json_object [(''_comment'', JString (prose ''ed25519'')),
       (''kernel_private_key_seed_hex'', JString KERNEL_SEED_HEX),
       (''kernel_public_key_hex'', JString (to_hex (ext_public_key E kp))),
       (''kernel_key_thumbprint'', JString (kernel_key_thumbprint E (ext_public_key E kp)))]"
    "text_at v ''digest_sha256_hex'' = to_hex (ext_sha256 E (ext_jcs E (json_object [(''chain'', JArray ?entries),
       (''expected'', json_object [(''assembled_lineage'', ser_strings [ROOT_UUID, MID_UUID, LEAF_UUID]),
          (''verification'', JString ''attenuated''), (''verification_instant'', JString VERIFICATION_INSTANT)])])))"
    by (simp add: emit_chain_vector_def key(1) chain_hops_emitted [OF laws ids] index_json_object text_at_def Let_def)
  then have "check_chain E v = Inr ()"
    unfolding check_chain_exact json_object_def [symmetric]
    using hops ne key(2) walk inst
    by (intro exI [of _ fixed_key_bytes] exI [of _ kp] exI [of _ ?entries] exI [of _ ?signed] exI [of _ 1780596000000000000])
       (simp add: ed25519_at_def outcome_without_comment text_at_def index_json_object instant_of_def)
  with v show ?thesis by blast
qed

section \<open>The chain-expiry vector passes\<close>

definition expiry_id :: "nat \<Rightarrow> nat \<Rightarrow> string" where
  "expiry_id grp hop = ''e0000000-0000-0000-0000-0000000000'' @ show_nat grp @ show_nat hop"

lemma expiry_ids:
  assumes laws: "emitter_laws E" and c: "c \<in> set EXPIRY_CASES"
  shows "\<exists>r m l. names E (expiry_id (xc_group c) 1) r \<and> names E (expiry_id (xc_group c) 2) m \<and>
     names E (expiry_id (xc_group c) 3) l \<and> distinct [r, m, l]"
proof -
  have "list_all (\<lambda>c. list_all (\<lambda>h. uuid_shape (expiry_id (xc_group c) h)) [1, 2, 3]) EXPIRY_CASES" by code_simp
  with c have "uuid_shape (expiry_id (xc_group c) 1)" "uuid_shape (expiry_id (xc_group c) 2)"
      "uuid_shape (expiry_id (xc_group c) 3)" by (simp_all add: list_all_iff)
  from this [THEN emitter_names [OF laws]] obtain r m l where n: "names E (expiry_id (xc_group c) 1) r"
      "names E (expiry_id (xc_group c) 2) m" "names E (expiry_id (xc_group c) 3) l" by blast
  then have "distinct [r, m, l]"
    using names_apart [OF n(1,2)] names_apart [OF n(1,3)] names_apart [OF n(2,3)] by (simp add: expiry_id_def)
  with n show ?thesis by blast
qed

lemma emit_expiry_hop_entry:
  assumes st: "stamps E ''2026-06-04T12:00:00Z'' issued" "stamps E (xc_expires_at c ! hop_index) expires"
    and i: "names E (expiry_id (xc_group c) (hop_index + 1)) i"
    and p: "if hop_index = 0 then p = None else \<exists>q. p = Some q \<and> names E (expiry_id (xc_group c) hop_index) q"
  shows "emit_expiry_hop E kp c (hop_index, role, cls, scope, caps) = Some (frozen_entry role E kp
     (vector_doc E kp i cls issued expires p [prefix_entry scope] caps)
     (with_kernel_signature (vector_doc E kp i cls issued expires p [prefix_entry scope] caps)
        (vector_signature E kp (vector_doc E kp i cls issued expires p [prefix_entry scope] caps))))"
proof -
  have self: "id_for E (xc_group c) (Suc hop_index) = Some i"
    using i by (simp add: id_for_def names_def expiry_id_def del: show_nat.simps)
  have parent: "(if hop_index = 0 then Some None else map_option Some (id_for E (xc_group c) (Suc hop_index - 1))) = Some p"
    using p by (auto simp: id_for_def names_def expiry_id_def simp del: show_nat.simps)
  show ?thesis
    using st
    unfolding frozen_entry_def vector_doc_json [OF st]
    by (simp add: emit_expiry_hop_def stamps_def vector_signature_def vector_doc_def self parent Let_def
          del: show_nat.simps split del: if_split)
qed

definition expiry_docs :: "ext \<Rightarrow> keypair \<Rightarrow> uuid \<times> uuid \<times> uuid \<Rightarrow> instant list \<Rightarrow> vaid list" where
  "expiry_docs E kp ids es = vector_chain E kp ids 1780574400000000000 (es ! 0, es ! 1, es ! 2)"

lemma emit_expiry_case_entry:
  assumes laws: "emitter_laws E" and es: "list_all2 (stamps E) (xc_expires_at c) es" "length es = 3"
    and ids: "names E (expiry_id (xc_group c) 1) r" "names E (expiry_id (xc_group c) 2) m" "names E (expiry_id (xc_group c) 3) l"
  shows "emit_expiry_case prose E kp c = Some (json_object
     [(''name'', JString (xc_name c)), (''why'', JString (prose (xc_name c))),
      (''verification_instant'', JString VERIFICATION_INSTANT),
      (''chain'', JArray (frozen_chain (vector_signature E kp) E kp (expiry_docs E kp (r, m, l) es))),
      (''expected_verification'', JString (xc_expected_verification c))])"
proof -
  note iss = emitter_stamps(1) [OF laws]
  have st: "stamps E (xc_expires_at c ! 0) (es ! 0)" "stamps E (xc_expires_at c ! 1) (es ! 1)" "stamps E (xc_expires_at c ! 2) (es ! 2)"
    using es by (auto simp: list_all2_conv_all_nth)
  have "List.enumerate 0 EXPIRY_HOPS =
      [(0, ''root'', ''orchestrator'', ''data.aifactory'', [''read'', ''write'']),
       (1, ''intermediate'', ''planner'', ''data.aifactory.sub'', [''read'']),
       (2, ''leaf'', ''worker'', ''data.aifactory.sub.task'', [''read''])]"
    by (simp add: EXPIRY_HOPS_def)
  moreover note emit_expiry_hop_entry [OF iss st(1), of r None kp "''root''"]
    emit_expiry_hop_entry [OF iss st(2), of m "Some r" kp "''intermediate''"]
    emit_expiry_hop_entry [OF iss st(3), of l "Some m" kp "''leaf''"]
  ultimately have "those (map (emit_expiry_hop E kp c) (List.enumerate 0 EXPIRY_HOPS)) =
      Some (frozen_chain (vector_signature E kp) E kp (expiry_docs E kp (r, m, l) es))"
    using ids by (simp add: frozen_chain_def expiry_docs_def vector_chain_def numeral_2_eq_2 [symmetric])
  then show ?thesis by (simp add: emit_expiry_case_def)
qed

text \<open>What the walk answers on a case, from the expiries alone.\<close>

definition expiry_answer :: "instant list \<Rightarrow> string" where
  "expiry_answer es =
     (if es ! 0 < 1780596000000000000 \<or> es ! 1 < 1780596000000000000 then ''expired''
      else if es ! 1 \<le> es ! 0 \<and> es ! 2 \<le> es ! 1 then ''attenuated'' else ''not_attenuated'')"

lemma check_expiry_chain_passes:
  assumes laws: "emitter_laws E" and key: "ext_from_seed E fixed_key_bytes = Some kp"
    and v: "ed25519_at v ''kernel_private_key_seed_hex'' = KERNEL_SEED_HEX"
    and es: "list_all2 (stamps E) ss es" "length es = 3"
    and ids: "names E sr r" "names E sm m" "names E sl l" and dist: "distinct [r, m, l]"
    and c: "index_member c ''chain'' = JArray (frozen_chain (vector_signature E kp) E kp (expiry_docs E kp (r, m, l) es))"
      "index_member c ''verification_instant'' = JString VERIFICATION_INSTANT"
      "text_at c ''expected_verification'' = expiry_answer es"
  shows "check_expiry_chain E v saw c = Inr (saw \<or> expiry_answer es = ''attenuated'')"
proof -
  let ?entries = "frozen_chain (vector_signature E kp) E kp (expiry_docs E kp (r, m, l) es)"
  let ?signed = "map (vector_signed E kp) (expiry_docs E kp (r, m, l) es)"
  from laws have E: "ed25519_correct E" by (simp add: emitter_laws_def)
  have "stable E (es ! j)" if "j < 3" for j
    using es that stamps_stable by (metis list_all2_conv_all_nth)
  then have st: "stable E (es ! 0)" "stable E (es ! 1)" "stable E (es ! 2)" by simp_all
  have hops: "list_all2 (hop_frozen E kp) ?entries ?signed"
    unfolding expiry_docs_def by (intro frozen_chain_hops vector_chain_ok [OF ids])
  have walk: "walk_verdict E kp ?signed 1780596000000000000 = expiry_answer es"
    unfolding expiry_docs_def vector_walk [OF E dist st] expiry_answer_def by simp
  have ne: "?signed \<noteq> []" by (simp add: expiry_docs_def vector_chain_def)
  have inst: "ext_parse_rfc3339 E VERIFICATION_INSTANT = Some 1780596000000000000"
    using emitter_stamps(3) [OF laws] by (simp add: stamps_def VERIFICATION_INSTANT_def)
  have "for_each (\<lambda>docs entry. and_then (reproduce_hop E kp (name_of c @ '' / '' @ role_of entry) ''does not deserialize'' entry)
      (\<lambda>d. Inr (docs @ [d]))) [] ?entries = Inr ?signed"
    using reproduce_hops [of E kp "\<lambda>entry. name_of c @ '' / '' @ role_of entry" "''does not deserialize''" "[]" ?entries ?signed] hops
    by simp
  with ne walk inst c key v show ?thesis
    by (simp add: check_expiry_chain_def seed_key_def array_or_empty_def instant_of_def)
qed

definition case_instants :: "expiry_case \<Rightarrow> instant list" where
  "case_instants c = map civil_instant (xc_expires_at c)"

lemma expiry_cases_facts:
  "list_all (\<lambda>c. list_all (\<lambda>s. s \<in> set emitter_literals \<and> e6_shape s) (xc_expires_at c) \<and> length (xc_expires_at c) = 3 \<and>
     xc_expected_verification c = expiry_answer (case_instants c)) EXPIRY_CASES"
  by code_simp

lemma case_stamps:
  assumes laws: "emitter_laws E" and c: "c \<in> set EXPIRY_CASES"
  shows "list_all2 (stamps E) (xc_expires_at c) (case_instants c)" "length (case_instants c) = 3"
    "xc_expected_verification c = expiry_answer (case_instants c)"
proof -
  have facts: "\<forall>s \<in> set (xc_expires_at c). s \<in> set emitter_literals \<and> e6_shape s" "length (xc_expires_at c) = 3"
    "xc_expected_verification c = expiry_answer (case_instants c)"
    using c expiry_cases_facts unfolding list_all_iff by blast+
  have "stamps E s (civil_instant s)" if "s \<in> set (xc_expires_at c)" for s
    using laws facts(1) that
    by (auto simp: stamps_def emitter_laws_def reads_literals_def list_all_iff rfc3339_instant_def)
  then show "list_all2 (stamps E) (xc_expires_at c) (case_instants c)"
    by (simp add: case_instants_def list_all2_map2 list_all2_same)
  show "length (case_instants c) = 3" "xc_expected_verification c = expiry_answer (case_instants c)"
    using facts by (simp_all add: case_instants_def)
qed

text \<open>A case that is emitted passes: the verdict of this build is the one stated in the table.\<close>

definition states_key :: "json \<Rightarrow> bool" where
  "states_key v \<longleftrightarrow> ed25519_at v ''kernel_private_key_seed_hex'' = KERNEL_SEED_HEX"

lemma expiry_case_passes:
  assumes laws: "emitter_laws E" and key: "ext_from_seed E fixed_key_bytes = Some kp" and c: "c \<in> set EXPIRY_CASES"
  shows "\<exists>j. emit_expiry_case prose E kp c = Some j \<and>
    (\<forall>v saw. states_key v \<longrightarrow>
       check_expiry_chain E v saw j = Inr (saw \<or> xc_expected_verification c = ''attenuated''))"
proof -
  from expiry_ids [OF laws c] obtain r m l where ids: "names E (expiry_id (xc_group c) 1) r"
      "names E (expiry_id (xc_group c) 2) m" "names E (expiry_id (xc_group c) 3) l" and dist: "distinct [r, m, l]"
    by blast
  note es = case_stamps [OF laws c]
  note j = emit_expiry_case_entry [OF laws es(1,2) ids, of prose kp]
  show ?thesis
    unfolding j states_key_def
    using check_expiry_chain_passes [OF laws key _ es(1,2) ids dist]
    by (simp add: index_json_object text_at_def es(3))
qed

lemma expiry_loop:
  assumes "\<And>x. x \<in> set xs \<Longrightarrow> \<exists>j. f x = Some j \<and> (\<forall>v saw. K v \<longrightarrow> g v saw j = Inr (saw \<or> P x))"
  shows "\<exists>js. those (map f xs) = Some js \<and> length js = length xs \<and>
    (\<forall>v saw. K v \<longrightarrow> for_each (g v) saw js = Inr (saw \<or> list_ex P xs))"
  using assms
proof (induction xs)
  case (Cons x xs)
  from Cons.prems [OF list.set_intros(1)] obtain j where
    j: "f x = Some j" "\<forall>v saw. K v \<longrightarrow> g v saw j = Inr (saw \<or> P x)" by blast
  from Cons obtain js where "those (map f xs) = Some js" "length js = length xs"
    "\<forall>v saw. K v \<longrightarrow> for_each (g v) saw js = Inr (saw \<or> list_ex P xs)" by auto
  with j show ?case by (intro exI [of _ "j # js"]) (simp add: disj_assoc)
qed simp

definition containment_answer :: "string option \<Rightarrow> string option \<Rightarrow> bool" where
  "containment_answer parent child =
     (case (rfc3339_instant (case parent of None \<Rightarrow> [] | Some p \<Rightarrow> p), child \<bind> rfc3339_instant) of
        (Some p, Some c) \<Rightarrow> c \<le> p | _ \<Rightarrow> False)"

lemma containment_facts:
  "list_all (\<lambda>(parent, child, outcome, name).
      (case parent of None \<Rightarrow> [] | Some p \<Rightarrow> p) \<in> set emitter_literals \<and>
      (case child of None \<Rightarrow> [] | Some s \<Rightarrow> s) \<in> set emitter_literals \<and>
      (containment_answer parent child \<longleftrightarrow> outcome = ''permitted'')) EXPIRY_CONTAINMENT"
  by code_simp

lemma containment_case_ok:
  assumes laws: "emitter_laws E" and p: "(case parent of None \<Rightarrow> [] | Some p \<Rightarrow> p) \<in> set emitter_literals"
    and c: "(case child of None \<Rightarrow> [] | Some s \<Rightarrow> s) \<in> set emitter_literals"
  shows "expiry_case_ok E (containment_json prose (parent, child, outcome, name)) \<longleftrightarrow>
     (containment_answer parent child \<longleftrightarrow> outcome = ''permitted'')"
proof -
  have r: "ext_parse_rfc3339 E s = rfc3339_instant s" if "s \<in> set emitter_literals" for s
    using laws that by (simp add: emitter_laws_def reads_literals_def list_all_iff)
  have parent: "text_at (containment_json prose (parent, child, outcome, name)) ''parent_expires_at'' =
      (case parent of None \<Rightarrow> [] | Some p \<Rightarrow> p)"
    and child: "as_str (index_member (containment_json prose (parent, child, outcome, name)) ''child_expires_at'') = child"
    and want: "text_at (containment_json prose (parent, child, outcome, name)) ''expected'' = outcome"
    by (cases parent; cases child; simp add: containment_json_def text_at_def index_json_object opt_string_def
          str_or_default_def)+
  have "child \<bind> ext_parse_rfc3339 E = child \<bind> rfc3339_instant"
    using r [OF c] by (cases child) simp_all
  with r [OF p] show ?thesis
    unfolding expiry_case_ok_def parent child want expiry_attenuates_within_def containment_answer_def parse_rfc3339_def
    by simp
qed

lemma containment_cases_pass:
  assumes "emitter_laws E"
  shows "list_all (expiry_case_ok E) (map (containment_json prose) EXPIRY_CONTAINMENT)"
proof (simp only: list_all_iff set_map ball_simps, rule ballI)
  fix x assume x: "x \<in> set EXPIRY_CONTAINMENT"
  obtain parent child outcome name where e: "x = (parent, child, outcome, name)" by (metis surj_pair)
  from x containment_facts have "(case parent of None \<Rightarrow> [] | Some p \<Rightarrow> p) \<in> set emitter_literals"
    "(case child of None \<Rightarrow> [] | Some s \<Rightarrow> s) \<in> set emitter_literals"
    "containment_answer parent child \<longleftrightarrow> outcome = ''permitted''" unfolding list_all_iff e by fast+
  then show "expiry_case_ok E (containment_json prose x)" unfolding e by (simp only: containment_case_ok [OF assms])
qed

lemma expiry_vector_passes:
  assumes laws: "emitter_laws E"
  shows "\<exists>v. emit_chain_expiry_vector prose E = Some v \<and> check_chain_expiry E v = Inr ()"
proof -
  from emitter_key [OF laws] obtain kp where key: "kernel_key_pair E = Some kp" "ext_from_seed E fixed_key_bytes = Some kp"
    by blast
  from expiry_loop [where f = "emit_expiry_case prose E kp" and K = states_key and g = "check_expiry_chain E"
      and xs = EXPIRY_CASES, OF expiry_case_passes [OF laws key(2)]]
  obtain js where js: "those (map (emit_expiry_case prose E kp) EXPIRY_CASES) = Some js" "length js = length EXPIRY_CASES"
    "\<And>v saw. states_key v \<Longrightarrow> for_each (check_expiry_chain E v) saw js =
       Inr (saw \<or> list_ex (\<lambda>c. xc_expected_verification c = ''attenuated'') EXPIRY_CASES)" by blast
  let ?contained = "map (containment_json prose) EXPIRY_CONTAINMENT"
  obtain v where v: "emit_chain_expiry_vector prose E = Some v" "index_member v ''cases'' = JArray js"
      "index_member v ''expiry_containment'' = JArray ?contained" and k: "states_key v"
    by (simp add: emit_chain_expiry_vector_def key(1) js(1) index_json_object states_key_def ed25519_at_def text_at_def Let_def)
  have "list_ex (\<lambda>c. xc_expected_verification c = ''attenuated'') EXPIRY_CASES" by code_simp
  with js(3) [OF k, of False] have loop: "for_each (check_expiry_chain E v) False js = Inr True" by simp
  have "js \<noteq> []" using js(2) by (auto simp: EXPIRY_CASES_def)
  moreover have "list_ex (\<lambda>c. as_str (index_member c ''expected'') = Some ''permitted'') ?contained"
    by (simp add: EXPIRY_CONTAINMENT_def containment_json_def index_json_object)
  ultimately have "check_chain_expiry E v = Inr ()"
    using containment_cases_pass [OF laws, of prose] loop
    by (simp add: check_chain_expiry_def v array_or_empty_def Let_def)
  with v(1) show ?thesis by blast
qed

end
