(* ===== verification/Vaid_Vectors.thy ===== *)
theory Vaid_Vectors
  imports Vaid_Emitters
begin

text \<open>
  The emitters of the attestation, possession and round-trip vectors, an instance of the libraries
  that reads UUIDs and civil timestamps, and the property that ties all the emitters to the
  conformance program.
\<close>

section \<open>The attestation vector\<close>

definition emit_attestation_vector :: "(string \<Rightarrow> string) \<Rightarrow> ext \<Rightarrow> json option" where
  "emit_attestation_vector prose E =
     do { kernel_kp \<leftarrow> kernel_key_pair E;
          let kernel_pub = ext_public_key E kernel_kp;
          parent \<leftarrow> ext_uuid_parse E ''d0000000-0000-0000-0000-000000000001'';
          child \<leftarrow> ext_uuid_parse E ''d0000000-0000-0000-0000-000000000002'';
          issued \<leftarrow> ext_parse_rfc3339 E ''2026-06-04T12:00:00Z'';
          expires \<leftarrow> ext_parse_rfc3339 E ''2026-06-05T12:00:00Z'';
          let unsigned = attestation_new parent child ''b.example'' ''aifactory'' issued expires
            [prefix_entry ''data.aifactory.sub''] [''read''] ''a.example'' (kernel_key_thumbprint E kernel_pub);
          let digest = canonical_attestation_signing_bytes E unsigned;
          let signature = ext_sign E kernel_kp digest;
          Some (json_object
            [(''_comment'', JString (prose ''_comment'')),
             (''attestation'', ser_attestation E unsigned),
             (''digest_sha256_hex'', JString (to_hex digest)),
             (''signature_hex'', JString (to_hex signature)),
             (''ed25519'', json_object
                [(''kernel_private_key_seed_hex'', JString KERNEL_SEED_HEX),
                 (''kernel_public_key_hex'', JString (to_hex kernel_pub))])]) }"

section \<open>The possession vector\<close>

text \<open>The two assertions of the program are panics.\<close>

definition emit_mint_pop_vector :: "(string \<Rightarrow> string) \<Rightarrow> ext \<Rightarrow> json option" where
  "emit_mint_pop_vector prose E =
     do { issued \<leftarrow> ext_parse_rfc3339 E ''2026-06-04T12:00:00Z'';
          holder_kp \<leftarrow> kernel_key_pair E;
          let registered_key = ext_public_key E holder_kp;
          let seed = \<lparr>seed_agent_class = ''runner'', seed_version = ''1.0.0'', seed_tenant_id = ''aifactory'',
            seed_parent_vaid = None, seed_scope_boundary = [prefix_entry ''data.aifactory''],
            seed_capability_set = [''read''], seed_public_key_der = Some registered_key\<rparr>;
          let payload = pop_payload_of seed registered_key ''0123456789abcdef0123456789abcdef'' issued;
          let input = ser_pop_payload E payload;
          let digest = canonical_request_signing_bytes E input;
          let signature = sign_payload E input holder_kp;
          if get_member input ''parentVaid'' \<noteq> Some Null \<or>
             get_member input ''publicKeyDer'' \<noteq> Some (ser_bytes registered_key)
          then None
          else Some (json_object
            [(''_comment'', JString (prose ''_comment'')),
             (''scheme'', JString (prose ''scheme'')),
             (''input'', input),
             (''digest_sha256_hex'', JString (to_hex digest)),
             (''ed25519'', json_object
                [(''_comment'', JString (prose ''ed25519'')),
                 (''private_key_seed_hex'', JString KERNEL_SEED_HEX),
                 (''public_key_hex'', JString (to_hex registered_key)),
                 (''signature_hex'', JString (to_hex signature))])]) }"

section \<open>The round-trip vector\<close>

definition EXTENSION_MEMBER :: string where "EXTENSION_MEMBER = ''x_example_extension''"

definition json_number :: "64 word \<Rightarrow> json" where
  "json_number n = JNumber (PosInt n)"

definition base_document :: json where
  "base_document = json_object
     [(''sig_version'', json_number 4),
      (''vaid_id'', JString ''b0000000-0000-4000-8000-000000000001''),
      (''agent_id'', JString ''b0000000-0000-4000-8000-000000000001''),
      (''agent_class'', JString ''roundtrip''),
      (''version'', JString ''1.0.0''),
      (''tenant_id'', JString ''acme''),
      (''issued_at'', JString ''2026-01-01T00:00:00Z''),
      (''expires_at'', JString ''2999-01-01T00:00:00Z''),
      (''public_key_der'', JArray (map json_number [3, 161, 7, 191, 243, 206, 16, 190, 29, 112, 221, 24, 231, 75, 192, 153,
         103, 228, 214, 48, 155, 165, 13, 95, 29, 220, 134, 100, 18, 85, 49, 184])),
      (''kernel_signature'', JArray []),
      (''parent_vaid'', Null),
      (''scope_boundary'', JArray [json_object [(''kind'', JString ''prefix''), (''value'', JString ''data.acme'')]]),
      (''lineage_hash'', JString ''81e986864029e5395751b617bfa699d97dc97dbfb659257da96b9c9b3f0d7e19''),
      (''capability_set'', JArray [JString ''read'']),
      (''trust_domain'', JString ''vaid.example''),
      (''kernel_key_thumbprint'', JString
         ''urn:ietf:params:oauth:jwk-thumbprint:sha-256:1IG2tMH7J2wbJZnOf8LJzQitKf7LMvoAElsuDMVM54Y'')]"

definition extension_value :: json where
  "extension_value = json_object [(''note'', JString ''an additive field a verifier does not know'')]"

text \<open>A document signed as the library parses it, with the signature in place.\<close>

definition signed :: "ext \<Rightarrow> keypair \<Rightarrow> json \<Rightarrow> json option" where
  "signed E key doc =
     do { parsed \<leftarrow> de_vaid E doc;
          let digest = canonical_vaid_signing_bytes E parsed;
          let sig = ext_sign E key digest;
          Some (object_insert ''kernel_signature'' (ser_bytes sig) doc) }"

definition roundtrip_case :: "(string \<Rightarrow> string) \<Rightarrow> string \<Rightarrow> json \<Rightarrow> bool \<Rightarrow> json" where
  "roundtrip_case prose name doc outcome = json_object
     [(''name'', JString name), (''why'', JString (prose name)), (''document'', doc), (''expected_valid'', JBool outcome)]"

definition emit_roundtrip_vector :: "(string \<Rightarrow> string) \<Rightarrow> ext \<Rightarrow> json option" where
  "emit_roundtrip_vector prose E =
     do { key \<leftarrow> kernel_key_pair E;
          let kernel_pub = ext_public_key E key;
          case_known \<leftarrow> signed E key base_document;
          let extended = object_insert EXTENSION_MEMBER extension_value base_document;
          case_extended \<leftarrow> signed E key extended;
          let case_removed = object_remove EXTENSION_MEMBER case_extended;
          let case_added = object_insert EXTENSION_MEMBER extension_value case_known;
          Some (json_object
            [(''_comment'', JString (prose ''_comment'')),
             (''rule'', prose_members prose ''rule'' [''statement'', ''rejecting_is_conforming'']),
             (''ed25519'', json_object
                [(''kernel_private_key_seed_hex'', JString KERNEL_SEED_HEX),
                 (''kernel_public_key_hex'', JString (to_hex kernel_pub))]),
             (''cases'', JArray
                [roundtrip_case prose ''known fields only'' case_known True,
                 roundtrip_case prose ''additive extension, signed over the extended bytes'' case_extended True,
                 roundtrip_case prose ''extension removed after signing'' case_removed False,
                 roundtrip_case prose ''extra field not covered by the signature'' case_added False])]) }"

section \<open>Attestation and possession pass\<close>

lemma attestation_vector_passes:
  assumes laws: "emitter_laws E" and "uuid_text_ok E" and "datetime_text_ok E"
  shows "\<exists>v. emit_attestation_vector prose E = Some v \<and> check_attestation E v = Inr ()"
proof -
  from emitter_key [OF laws] obtain kp where key: "kernel_key_pair E = Some kp" "ext_from_seed E fixed_key_bytes = Some kp"
    by blast
  have "uuid_shape ''d0000000-0000-0000-0000-000000000001''" "uuid_shape ''d0000000-0000-0000-0000-000000000002''"
    by code_simp+
  from this [THEN emitter_names [OF laws]] obtain i j where
    ids: "names E ''d0000000-0000-0000-0000-000000000001'' i" "names E ''d0000000-0000-0000-0000-000000000002'' j" by blast
  note st = emitter_stamps(1,2) [OF laws]
  define a where "a = attestation_new i j ''b.example'' ''aifactory'' 1780574400000000000 1780660800000000000
    [prefix_entry ''data.aifactory.sub''] [''read''] ''a.example'' (kernel_key_thumbprint E (ext_public_key E kp))"
  have "attestation_ok a"
    by (simp add: a_def attestation_new_def attestation_ok_def e6_range_def nanos_per_sec_def)
  then have de: "de_attestation E (ser_attestation E a) = Some a" using assms(2,3) by (rule de_ser_attestation)
  have tp: "att_kernel_key_thumbprint a = kernel_key_thumbprint E (ext_public_key E kp)"
    by (simp add: a_def attestation_new_def)
  have dom: "is_valid_trust_domain ''a.example''" by code_simp
  have f: "att_version (with_signature a s) = ATTESTATION_VERSION" "att_trust_domain (with_signature a s) = ''a.example''"
    "att_kernel_key_thumbprint (with_signature a s) = kernel_key_thumbprint E (ext_public_key E kp)"
    "att_signature (with_signature a s) = s" for s by (simp_all add: a_def attestation_new_def with_signature_def)
  have auth: "verify_attestation_authenticity E (ext_public_key E kp)
      (with_signature a (ext_sign E kp (canonical_attestation_signing_bytes E a)))"
    using ed25519_correctD laws by (simp add: verify_attestation_authenticity_def f dom emitter_laws_def)
  from ids st key show ?thesis
    by (simp add: emit_attestation_vector_def names_def stamps_def a_def [symmetric] check_attestation_def index_json_object
          de tp auth text_at_def ed25519_at_def seed_key_def Let_def)
qed

lemma pop_vector_passes:
  assumes laws: "emitter_laws E"
  shows "\<exists>v. emit_mint_pop_vector prose E = Some v \<and> check_mint_pop E v = Inr ()"
proof -
  from emitter_key [OF laws] obtain kp where key: "kernel_key_pair E = Some kp" "ext_from_seed E fixed_key_bytes = Some kp"
    by blast
  have sign: "sign_payload E v kp = ext_sign E kp (canonical_request_signing_bytes E v)" for v
    by (simp add: sign_payload_def)
  have get: "get_member (ser_pop_payload E p) ''parentVaid'' = Some (ser_opt_uuid E (mpp_parent_vaid p))"
    "get_member (ser_pop_payload E p) ''publicKeyDer'' = Some (ser_bytes (mpp_public_key_der p))" for p
    by (simp_all add: ser_pop_payload_def map_of_collect_distinct)
  from key emitter_stamps(1) [OF laws] show ?thesis
    by (simp add: emit_mint_pop_vector_def stamps_def get pop_payload_of_def ser_opt_uuid_def check_mint_pop_def seed_key_def
          index_json_object ed25519_at_def text_at_def sign Let_def)
qed

section \<open>The round-trip vector passes\<close>

lemma object_insert_signature:
  assumes "distinct (map fst (vaid_all_members d))"
  shows "object_insert ''kernel_signature'' (ser_bytes sig) (ser_vaid d) = ser_vaid (with_kernel_signature d sig)"
proof -
  have "map_insert ''kernel_signature'' (ser_bytes sig) (map_collect (vaid_all_members d)) =
      map_collect (vaid_all_members (with_kernel_signature d sig))"
    using assms
    by (intro map_ok_eqI)
       (simp_all add: map_of_map_insert map_of_collect_distinct member_keys_signature map_of_members_signature)
  then show ?thesis by (simp add: ser_vaid_def object_insert_def)
qed

lemma signed_ser:
  assumes "vaid_ok E d"
  shows "signed E key (ser_vaid d) = Some (ser_vaid (with_kernel_signature d (vector_signature E key d)))"
  using assms
  by (simp add: signed_def de_ser_vaid object_insert_signature distinct_all_members vector_signature_def Let_def)

text \<open>The signature of a serialized document, read without the library.\<close>

lemma sig_of_ser:
  assumes "vaid_ok E d"
  shows "sig_of (ser_vaid d) = vd_kernel_signature d"
proof -
  have m: "index_member (ser_vaid d) ''kernel_signature'' = ser_bytes (vd_kernel_signature d)"
    by (simp add: index_member_def ser_vaid_def map_of_ser_vaid [OF assms] vaid_lookups [OF assms])
  have "(case as_u64 (ser_u8 b) of Some w \<Rightarrow> ucast w | None \<Rightarrow> ucast (0 :: 64 word)) = b" for b :: u8
  proof -
    have "(ucast (ucast b :: 64 word) :: u8) = b" using de_u8_ser [of b] by (simp add: ser_u8_def split: if_splits)
    then show ?thesis by (simp add: ser_u8_def as_u64_def)
  qed
  then have "map (\<lambda>n. ucast (case as_u64 n of Some w \<Rightarrow> w | None \<Rightarrow> 0)) (map ser_u8 bs) = bs" for bs :: bytes
    by (induction bs) (simp_all add: ser_u8_def as_u64_def)
  then show ?thesis unfolding sig_of_def m by (simp add: ser_bytes_def array_or_empty_def)
qed

text \<open>The base document, and the base document with the unknown member.\<close>

definition roundtrip_doc :: "uuid \<Rightarrow> (string \<times> json) list \<Rightarrow> vaid" where
  "roundtrip_doc u unknown =
     \<lparr>vd_sig_version = 4, vd_vaid_id = \<lparr>pu_raw = ''b0000000-0000-4000-8000-000000000001'', pu_uuid = u\<rparr>,
      vd_agent_id = \<lparr>pu_raw = ''b0000000-0000-4000-8000-000000000001'', pu_uuid = u\<rparr>,
      vd_agent_class = ''roundtrip'', vd_version = ''1.0.0'', vd_tenant_id = ''acme'',
      vd_issued_at = ''2026-01-01T00:00:00Z'', vd_expires_at = ''2999-01-01T00:00:00Z'',
      vd_public_key_der = [3, 161, 7, 191, 243, 206, 16, 190, 29, 112, 221, 24, 231, 75, 192, 153, 103, 228, 214, 48, 155, 165,
         13, 95, 29, 220, 134, 100, 18, 85, 49, 184],
      vd_kernel_signature = [], vd_parent_vaid = Some None, vd_scope_boundary = [prefix_entry ''data.acme''],
      vd_lineage_hash = ''81e986864029e5395751b617bfa699d97dc97dbfb659257da96b9c9b3f0d7e19'',
      vd_capability_set = [''read''], vd_trust_domain = ''vaid.example'',
      vd_kernel_key_thumbprint =
        ''urn:ietf:params:oauth:jwk-thumbprint:sha-256:1IG2tMH7J2wbJZnOf8LJzQitKf7LMvoAElsuDMVM54Y'',
      vd_unknown_fields = unknown\<rparr>"

lemma ser_roundtrip_base: "ser_vaid (roundtrip_doc u []) = base_document"
  by (simp add: base_document_def ser_vaid_def json_object_def vaid_all_members_def vaid_members_def roundtrip_doc_def
        ser_presented_def ser_parent_def ser_bytes_def ser_u8_def json_number_def ser_scope_entry_def prefix_entry_def
        SCOPE_KIND_PREFIX_def ser_strings_def)

lemma extend_ser:
  "object_insert EXTENSION_MEMBER extension_value (ser_vaid (with_kernel_signature (roundtrip_doc u []) sig)) =
   ser_vaid (with_kernel_signature (roundtrip_doc u [(EXTENSION_MEMBER, extension_value)]) sig)"
  by (simp add: object_insert_def ser_vaid_def vaid_all_members_def vaid_members_def roundtrip_doc_def
        with_kernel_signature_def map_collect_def)

lemma roundtrip_doc_ok:
  assumes "ext_uuid_parse E ''b0000000-0000-4000-8000-000000000001'' = Some u"
  shows "vaid_ok E (roundtrip_doc u [])" "vaid_ok E (roundtrip_doc u [(EXTENSION_MEMBER, extension_value)])"
  using assms
  by (simp_all add: vaid_ok_def roundtrip_doc_def presented_ok_def map_ok_def vaid_member_names_def EXTENSION_MEMBER_def
        extension_value_def json_object_def map_collect_def)

lemma filter_collect:
  assumes "distinct (map fst (kvs @ extra))" and "\<forall>kv \<in> set kvs. Q (fst kv)" and "\<forall>kv \<in> set extra. \<not> Q (fst kv)"
  shows "filter (\<lambda>m. Q (fst m)) (map_collect (kvs @ extra)) = map_collect kvs"
proof (rule map_ok_eqI)
  show "map_ok (filter (\<lambda>m. Q (fst m)) (map_collect (kvs @ extra)))" by (intro map_ok_filter map_ok_collect)
  have d: "distinct (map fst kvs)" using assms(1) by simp
  have f: "filter (\<lambda>m. Q (fst m)) xs = filter (\<lambda>(k, v). Q k) xs" for xs :: "('a \<times> 'b) list"
    by (rule filter_cong) auto
  show "map_of (filter (\<lambda>m. Q (fst m)) (map_collect (kvs @ extra))) = map_of (map_collect kvs)"
  proof
    fix k show "map_of (filter (\<lambda>m. Q (fst m)) (map_collect (kvs @ extra))) k = map_of (map_collect kvs) k"
    proof (cases "Q k")
      case True
      then have "map_of extra k = None" using assms(3) by (auto simp: map_of_eq_None_iff)
      with True show ?thesis
        unfolding f map_of_filter_keys map_of_collect_distinct [OF assms(1)] map_of_collect_distinct [OF d]
        by (simp add: map_add_def split: option.split)
    next
      case False
      then have "map_of kvs k = None" using assms(2) by (auto simp: map_of_eq_None_iff)
      with False show ?thesis
        unfolding f map_of_filter_keys map_of_collect_distinct [OF assms(1)] map_of_collect_distinct [OF d] by simp
    qed
  qed
qed simp

text \<open>Dropping the members of an extension leaves the base document.\<close>

lemma roundtrip_members:
  "vaid_all_members (with_kernel_signature (roundtrip_doc u unknown) sig) =
     vaid_members (with_kernel_signature (roundtrip_doc u []) sig) @ unknown"
  by (simp add: vaid_all_members_def vaid_members_def roundtrip_doc_def with_kernel_signature_def)

lemma roundtrip_keys:
  "map fst (vaid_members (with_kernel_signature (roundtrip_doc u []) sig)) = vaid_member_names"
  by (simp add: vaid_members_def vaid_member_names_def roundtrip_doc_def with_kernel_signature_def)

lemma roundtrip_filter:
  assumes "unknown = [] \<or> unknown = [(EXTENSION_MEMBER, extension_value)]"
    and "\<forall>k \<in> set vaid_member_names. Q k" and "\<not> Q EXTENSION_MEMBER"
  shows "filter (\<lambda>m. Q (fst m)) (map_collect (vaid_all_members (with_kernel_signature (roundtrip_doc u unknown) sig))) =
    map_collect (vaid_all_members (with_kernel_signature (roundtrip_doc u []) sig))"
  unfolding roundtrip_members append_Nil2
proof (rule filter_collect)
  have "EXTENSION_MEMBER \<notin> set vaid_member_names" by code_simp
  then show "distinct (map fst (vaid_members (with_kernel_signature (roundtrip_doc u []) sig) @ unknown))"
    using assms(1) distinct_member_names by (auto simp: roundtrip_keys)
  show "\<forall>kv \<in> set (vaid_members (with_kernel_signature (roundtrip_doc u []) sig)). Q (fst kv)"
    using assms(2) roundtrip_keys [of u sig] by (metis imageI list.set_map)
  show "\<forall>kv \<in> set unknown. \<not> Q (fst kv)" using assms(1,3) by auto
qed

lemma shrink_ser:
  "object_remove EXTENSION_MEMBER (ser_vaid (with_kernel_signature (roundtrip_doc u [(EXTENSION_MEMBER, extension_value)]) sig)) =
   ser_vaid (with_kernel_signature (roundtrip_doc u []) sig)"
proof -
  have "\<forall>k \<in> set vaid_member_names. k \<noteq> EXTENSION_MEMBER"
    by (simp add: vaid_member_names_def EXTENSION_MEMBER_def)
  from roundtrip_filter [where Q = "\<lambda>k. k \<noteq> EXTENSION_MEMBER", OF _ this]
  show ?thesis by (simp add: object_remove_def ser_vaid_def)
qed

lemma dropping_roundtrip:
  assumes "unknown = [] \<or> unknown = [(EXTENSION_MEMBER, extension_value)]"
    and ok: "vaid_ok E (roundtrip_doc u unknown)" "vaid_ok E (roundtrip_doc u [])"
  shows "dropping_verdict E pk (ser_vaid (with_kernel_signature (roundtrip_doc u unknown) sig)) =
    ext_verify E pk (canonical_vaid_signing_bytes E (roundtrip_doc u [])) sig"
proof -
  have "\<forall>k \<in> set vaid_member_names. \<not> starts_with k ''x_''" "starts_with EXTENSION_MEMBER ''x_''" by code_simp+
  from roundtrip_filter [OF assms(1), of "\<lambda>k. \<not> starts_with k ''x_''", OF this(1)] this(2)
  have f: "filter (\<lambda>m. \<not> starts_with (fst m) ''x_'')
      (map_collect (vaid_all_members (with_kernel_signature (roundtrip_doc u unknown) sig))) =
      map_collect (vaid_all_members (with_kernel_signature (roundtrip_doc u []) sig))" by simp
  have "sig_of (ser_vaid (with_kernel_signature (roundtrip_doc u unknown) sig)) = sig"
    using sig_of_ser [of E "with_kernel_signature (roundtrip_doc u unknown) sig"] ok(1) by simp
  moreover have "JObject (map_insert ''kernel_signature'' Null
      (map_collect (vaid_all_members (with_kernel_signature (roundtrip_doc u []) sig)))) = vaid_signing_value (roundtrip_doc u [])"
    using signing_value_unsigned [OF distinct_all_members [OF ok(2)], of sig]
    by (simp add: vaid_signing_value_def ser_vaid_def object_insert_def)
  ultimately show ?thesis
    unfolding dropping_verdict_def canonical_vaid_signing_bytes_def by (simp add: ser_vaid_def f)
qed

text \<open>
  A signature made over other signing bytes does not verify: not a law of Ed25519 but the absence
  of a forgery, so it is stated of the two digests at hand.
\<close>

definition no_forgery :: "ext \<Rightarrow> keypair \<Rightarrow> bytes \<Rightarrow> bytes \<Rightarrow> bool" where
  "no_forgery E kp m m' \<longleftrightarrow> (ext_verify E (ext_public_key E kp) m (ext_sign E kp m') \<longrightarrow> m = m')"

definition roundtrip_apart :: "ext \<Rightarrow> bool" where
  "roundtrip_apart E \<longleftrightarrow>
     (let base = object_insert ''kernel_signature'' Null base_document;
          extended = object_insert ''kernel_signature'' Null (object_insert EXTENSION_MEMBER extension_value base_document);
          db = ext_sha256 E (ext_jcs E base); dx = ext_sha256 E (ext_jcs E extended) in
      no_collision E base extended \<and>
      (\<forall>kp. kernel_key_pair E = Some kp \<longrightarrow> no_forgery E kp db dx \<and> no_forgery E kp dx db))"

lemma roundtrip_case_passes:
  assumes ok: "vaid_ok E (roundtrip_doc u unknown)"
    and outcome: "ext_verify E pk (canonical_vaid_signing_bytes E (roundtrip_doc u unknown)) sig = outcome"
  shows "check_roundtrip_case E pk () (roundtrip_case prose name (ser_vaid (with_kernel_signature (roundtrip_doc u unknown) sig)) outcome)
    = Inr ()"
proof -
  have "vaid_ok E (with_kernel_signature (roundtrip_doc u unknown) sig)" using ok by simp
  from sig_of_ser [OF this] de_ser_vaid [OF this] outcome signing_bytes_unsigned [OF ok, of sig] show ?thesis
    by (simp add: check_roundtrip_case_def roundtrip_case_def index_json_object)
qed

lemma roundtrip_case_fields [simp]:
  "index_member (roundtrip_case prose name doc outcome) ''document'' = doc"
  "expected_or_false (roundtrip_case prose name doc outcome) = outcome"
  by (simp_all add: roundtrip_case_def index_json_object expected_or_false_def)

lemma roundtrip_vector_passes:
  assumes laws: "emitter_laws E" and apart: "roundtrip_apart E"
  shows "\<exists>v. emit_roundtrip_vector prose E = Some v \<and> check_roundtrip E v = Inr ()"
proof -
  from emitter_key [OF laws] obtain kp where key: "kernel_key_pair E = Some kp" by blast
  have "uuid_shape ''b0000000-0000-4000-8000-000000000001''" by code_simp
  from emitter_names [OF laws this] obtain u where u: "ext_uuid_parse E ''b0000000-0000-4000-8000-000000000001'' = Some u"
    by (auto simp: names_def)
  define base where "base = roundtrip_doc u []"
  define extended where "extended = roundtrip_doc u [(EXTENSION_MEMBER, extension_value)]"
  note defs = base_def extended_def
  note ok = roundtrip_doc_ok [OF u, folded defs]
  let ?pk = "ext_public_key E kp"
  let ?sb = "vector_signature E kp base" and ?sx = "vector_signature E kp extended"
  let ?s = "\<lambda>d sig. ser_vaid (with_kernel_signature d sig)"
  have own: "ext_verify E ?pk (canonical_vaid_signing_bytes E d) (vector_signature E kp d)" for d
    using laws by (simp add: vector_signature_def emitter_laws_def ed25519_correctD)
  have nosig: "with_kernel_signature base [] = base" "with_kernel_signature extended [] = extended"
    by (simp_all add: defs roundtrip_doc_def with_kernel_signature_def)
  have ser: "ser_vaid base = base_document"
    "object_insert EXTENSION_MEMBER extension_value (ser_vaid base) = ser_vaid extended"
    using extend_ser [of u "[]"] nosig by (simp_all add: defs ser_roundtrip_base)
  have digests: "canonical_vaid_signing_bytes E base \<noteq> canonical_vaid_signing_bytes E extended"
    and "no_forgery E kp (canonical_vaid_signing_bytes E base) (canonical_vaid_signing_bytes E extended)"
    and "no_forgery E kp (canonical_vaid_signing_bytes E extended) (canonical_vaid_signing_bytes E base)"
  proof -
    have "vaid_signing_value base \<noteq> vaid_signing_value extended"
      using signing_value_inj [OF ok, of "[]"] unfolding nosig by (auto simp: defs roundtrip_doc_def)
    with apart key ser
    show "canonical_vaid_signing_bytes E base \<noteq> canonical_vaid_signing_bytes E extended"
      "no_forgery E kp (canonical_vaid_signing_bytes E base) (canonical_vaid_signing_bytes E extended)"
      "no_forgery E kp (canonical_vaid_signing_bytes E extended) (canonical_vaid_signing_bytes E base)"
      by (auto simp: roundtrip_apart_def no_collision_def canonical_vaid_signing_bytes_def vaid_signing_value_def Let_def)
  qed
  then have other: "\<not> ext_verify E ?pk (canonical_vaid_signing_bytes E base) ?sx"
       "\<not> ext_verify E ?pk (canonical_vaid_signing_bytes E extended) ?sb"
    by (auto simp: no_forgery_def vector_signature_def)
  let ?cases = "[roundtrip_case prose ''known fields only'' (?s base ?sb) True,
      roundtrip_case prose ''additive extension, signed over the extended bytes'' (?s extended ?sx) True,
      roundtrip_case prose ''extension removed after signing'' (?s base ?sx) False,
      roundtrip_case prose ''extra field not covered by the signature'' (?s extended ?sb) False]"
  have moved: "object_remove EXTENSION_MEMBER (?s extended ?sx) = ?s base ?sx"
    "object_insert EXTENSION_MEMBER extension_value (?s base ?sb) = ?s extended ?sb"
    unfolding defs by (rule shrink_ser extend_ser)+
  obtain v where v: "emit_roundtrip_vector prose E = Some v" "index_member v ''cases'' = JArray ?cases"
      "ed25519_at v ''kernel_public_key_hex'' = to_hex ?pk"
    using signed_ser [OF ok(1), of kp] signed_ser [OF ok(2), of kp]
    by (simp add: emit_roundtrip_vector_def key ser [symmetric] moved index_json_object ed25519_at_def text_at_def Let_def)
  have loop: "\<forall>c \<in> set ?cases. check_roundtrip_case E ?pk () c = Inr ()"
    using roundtrip_case_passes [OF ok(1) [unfolded defs], of ?pk, folded defs]
      roundtrip_case_passes [OF ok(2) [unfolded defs], of ?pk, folded defs] own other by simp
  have drop: "dropping_verdict E ?pk (?s base sig) = ext_verify E ?pk (canonical_vaid_signing_bytes E base) sig"
    "dropping_verdict E ?pk (?s extended sig) = ext_verify E ?pk (canonical_vaid_signing_bytes E base) sig" for sig
    using dropping_roundtrip [of "[]" E u ?pk sig] dropping_roundtrip [of "[(EXTENSION_MEMBER, extension_value)]" E u ?pk sig] ok
    by (simp_all add: defs)
  have "check_roundtrip E v = Inr ()"
    unfolding check_roundtrip_def some_cases_def v
    using loop by (simp add: drop own other Let_def)
  with v(1) show ?thesis by blast
qed

section \<open>An instance of the libraries\<close>

text \<open>UUIDs in hexadecimal and timestamps by the calendar, over the rest of the concrete instance.\<close>

fun hex_digits :: "nat \<Rightarrow> nat \<Rightarrow> string" where
  "hex_digits 0 n = []"
| "hex_digits (Suc w) n = hex_digits w (n div 16) @ [hex_digit (n mod 16)]"

definition hex_number :: "string \<Rightarrow> nat" where
  "hex_number s = foldl (\<lambda>a c. 16 * a + the (hex_value c)) 0 s"

definition uuid_layout :: "string \<Rightarrow> string" where
  "uuid_layout b = take 8 b @ ''-'' @ take 4 (drop 8 b) @ ''-'' @ take 4 (drop 12 b) @ ''-'' @ take 4 (drop 16 b) @ ''-'' @ drop 20 b"

definition uuid_digits :: "string \<Rightarrow> string" where
  "uuid_digits s = take 8 s @ take 4 (drop 9 s) @ take 4 (drop 14 s) @ take 4 (drop 19 s) @ drop 24 s"

definition uuid_text :: "uuid \<Rightarrow> string" where
  "uuid_text u = uuid_layout (hex_digits 32 (unat u))"

definition uuid_parse :: "string \<Rightarrow> uuid option" where
  "uuid_parse s = (if uuid_shape s then Some (word_of_nat (hex_number (uuid_digits s))) else None)"

lemma lower_hex_digit: "lower_hex c \<Longrightarrow> \<exists>n < 16. c = hex_digit n"
proof -
  have "list_all (\<lambda>c. list_ex (\<lambda>n. c = hex_digit n) [0..<16]) ''0123456789abcdef''" by code_simp
  then show "lower_hex c \<Longrightarrow> \<exists>n < 16. c = hex_digit n"
    unfolding lower_hex_def list_all_iff list_ex_iff by fastforce
qed

lemma hex_number_snoc: "hex_number (s @ [c]) = 16 * hex_number s + the (hex_value c)"
  by (simp add: hex_number_def)

lemma hex_round_trip:
  assumes "\<forall>c \<in> set s. lower_hex c"
  shows "hex_digits (length s) (hex_number s) = s \<and> hex_number s < 16 ^ length s"
  using assms
proof (induction s rule: rev_induct)
  case (snoc c s)
  then obtain n where "n < 16" "c = hex_digit n" using lower_hex_digit by auto
  with snoc hex_value_digit [of n] show ?case by (simp add: hex_number_snoc)
qed (simp add: hex_number_def)

lemma hex_digits_number: "n < 16 ^ w \<Longrightarrow> hex_number (hex_digits w n) = n"
proof (induction w arbitrary: n)
  case (Suc w)
  then have "n div 16 < 16 ^ w" by (simp add: less_mult_imp_div_less)
  with Suc.IH have "hex_number (hex_digits w (n div 16)) = n div 16" by blast
  then show ?case by (simp add: hex_number_snoc hex_value_digit)
qed (simp add: hex_number_def)

lemma hex_digits_shape: "length (hex_digits w n) = w" "c \<in> set (hex_digits w n) \<Longrightarrow> lower_hex c"
proof -
  show "length (hex_digits w n) = w" by (induction w arbitrary: n) simp_all
  have "list_all (\<lambda>n. lower_hex (hex_digit n)) [0..<16]" by code_simp
  then have "lower_hex (hex_digit k)" if "k < 16" for k using that by (simp add: list_all_iff)
  then show "c \<in> set (hex_digits w n) \<Longrightarrow> lower_hex c" by (induction w arbitrary: n) auto
qed

definition hex_word :: "nat \<Rightarrow> string \<Rightarrow> bool" where
  "hex_word n s \<longleftrightarrow> length s = n \<and> (\<forall>c \<in> set s. lower_hex c)"

lemma uuid_pattern:
  "''hhhhhhhh-hhhh-hhhh-hhhh-hhhhhhhhhhhh'' = replicate 8 CHR ''h'' @ ''-'' @ replicate 4 CHR ''h'' @ ''-'' @
     replicate 4 CHR ''h'' @ ''-'' @ replicate 4 CHR ''h'' @ ''-'' @ replicate 12 CHR ''h''"
  by code_simp

lemma uuid_word: "list_all2 uuid_char a (replicate n CHR ''h'') \<longleftrightarrow> hex_word n a"
  by (auto simp: hex_word_def list_all2_conv_all_nth all_set_conv_all_nth uuid_char_def)

lemma uuid_dash: "list_all2 uuid_char a ''-'' \<longleftrightarrow> a = ''-''"
  by (auto simp: list_all2_Cons2 uuid_char_def)

lemma list_all2_split: "list_all2 P s (p @ q) \<longleftrightarrow> (\<exists>a b. s = a @ b \<and> list_all2 P a p \<and> list_all2 P b q)"
  by (metis list_all2_append2 list_all2_lengthD)

lemma uuid_shape_iff:
  "uuid_shape s \<longleftrightarrow> (\<exists>a b c d e. s = a @ ''-'' @ b @ ''-'' @ c @ ''-'' @ d @ ''-'' @ e \<and>
     hex_word 8 a \<and> hex_word 4 b \<and> hex_word 4 c \<and> hex_word 4 d \<and> hex_word 12 e)"
proof
  assume "uuid_shape s"
  then show "\<exists>a b c d e. s = a @ ''-'' @ b @ ''-'' @ c @ ''-'' @ d @ ''-'' @ e \<and>
      hex_word 8 a \<and> hex_word 4 b \<and> hex_word 4 c \<and> hex_word 4 d \<and> hex_word 12 e"
    unfolding uuid_shape_def uuid_pattern list_all2_split uuid_word uuid_dash by (elim exE conjE) (intro exI conjI, (simp only: append_assoc | assumption)+)
next
  assume "\<exists>a b c d e. s = a @ ''-'' @ b @ ''-'' @ c @ ''-'' @ d @ ''-'' @ e \<and>
      hex_word 8 a \<and> hex_word 4 b \<and> hex_word 4 c \<and> hex_word 4 d \<and> hex_word 12 e"
  then show "uuid_shape s"
    unfolding uuid_shape_def uuid_pattern list_all2_split uuid_word uuid_dash by (elim exE conjE) (intro exI conjI, (assumption | rule refl)+)
qed

lemma uuid_shape_layout:
  assumes "uuid_shape s"
  shows "uuid_layout (uuid_digits s) = s" "hex_word 32 (uuid_digits s)"
  using assms by (auto simp: uuid_shape_iff uuid_layout_def uuid_digits_def hex_word_def)

lemma uuid_layout_shape:
  assumes "hex_word 32 b"
  shows "uuid_shape (uuid_layout b)" "uuid_digits (uuid_layout b) = b"
proof -
  have "hex_word 8 (take 8 b)" "hex_word 4 (take 4 (drop 8 b))" "hex_word 4 (take 4 (drop 12 b))"
    "hex_word 4 (take 4 (drop 16 b))" "hex_word 12 (drop 20 b)"
    using assms by (auto simp: hex_word_def dest: in_set_takeD in_set_dropD)
  then show "uuid_shape (uuid_layout b)" unfolding uuid_shape_iff uuid_layout_def by blast
  have "take 8 b @ take 4 (drop 8 b) @ take 4 (drop 12 b) @ take 4 (drop 16 b) @ drop 20 b = b"
    using append_take_drop_id [of 4 "drop 8 b"] append_take_drop_id [of 4 "drop 12 b"] append_take_drop_id [of 4 "drop 16 b"]
    by simp
  then show "uuid_digits (uuid_layout b) = b"
    using assms by (simp add: uuid_layout_def uuid_digits_def hex_word_def)
qed

lemma uuid_parse_text: "uuid_parse (uuid_text u) = Some u"
proof -
  let ?h = "hex_digits 32 (unat u)"
  have "hex_word 32 ?h" using hex_digits_shape(1) [of 32 "unat u"] hex_digits_shape(2) [of _ 32 "unat u"] by (simp only: hex_word_def) simp
  note l = uuid_layout_shape [OF this]
  have "unat u < 2 ^ 128" using unsigned_less [of u, where ?'a = nat] by simp
  also have "(2 :: nat) ^ 128 = 16 ^ 32" by simp
  finally have "hex_number ?h = unat u" by (rule hex_digits_number)
  then have "word_of_nat (hex_number ?h) = u" by (simp only:) simp
  then show ?thesis by (simp only: uuid_parse_def uuid_text_def l if_True)
qed

lemma uuid_text_parse:
  assumes "uuid_shape s"
  shows "\<exists>u. uuid_parse s = Some u \<and> uuid_text u = s"
proof -
  note l = uuid_shape_layout [OF assms]
  from l(2) hex_round_trip [of "uuid_digits s"]
  have h: "hex_digits 32 (hex_number (uuid_digits s)) = uuid_digits s" "hex_number (uuid_digits s) < 16 ^ 32"
    by (auto simp: hex_word_def)
  from h(2) have "unat (word_of_nat (hex_number (uuid_digits s)) :: uuid) = hex_number (uuid_digits s)"
    by (simp add: unsigned_of_nat take_bit_nat_eq_self)
  with h(1) l(1) assms show ?thesis by (simp add: uuid_parse_def uuid_text_def)
qed

text \<open>The civil date of a day number, and the instant in the twenty characters of the profile.\<close>

definition civil_date :: "int \<Rightarrow> int \<times> int \<times> int" where
  "civil_date days =
     (let z = days + 719468; era = z div 146097; doe = z mod 146097;
          yoe = (doe - doe div 1460 + doe div 36524 - doe div 146096) div 365;
          doy = doe - (365 * yoe + yoe div 4 - yoe div 100);
          mp = (5 * doy + 2) div 153;
          m = (if mp < 10 then mp + 3 else mp - 9)
      in (yoe + era * 400 + (if m \<le> 2 then 1 else 0), m, doy - (153 * mp + 2) div 5 + 1))"

fun int_digits :: "nat \<Rightarrow> int \<Rightarrow> string" where
  "int_digits 0 n = []"
| "int_digits (Suc w) n = int_digits w (n div 10) @ [char_of (48 + n mod 10)]"

definition civil_text :: "instant \<Rightarrow> string" where
  "civil_text t =
     (let secs = t div nanos_per_sec; s = secs mod 86400; (y, m, d) = civil_date (secs div 86400) in
      int_digits 4 y @ ''-'' @ int_digits 2 m @ ''-'' @ int_digits 2 d @ ''T'' @ int_digits 2 (s div 3600) @ '':'' @
      int_digits 2 (s div 60 mod 60) @ '':'' @ int_digits 2 (s mod 60) @ ''Z'')"

definition vector_ext :: ext where
  "vector_ext = demo_ext\<lparr>ext_uuid_parse := uuid_parse, ext_uuid_to_string := uuid_text,
     ext_parse_rfc3339 := rfc3339_instant, ext_format_e6 := civil_text\<rparr>"

lemma civil_literals:
  assumes "s \<in> set emitter_literals" and "e6_shape s"
  shows "civil_text (civil_instant s) = s"
proof -
  let ?ts = "[1780574400000000000, 1780660800000000000, 1780596000000000000, 32472144000000000000, 32440608000000000000,
    32409072000000000000, 1136160000000000000, 1780657200000000000, 1780660801000000000]"
  have "map civil_instant (filter e6_shape emitter_literals) = ?ts" by code_simp
  moreover have "map civil_text ?ts = filter e6_shape emitter_literals" by code_simp
  ultimately have "map (civil_text \<circ> civil_instant) (filter e6_shape emitter_literals) = map id (filter e6_shape emitter_literals)"
    by (metis list.map_comp list.map_id)
  then have "\<forall>s \<in> set (filter e6_shape emitter_literals). (civil_text \<circ> civil_instant) s = id s" by (simp only: map_eq_conv)
  with assms show ?thesis by simp
qed

lemma vector_ext_laws: "emitter_laws vector_ext" "uuid_text_ok vector_ext" "datetime_text_ok vector_ext"
proof -
  have "ed25519_correct vector_ext" using demo_ed25519_correct by (simp add: ed25519_correct_def vector_ext_def)
  moreover have "uuid_canonical_ok vector_ext" using uuid_text_parse by (simp add: uuid_canonical_ok_def vector_ext_def)
  moreover have "seed_ok vector_ext" by (simp add: seed_ok_def vector_ext_def demo_ext_def)
  moreover have "reads_literals vector_ext emitter_literals"
    using civil_literals by (auto simp: reads_literals_def vector_ext_def list_all_iff)
  ultimately show "emitter_laws vector_ext" by (simp add: emitter_laws_def)
  show "uuid_text_ok vector_ext" using uuid_parse_text by (simp add: uuid_text_ok_def vector_ext_def)
  show "datetime_text_ok vector_ext" using demo_datetime_text_ok by (simp add: datetime_text_ok_def vector_ext_def)
qed

lemma vector_ext_apart: "roundtrip_apart vector_ext"
proof -
  let ?base = "object_insert ''kernel_signature'' Null base_document"
  let ?ext = "object_insert ''kernel_signature'' Null (object_insert EXTENSION_MEMBER extension_value base_document)"
  have "?base = JObject bs \<Longrightarrow> ?ext = JObject xs \<Longrightarrow> length bs = 16 \<and> length xs = 17" for bs xs
    by (auto simp: object_insert_def base_document_def json_object_def map_collect_def EXTENSION_MEMBER_def)
  moreover have "\<exists>bs. ?base = JObject bs" "\<exists>xs. ?ext = JObject xs"
    by (simp_all add: object_insert_def base_document_def json_object_def)
  ultimately have "demo_jcs ?base \<noteq> demo_jcs ?ext" by force
  then have "no_collision vector_ext ?base ?ext" by (simp add: no_collision_def vector_ext_def demo_ext_def)
  moreover have "no_forgery vector_ext kp m m'" for kp m m' by (simp add: no_forgery_def vector_ext_def demo_ext_def)
  ultimately show ?thesis by (simp add: roundtrip_apart_def Let_def)
qed

section \<open>Properties\<close>

text \<open>The emitters with the names of the files they freeze.\<close>

definition vector_emitters :: "(string \<Rightarrow> string) \<Rightarrow> ext \<Rightarrow> (string \<times> json option) list" where
  "vector_emitters prose E =
     [(''mint_v1.json'', emit_mint_vector prose E),
      (''mint_pop_v1.json'', emit_mint_pop_vector prose E),
      (''chain_v1.json'', emit_chain_vector prose E),
      (''chain_expiry_v1.json'', emit_chain_expiry_vector prose E),
      (''attestation_v1.json'', emit_attestation_vector prose E),
      (''roundtrip_v1.json'', emit_roundtrip_vector prose E)]"

text \<open>
  C38.  The emitters and the conformance program agree: each emitter runs to the end, and the
  vector it prints passes the check that the conformance program has for its file.  So the walks
  frozen in the two chain vectors, the six expiry verdicts among them, are those of
  \<^verbatim>\<open>verify_chain_at\<close>; the mint document, the attestation and the possession payload are reproduced byte
  for byte; and the round-trip vector tells an implementation that drops unknown members from one
  that keeps them, in both directions.  The libraries are asked to read and print the literals
  of the emitters; two digests must differ and not be forged for the last vector.
\<close>

theorem emitted_vectors_pass:
  assumes "emitter_laws E" and "uuid_text_ok E" and "datetime_text_ok E" and "roundtrip_apart E"
    and "(name, emitted) \<in> set (vector_emitters prose E)"
  shows "\<exists>v check. emitted = Some v \<and> (name, check) \<in> set (mint_vector_checks clock E) \<and> check v = Inr ()"
proof -
  note passes = mint_vector_passes [OF assms(1), of prose] pop_vector_passes [OF assms(1), of prose]
    chain_vector_passes [OF assms(1), of prose] expiry_vector_passes [OF assms(1), of prose]
    attestation_vector_passes [OF assms(1-3), of prose] roundtrip_vector_passes [OF assms(1,4), of prose]
  have "list_all (\<lambda>(name, emitted). \<exists>v check. emitted = Some v \<and> (name, check) \<in> set (mint_vector_checks clock E) \<and>
      check v = Inr ()) (vector_emitters prose E)"
    using passes by (auto simp: vector_emitters_def mint_vector_checks_def)
  with assms(5) show ?thesis by (auto simp: list_all_iff)
qed

theorem emitted_vectors_pass_witness:
  "\<exists>v check. emit_chain_expiry_vector id vector_ext = Some v \<and>
     (''chain_expiry_v1.json'', check) \<in> set (mint_vector_checks (\<lambda>i. 0) vector_ext) \<and> check v = Inr ()"
  using emitted_vectors_pass [OF vector_ext_laws vector_ext_apart, of "''chain_expiry_v1.json''"
      "emit_chain_expiry_vector id vector_ext" id "\<lambda>i. 0"]
  by (simp add: vector_emitters_def)

end
