(* ===== verification/Vaid_Pop_Firewall.thy ===== *)
theory Vaid_Pop_Firewall
  imports Vaid_Firewall Vaid_Pop
begin

text \<open>
  The conformance program of the request crate (\<^verbatim>\<open>crates/vaid-pop/src/bin/conformance.rs\<close>): its
  checks of the request and the completion vector and its table, with what a passing vector says
  of the crate that was installed.
\<close>

definition seed_keypair :: "ext \<Rightarrow> json \<Rightarrow> conformance_error + keypair" where
  "seed_keypair E v =
     and_then (ok_or (Blocker ''vector missing ed25519 seed'')
       (as_str (index_member (index_member v ''ed25519'') ''private_key_seed_hex''))) (\<lambda>hex.
     and_then (unhex_strict hex) (\<lambda>seed.
     ok_or (Blocker ''frozen seed is not a valid key'') (ext_from_seed E seed)))"

definition check_operator_digest :: "ext \<Rightarrow> json \<Rightarrow> conformance_error + unit" where
  "check_operator_digest E v =
     and_then (ok_or (Blocker ''vector input does not deserialize into a real RequestAuthPayload'')
       (de_request_auth E (index_member v ''input''))) (\<lambda>payload.
     let digest = canonical_request_signing_bytes E (ser_request_auth E payload) in
     if length digest \<noteq> 32 then Inl (Blocker ''digest is not 32 bytes'')
     else assert_hex ''operator canonical digest'' (to_hex digest) (text_at v ''digest_sha256_hex''))"

definition check_operator_signature :: "ext \<Rightarrow> json \<Rightarrow> conformance_error + unit" where
  "check_operator_signature E v =
     and_then (seed_keypair E v) (\<lambda>kp.
     and_then (assert_hex ''operator public key'' (to_hex (ext_public_key E kp)) (ed25519_at v ''public_key_hex'')) (\<lambda>_.
     and_then (ok_or (Blocker ''vector input invalid'') (de_request_auth E (index_member v ''input''))) (\<lambda>payload.
     let digest = canonical_request_signing_bytes E (ser_request_auth E payload);
         sig = ext_sign E kp digest in
     assert_hex ''operator signature'' (to_hex sig) (ed25519_at v ''signature_hex''))))"

definition check_completion :: "ext \<Rightarrow> json \<Rightarrow> conformance_error + unit" where
  "check_completion E v =
     and_then (ok_or (Blocker ''vector input does not deserialize into a real CompletionRecord'')
       (de_completion E (index_member v ''input''))) (\<lambda>rec.
     let digest = canonical_request_signing_bytes E (ser_completion E rec) in
     and_then (assert_hex ''completion digest'' (to_hex digest) (text_at v ''digest_sha256_hex'')) (\<lambda>_.
     and_then (seed_keypair E v) (\<lambda>kp.
     assert_hex ''completion signature'' (to_hex (ext_sign E kp digest)) (ed25519_at v ''signature_hex''))))"

definition check_assurance_tiers :: "json \<Rightarrow> conformance_error + unit" where
  "check_assurance_tiers v =
     and_then (ok_or (Blocker ''vector missing assurance_tier_strings'')
       (as_array (index_member v ''assurance_tier_strings''))) (\<lambda>strings.
     let frozen = map str_or_default strings;
         serialized = map (\<lambda>t. str_or_default (ser_tier t)) [SelfReported, CounterSigned, ThirdPartyAttested] in
     if serialized \<noteq> frozen then Inl (Blocker ''AssuranceTier strings diverged from the frozen vector'')
     else Inr ())"

text \<open>The entry of a table is a slice of checks, made one after the other.\<close>

definition run_checks :: "(json \<Rightarrow> conformance_error + unit) list \<Rightarrow> json \<Rightarrow> conformance_error + unit" where
  "run_checks checks v = for_each (\<lambda>_ check. check v) () checks"

definition pop_vector_checks :: "ext \<Rightarrow> (string \<times> (json \<Rightarrow> conformance_error + unit)) list" where
  "pop_vector_checks E =
     [(''operator_pop_v1.json'', run_checks [check_operator_digest E, check_operator_signature E]),
      (''completion_v1.json'', run_checks [check_completion E, check_assurance_tiers])]"

definition pop_report :: "json \<Rightarrow> string" where
  "pop_report v = (case as_str (index_member v ''digest_sha256_hex'') of Some s \<Rightarrow> s | None \<Rightarrow> ''(no digest)'')"

definition pop_firewall :: "ext \<Rightarrow> (string \<times> string) list \<Rightarrow> conformance_error + (string \<times> string) list" where
  "pop_firewall E vectors = firewall_run E (pop_vector_checks E) pop_report vectors"

interpretation pop_vectors: vector_firewall pop_vector_checks pop_report
  by unfold_locales (simp_all add: pop_vector_checks_def)

section \<open>What a passing vector says\<close>

lemma run_checks_Inr: "run_checks checks v = Inr () \<longleftrightarrow> list_all (\<lambda>check. check v = Inr ()) checks"
  by (simp add: run_checks_def for_each_unit)

text \<open>The frozen request is signed and verified by this build as the vector says.\<close>

lemma operator_vector_agrees:
  assumes "check_operator_signature E v = Inr ()" and "ed25519_correct E"
  shows "\<exists>payload kp sig. de_request_auth E (index_member v ''input'') = Some payload \<and>
    ed25519_at v ''public_key_hex'' = to_hex (ext_public_key E kp) \<and> ed25519_at v ''signature_hex'' = to_hex sig \<and>
    verify_signed_payload E (ser_request_auth E payload) (ext_public_key E kp) sig"
proof -
  from assms(1) obtain kp payload where
    "to_hex (ext_public_key E kp) = ed25519_at v ''public_key_hex''"
    "de_request_auth E (index_member v ''input'') = Some payload"
    "to_hex (ext_sign E kp (canonical_request_signing_bytes E (ser_request_auth E payload))) = ed25519_at v ''signature_hex''"
    by (auto simp: check_operator_signature_def and_then_Inr Let_def)
  then show ?thesis
    using ed25519_correctD [OF assms(2)]
    by (intro exI [of _ payload] exI [of _ kp]
          exI [of _ "ext_sign E kp (canonical_request_signing_bytes E (ser_request_auth E payload))"])
       (simp add: verify_signed_payload_def)
qed

text \<open>Conversely, a vector made from a payload and a key by this build passes its check.\<close>

lemma operator_vector_passes:
  assumes "uuid_text_ok E" and "datetime_text_ok E" and "e6_range (rap_timestamp p)" and "ext_from_seed E seed = Some kp"
    and "index_member v ''input'' = ser_request_auth E p"
    and "index_member v ''ed25519'' = JObject (map_collect
          [(''private_key_seed_hex'', JString (to_hex seed)), (''public_key_hex'', JString (to_hex (ext_public_key E kp))),
           (''signature_hex'', JString (to_hex (sign_payload E (ser_request_auth E p) kp)))])"
  shows "check_operator_signature E v = Inr ()"
proof -
  let ?kvs = "[(''private_key_seed_hex'', JString (to_hex seed)), (''public_key_hex'', JString (to_hex (ext_public_key E kp))),
           (''signature_hex'', JString (to_hex (sign_payload E (ser_request_auth E p) kp)))]"
  have "map_of (map_collect ?kvs) = map_of ?kvs" by (rule map_of_collect_distinct) simp
  then have m: "index_member (index_member v ''ed25519'') k = (case map_of ?kvs k of Some w \<Rightarrow> w | None \<Rightarrow> Null)" for k
    by (subst assms(6)) (simp add: index_member_def)
  show ?thesis
    using assms(4) de_ser_request_auth [OF assms(1-3)]
    by (simp add: check_operator_signature_def seed_keypair_def ed25519_at_def text_at_def m assms(5)
          sign_payload_def Let_def)
qed

lemma tier_names_frozen:
  "check_assurance_tiers v = Inr () \<longleftrightarrow>
     (\<exists>vs. as_array (index_member v ''assurance_tier_strings'') = Some vs \<and>
        map str_or_default vs = [''selfReported'', ''counterSigned'', ''thirdPartyAttested''])"
  by (cases "as_array (index_member v ''assurance_tier_strings'')")
     (auto simp: check_assurance_tiers_def Let_def)

end
