(* ===== verification/Vaid_Request_Vectors.thy ===== *)
theory Vaid_Request_Vectors
  imports Vaid_Vectors Vaid_Pop_Firewall Vaid_Client Vaid_Json_Text Vaid_Demo
begin

text \<open>
  The programs that print the request vectors: \<^verbatim>\<open>vaid-pop/examples/emit_completion_vector.rs\<close>, and the
  two of the client, \<^verbatim>\<open>vaid-client/examples/emit_pop.rs\<close> and \<^verbatim>\<open>emit_pop_pathquery.rs\<close>, which run the
  client's signer over the frozen request vector.  The text of that vector is an argument, as is the
  decoder of base64.  What they print agrees with the checks of the request crate.
\<close>

section \<open>The completion record\<close>

definition EMPTY_SHA256 :: string where
  "EMPTY_SHA256 = ''e3b0c44298fc1c149afbf4c8996fb92427ae41e4649b934ca495991b7852b855''"

definition OPERATOR_REQUEST_DIGEST :: string where
  "OPERATOR_REQUEST_DIGEST = ''ee474ba87d703ebeacf663d7d6a2f15319bdef285c5b702e336d0f4af5b61327''"

definition emit_completion_vector :: "(string \<Rightarrow> string) \<Rightarrow> ext \<Rightarrow> json option" where
  "emit_completion_vector prose E =
     do { let vaid_text = ''11111111-1111-1111-1111-111111111111'';
          let tenant_id = ''synthera-control-plane'';
          let completed_at = ''2026-06-04T12:00:05Z'';
          let record_nonce = ''fedcba9876543210fedcba9876543210'';
          vid \<leftarrow> de_uuid E (JString vaid_text);
          completed \<leftarrow> ext_parse_rfc3339 E completed_at;
          signer \<leftarrow> de_uuid E (JString vaid_text);
          let rec = \<lparr>cr_vaid_id = vid, cr_request_digest_sha256 = OPERATOR_REQUEST_DIGEST, cr_tenant_id = tenant_id,
            cr_status = ''succeeded'', cr_result_sha256 = EMPTY_SHA256, cr_completed_at = completed,
            cr_signer_vaid_id = signer, cr_assurance_tier = SelfReported, cr_record_nonce = record_nonce\<rparr>;
          let digest = canonical_request_signing_bytes E (ser_completion E rec);
          kp \<leftarrow> kernel_key_pair E;
          let signature = ext_sign E kp digest;
          Some (json_object
            [(''_comment'', JString (prose ''_comment'')),
             (''scheme'', JString (prose ''scheme'')),
             (''input'', json_object
                [(''vaidId'', JString vaid_text),
                 (''requestDigestSha256'', JString OPERATOR_REQUEST_DIGEST),
                 (''tenantId'', JString tenant_id),
                 (''status'', JString ''succeeded''),
                 (''resultSha256'', JString EMPTY_SHA256),
                 (''completedAt'', JString completed_at),
                 (''signerVaidId'', JString vaid_text),
                 (''assuranceTier'', JString ''selfReported''),
                 (''recordNonce'', JString record_nonce)]),
             (''assurance_tier_strings'', ser_strings [''selfReported'', ''counterSigned'', ''thirdPartyAttested'']),
             (''digest_sha256_hex'', JString (to_hex digest)),
             (''ed25519'', json_object
                [(''_comment'', JString (prose ''ed25519'')),
                 (''private_key_seed_hex'', JString KERNEL_SEED_HEX),
                 (''public_key_hex'', JString (to_hex (ext_public_key E kp))),
                 (''signature_hex'', JString (to_hex signature))])]) }"

section \<open>The client over the frozen request\<close>

text \<open>The document handed to the signer is written with a format string, not by the library.\<close>

definition vaid_json_of :: "string \<Rightarrow> string \<Rightarrow> string" where
  "vaid_json_of vid tenant =
     ''{'' @ quoted ''vaid_id'' @ '':'' @ quoted vid @ '','' @ quoted ''tenant_id'' @ '':'' @ quoted tenant @ ''}''"

definition unwrap :: "'e + 'a \<Rightarrow> 'a option" where
  "unwrap r = (case r of Inl e \<Rightarrow> None | Inr x \<Rightarrow> Some x)"

definition input_str :: "json \<Rightarrow> string \<Rightarrow> string option" where
  "input_str v key = as_str (index_member (index_member v ''input'') key)"

definition frozen_key_pair :: "ext \<Rightarrow> json \<Rightarrow> keypair option" where
  "frozen_key_pair E v =
     as_str (index_member (index_member v ''ed25519'') ''private_key_seed_hex'') \<bind> unhex \<bind> ext_from_seed E"

definition emit_pop :: "(string \<Rightarrow> bytes option) \<Rightarrow> ext \<Rightarrow> string \<Rightarrow> json option" where
  "emit_pop decode E vector_json =
     do { v \<leftarrow> parse_value E vector_json;
          kp \<leftarrow> frozen_key_pair E v;
          vaid_text \<leftarrow> input_str v ''vaidId'';
          tenant_id \<leftarrow> input_str v ''tenantId'';
          signer \<leftarrow> unwrap (signer_from_vaid_json E (vaid_json_of vaid_text tenant_id) kp);
          timestamp \<leftarrow> input_str v ''timestamp'';
          now \<leftarrow> ext_parse_rfc3339 E timestamp;
          nonce \<leftarrow> input_str v ''clientNonce'';
          method \<leftarrow> input_str v ''method'';
          path \<leftarrow> input_str v ''path'';
          headers \<leftarrow> unwrap (sign_headers_at E signer method path [] now nonce);
          payload \<leftarrow> de_request_auth E (index_member v ''input'');
          let digest = canonical_request_signing_bytes E (ser_request_auth E payload);
          sig \<leftarrow> decode (ph_signature headers);
          Some (json_object
            [(''digest_sha256_hex'', JString (to_hex digest)),
             (''signature_hex'', JString (to_hex sig)),
             (''timestamp'', JString (ph_timestamp headers)),
             (''client_nonce'', JString (ph_nonce headers))]) }"

definition emit_pop_pathquery :: "(string \<Rightarrow> string) \<Rightarrow> (string \<Rightarrow> bytes option) \<Rightarrow> ext \<Rightarrow> string \<Rightarrow> json option" where
  "emit_pop_pathquery prose decode E vector_json =
     do { v \<leftarrow> parse_value E vector_json;
          seed_hex \<leftarrow> as_str (index_member (index_member v ''ed25519'') ''private_key_seed_hex'');
          kp \<leftarrow> frozen_key_pair E v;
          let public_key_hex = to_hex (ext_public_key E kp);
          vaid_text \<leftarrow> input_str v ''vaidId'';
          tenant_id \<leftarrow> input_str v ''tenantId'';
          timestamp \<leftarrow> input_str v ''timestamp'';
          nonce \<leftarrow> input_str v ''clientNonce'';
          let method = ''POST'';
          let path = ''/vaid/mint?tenant=acme&limit=10'';
          let body_sha256 = to_hex (ext_sha256 E []);
          signer \<leftarrow> unwrap (signer_from_vaid_json E (vaid_json_of vaid_text tenant_id) kp);
          now_dt \<leftarrow> ext_parse_rfc3339 E timestamp;
          headers \<leftarrow> unwrap (sign_headers_at E signer method path [] now_dt nonce);
          vid \<leftarrow> de_uuid E (JString vaid_text);
          let payload = \<lparr>rap_vaid_id = vid, rap_method = method, rap_path = path, rap_body_sha256 = body_sha256,
            rap_tenant_id = tenant_id, rap_timestamp = now_dt, rap_client_nonce = nonce\<rparr>;
          let digest = canonical_request_signing_bytes E (ser_request_auth E payload);
          sig \<leftarrow> decode (ph_signature headers);
          Some (json_object
            [(''_comment'', JString (prose ''_comment'')),
             (''scheme'', JString (prose ''scheme'')),
             (''input'', json_object
                [(''vaidId'', JString vaid_text),
                 (''method'', JString method),
                 (''path'', JString path),
                 (''bodySha256'', JString body_sha256),
                 (''tenantId'', JString tenant_id),
                 (''timestamp'', JString timestamp),
                 (''clientNonce'', JString nonce)]),
             (''digest_sha256_hex'', JString (to_hex digest)),
             (''ed25519'', json_object
                [(''_comment'', JString (prose ''ed25519'')),
                 (''private_key_seed_hex'', JString seed_hex),
                 (''public_key_hex'', JString public_key_hex),
                 (''signature_hex'', JString (to_hex sig))])]) }"

section \<open>What the libraries are asked\<close>

text \<open>
  Base64 is decoded to what was encoded, and a literal instant is read alike by both parsers of chrono.
  The parser of \<^verbatim>\<open>serde_json\<close> is asked for \<open>reads_plain\<close>.
\<close>

definition base64_inverse :: "ext \<Rightarrow> (string \<Rightarrow> bytes option) \<Rightarrow> bool" where
  "base64_inverse E decode \<longleftrightarrow> (\<forall>bs. decode (ext_base64 E bs) = Some bs)"

definition reads_datetimes :: "ext \<Rightarrow> string list \<Rightarrow> bool" where
  "reads_datetimes E ss = list_all (\<lambda>s. ext_parse_rfc3339 E s = rfc3339_instant s \<and> ext_parse_datetime E s = rfc3339_instant s) ss"

text \<open>
  A frozen request in the form the client writes: an object whose members are read as \<open>p\<close>, with the
  method in capitals, an empty body, and whole seconds spelled as \<^verbatim>\<open>to_rfc3339_opts\<close> does.
\<close>

definition canonical_request :: "ext \<Rightarrow> json \<Rightarrow> request_auth_payload \<Rightarrow> bool" where
  "canonical_request E v p \<longleftrightarrow>
     is_object (index_member v ''input'') \<and> de_request_auth E (index_member v ''input'') = Some p \<and>
     (\<exists>vid. input_str v ''vaidId'' = Some vid \<and> json_plain vid) \<and> json_plain (rap_tenant_id p) \<and>
     input_str v ''timestamp'' = Some (ext_rfc3339_secs E (rap_timestamp p)) \<and>
     ext_parse_rfc3339 E (ext_rfc3339_secs E (rap_timestamp p)) = Some (rap_timestamp p) \<and>
     trunc_secs (rap_timestamp p) = rap_timestamp p \<and>
     ext_to_uppercase E (rap_method p) = rap_method p \<and> rap_body_sha256 p = hex_sha256 E []"

section \<open>The completion vector passes\<close>

lemma de_completion_object:
  assumes "ext_uuid_parse E i = Some u" and "ext_parse_datetime E t = Some c"
  shows "de_completion E (json_object
     [(''vaidId'', JString i), (''requestDigestSha256'', JString d), (''tenantId'', JString ten), (''status'', JString s),
      (''resultSha256'', JString r), (''completedAt'', JString t), (''signerVaidId'', JString i),
      (''assuranceTier'', JString ''selfReported''), (''recordNonce'', JString n)]) =
     Some \<lparr>cr_vaid_id = u, cr_request_digest_sha256 = d, cr_tenant_id = ten, cr_status = s, cr_result_sha256 = r,
       cr_completed_at = c, cr_signer_vaid_id = u, cr_assurance_tier = SelfReported, cr_record_nonce = n\<rparr>"
proof -
  have "struct_fields completion_field_names (json_object
     [(''vaidId'', JString i), (''requestDigestSha256'', JString d), (''tenantId'', JString ten), (''status'', JString s),
      (''resultSha256'', JString r), (''completedAt'', JString t), (''signerVaidId'', JString i),
      (''assuranceTier'', JString ''selfReported''), (''recordNonce'', JString n)]) = Some (map_of
     [(''vaidId'', JString i), (''requestDigestSha256'', JString d), (''tenantId'', JString ten), (''status'', JString s),
      (''resultSha256'', JString r), (''completedAt'', JString t), (''signerVaidId'', JString i),
      (''assuranceTier'', JString ''selfReported''), (''recordNonce'', JString n)])"
    unfolding json_object_def by (rule struct_fields_collect) (simp_all add: completion_field_names_def)
  then show ?thesis using assms by (simp add: de_completion_def de_uuid_def de_datetime_def de_tier_def tier_of_name_def)
qed

lemma completion_vector_passes:
  assumes laws: "emitter_laws E" and "reads_datetimes E [''2026-06-04T12:00:05Z'']"
  shows "\<exists>v. emit_completion_vector prose E = Some v \<and> run_checks [check_completion E, check_assurance_tiers] v = Inr ()"
proof -
  from emitter_key [OF laws] obtain kp where key: "kernel_key_pair E = Some kp" "ext_from_seed E fixed_key_bytes = Some kp"
    by blast
  have "uuid_shape ''11111111-1111-1111-1111-111111111111''" by code_simp
  from emitter_names [OF laws this] obtain u where u: "ext_uuid_parse E ''11111111-1111-1111-1111-111111111111'' = Some u"
    by (auto simp: names_def)
  have "e6_shape ''2026-06-04T12:00:05Z''" by code_simp
  then obtain c where "rfc3339_instant ''2026-06-04T12:00:05Z'' = Some c" by (simp add: rfc3339_instant_def)
  then have c: "ext_parse_rfc3339 E ''2026-06-04T12:00:05Z'' = Some c" "ext_parse_datetime E ''2026-06-04T12:00:05Z'' = Some c"
    using assms(2) by (simp_all add: reads_datetimes_def)
  show ?thesis
    using key u c
    by (simp add: emit_completion_vector_def de_uuid_def run_checks_Inr check_completion_def seed_keypair_def
          index_json_object de_completion_object text_at_def ed25519_at_def tier_names_frozen ser_strings_def Let_def)
qed

section \<open>The client agrees with the frozen request\<close>

lemma de_request_members:
  assumes "is_object r" and "de_request_auth E r = Some p"
  shows "\<exists>vid ts. index_member r ''vaidId'' = JString vid \<and> ext_uuid_parse E vid = Some (rap_vaid_id p) \<and>
    index_member r ''timestamp'' = JString ts \<and> ext_parse_datetime E ts = Some (rap_timestamp p) \<and>
    index_member r ''method'' = JString (rap_method p) \<and> index_member r ''path'' = JString (rap_path p) \<and>
    index_member r ''bodySha256'' = JString (rap_body_sha256 p) \<and> index_member r ''tenantId'' = JString (rap_tenant_id p) \<and>
    index_member r ''clientNonce'' = JString (rap_client_nonce p)"
  using assms
  by (cases r) (auto simp: de_request_auth_def struct_fields_def request_field_names_def index_member_def bind_eq_Some_conv
      de_uuid_def de_datetime_def is_object_def split: if_splits)

lemma json_read_identity:
  assumes "json_plain vid" and "json_plain tenant"
  shows "json_read (vaid_json_of vid tenant) = Some (JObject [(''vaid_id'', JString vid), (''tenant_id'', JString tenant)])"
proof -
  obtain n where n: "length (vaid_json_of vid tenant) = Suc (Suc n)" by (simp add: vaid_json_of_def quoted_def)
  have plain: "json_plain ''vaid_id''" "json_plain ''tenant_id''" by code_simp+
  note key = read_key_quoted [OF plain(1), unfolded quoted_def, simplified] read_key_quoted [OF plain(2), unfolded quoted_def, simplified]
  show ?thesis
    using assms
    by (simp add: json_read_def n) (simp add: vaid_json_of_def quoted_def key read_string_plain json_space_def starts_with_char_def)
qed

lemma identity_of_text:
  assumes "reads_plain E" and "json_plain vid" and "json_plain tenant" and "ext_uuid_parse E vid = Some u"
  shows "\<exists>i. signer_from_vaid_json E (vaid_json_of vid tenant) kp = Inr \<lparr>rs_identity = i, rs_key = kp\<rparr> \<and>
    pi_vaid_id i = u \<and> pi_tenant_id i = tenant"
proof -
  have "nests_within (Suc 0) (JObject [(''vaid_id'', JString vid), (''tenant_id'', JString tenant)])" by simp
  then have "nests_within 127 (JObject [(''vaid_id'', JString vid), (''tenant_id'', JString tenant)])"
    by (rule nests_within_mono) simp
  from reads_plainD [OF assms(1) json_read_identity [OF assms(2,3)] this] assms(4) show ?thesis
    by (simp add: signer_from_vaid_json_def pop_identity_from_vaid_json_def de_vaid_identity_def)
qed

text \<open>What the signer sends for a request whose payload is already in the form it signs.\<close>

lemma sign_headers_canonical:
  assumes "request_payload E i method path body now nonce = (p, ts)"
  shows "sign_headers_at E \<lparr>rs_identity = i, rs_key = kp\<rparr> method path body now nonce =
    Inr \<lparr>ph_vaid = pi_vaid_header i, ph_timestamp = ts, ph_nonce = nonce,
      ph_signature = ext_base64 E (sign_payload E (ser_request_auth E p) kp)\<rparr>"
  using assms by (simp add: sign_headers_at_def pop_headers_of_def)

lemma frozen_key_strict:
  assumes "seed_keypair E v = Inr kp"
  shows "frozen_key_pair E v = Some kp"
  using assms
  by (auto simp: seed_keypair_def frozen_key_pair_def unhex_def and_then_Inr bind_eq_Some_conv split: option.splits)

lemma emit_pop_reproduces:
  assumes "base64_inverse E decode" and "reads_plain E" and "parse_value E text = Some v"
    and "canonical_request E v p" and "run_checks [check_operator_digest E, check_operator_signature E] v = Inr ()"
  shows "\<exists>out. emit_pop decode E text = Some out \<and>
    text_at out ''digest_sha256_hex'' = text_at v ''digest_sha256_hex'' \<and>
    text_at out ''signature_hex'' = ed25519_at v ''signature_hex'' \<and>
    input_str v ''timestamp'' = as_str (index_member out ''timestamp'') \<and>
    input_str v ''clientNonce'' = as_str (index_member out ''client_nonce'')"
proof -
  let ?r = "index_member v ''input''"
  from assms(4) have obj: "is_object ?r" "de_request_auth E ?r = Some p" by (simp_all add: canonical_request_def)
  from de_request_members [OF obj] assms(4) obtain vid where
    m: "input_str v ''vaidId'' = Some vid" "ext_uuid_parse E vid = Some (rap_vaid_id p)" "json_plain vid"
      "json_plain (rap_tenant_id p)" "input_str v ''tenantId'' = Some (rap_tenant_id p)"
      "input_str v ''method'' = Some (rap_method p)" "input_str v ''path'' = Some (rap_path p)"
      "input_str v ''clientNonce'' = Some (rap_client_nonce p)"
      "input_str v ''timestamp'' = Some (ext_rfc3339_secs E (rap_timestamp p))"
      "ext_parse_rfc3339 E (ext_rfc3339_secs E (rap_timestamp p)) = Some (rap_timestamp p)"
    by (auto simp: canonical_request_def input_str_def)
  from assms(5) obj(2) obtain kp where
    kp: "seed_keypair E v = Inr kp"
    and dig: "to_hex (canonical_request_signing_bytes E (ser_request_auth E p)) = text_at v ''digest_sha256_hex''"
    and sig: "to_hex (sign_payload E (ser_request_auth E p) kp) = ed25519_at v ''signature_hex''"
    by (auto simp: run_checks_Inr check_operator_digest_def check_operator_signature_def and_then_Inr sign_payload_def Let_def
        split: if_splits)
  from identity_of_text [OF assms(2) m(3,4,2), of kp] obtain i where
    i: "signer_from_vaid_json E (vaid_json_of vid (rap_tenant_id p)) kp = Inr \<lparr>rs_identity = i, rs_key = kp\<rparr>"
      "pi_vaid_id i = rap_vaid_id p" "pi_tenant_id i = rap_tenant_id p" by blast
  have "request_payload E i (rap_method p) (rap_path p) [] (rap_timestamp p) (rap_client_nonce p) =
      (p, ext_rfc3339_secs E (rap_timestamp p))"
    using assms(4) i by (simp add: request_payload_def canonical_request_def Let_def)
  note h = sign_headers_canonical [OF this, of kp]
  have dec: "decode (ext_base64 E b) = Some b" for b using assms(1) by (simp add: base64_inverse_def)
  show ?thesis
    by (simp add: emit_pop_def assms(3) frozen_key_strict [OF kp] m i h obj(2) unwrap_def dec dig sig index_json_object
        text_at_def [of "json_object kvs" for kvs])
qed

lemma de_request_object:
  assumes "ext_uuid_parse E vid = Some u" and "ext_parse_datetime E ts = Some t"
  shows "de_request_auth E (json_object
     [(''vaidId'', JString vid), (''method'', JString m), (''path'', JString path), (''bodySha256'', JString b),
      (''tenantId'', JString ten), (''timestamp'', JString ts), (''clientNonce'', JString n)]) =
     Some \<lparr>rap_vaid_id = u, rap_method = m, rap_path = path, rap_body_sha256 = b, rap_tenant_id = ten,
       rap_timestamp = t, rap_client_nonce = n\<rparr>"
proof -
  have "struct_fields request_field_names (json_object
     [(''vaidId'', JString vid), (''method'', JString m), (''path'', JString path), (''bodySha256'', JString b),
      (''tenantId'', JString ten), (''timestamp'', JString ts), (''clientNonce'', JString n)]) = Some (map_of
     [(''vaidId'', JString vid), (''method'', JString m), (''path'', JString path), (''bodySha256'', JString b),
      (''tenantId'', JString ten), (''timestamp'', JString ts), (''clientNonce'', JString n)])"
    unfolding json_object_def by (rule struct_fields_collect) (simp_all add: request_field_names_def)
  then show ?thesis using assms by (simp add: de_request_auth_def de_uuid_def de_datetime_def)
qed

text \<open>The vector with a query in the path passes the checks of the request crate, like the one it is made from.\<close>

lemma pathquery_vector_passes:
  assumes "base64_inverse E decode" and "reads_plain E" and "parse_value E text = Some v"
    and "canonical_request E v p" and "run_checks [check_operator_digest E, check_operator_signature E] v = Inr ()"
    and "ext_to_uppercase E ''POST'' = ''POST''" and "\<forall>bs. length (ext_sha256 E bs) = 32"
  shows "\<exists>out. emit_pop_pathquery prose decode E text = Some out \<and>
    run_checks [check_operator_digest E, check_operator_signature E] out = Inr ()"
proof -
  let ?r = "index_member v ''input''"
  from assms(4) have obj: "is_object ?r" "de_request_auth E ?r = Some p" by (simp_all add: canonical_request_def)
  from de_request_members [OF obj] assms(4) obtain vid where
    m: "input_str v ''vaidId'' = Some vid" "ext_uuid_parse E vid = Some (rap_vaid_id p)" "json_plain vid"
      "json_plain (rap_tenant_id p)" "input_str v ''tenantId'' = Some (rap_tenant_id p)"
      "input_str v ''clientNonce'' = Some (rap_client_nonce p)"
      "input_str v ''timestamp'' = Some (ext_rfc3339_secs E (rap_timestamp p))"
      "ext_parse_rfc3339 E (ext_rfc3339_secs E (rap_timestamp p)) = Some (rap_timestamp p)"
      "ext_parse_datetime E (ext_rfc3339_secs E (rap_timestamp p)) = Some (rap_timestamp p)"
    by (auto simp: canonical_request_def input_str_def)
  from assms(5) obtain kp where kp: "seed_keypair E v = Inr kp"
    by (auto simp: run_checks_Inr check_operator_signature_def and_then_Inr)
  then obtain hex seed where hex: "index_member (index_member v ''ed25519'') ''private_key_seed_hex'' = JString hex"
      "unhex_strict hex = Inr seed" "ext_from_seed E seed = Some kp"
    by (auto simp: seed_keypair_def and_then_Inr split: option.splits)
  from identity_of_text [OF assms(2) m(3,4,2), of kp] obtain i where
    i: "signer_from_vaid_json E (vaid_json_of vid (rap_tenant_id p)) kp = Inr \<lparr>rs_identity = i, rs_key = kp\<rparr>"
      "pi_vaid_id i = rap_vaid_id p" "pi_tenant_id i = rap_tenant_id p" by blast
  let ?q = "p\<lparr>rap_method := ''POST'', rap_path := ''/vaid/mint?tenant=acme&limit=10'',
      rap_body_sha256 := to_hex (ext_sha256 E [])\<rparr>"
  have q: "\<lparr>rap_vaid_id = rap_vaid_id p, rap_method = ''POST'', rap_path = ''/vaid/mint?tenant=acme&limit=10'',
      rap_body_sha256 = to_hex (ext_sha256 E []), rap_tenant_id = rap_tenant_id p, rap_timestamp = rap_timestamp p,
      rap_client_nonce = rap_client_nonce p\<rparr> = ?q" by (cases p) simp
  have "request_payload E i ''POST'' ''/vaid/mint?tenant=acme&limit=10'' [] (rap_timestamp p) (rap_client_nonce p) =
      (?q, ext_rfc3339_secs E (rap_timestamp p))"
    using assms(4,6) i by (simp add: request_payload_def canonical_request_def hex_sha256_def q Let_def)
  note h = sign_headers_canonical [OF this, of kp]
  have dec: "decode (ext_base64 E b) = Some b" for b using assms(1) by (simp add: base64_inverse_def)
  have sign: "sign_payload E w kp = ext_sign E kp (canonical_request_signing_bytes E w)" for w
    by (simp add: sign_payload_def)
  have len: "length (canonical_request_signing_bytes E w) = 32" for w
    using assms(7) by (simp add: canonical_request_signing_bytes_def)
  show ?thesis
    by (simp add: emit_pop_pathquery_def assms(3) frozen_key_strict [OF kp] m i h unwrap_def dec hex de_uuid_def q sign len
        index_json_object run_checks_Inr check_operator_digest_def check_operator_signature_def seed_keypair_def
        de_request_object [OF m(2,9)] text_at_def ed25519_at_def Let_def)
qed

section \<open>An instance of the libraries\<close>

text \<open>
  The instance of the other vectors with digests of 32 bytes and one frozen request: the reader of JSON
  gives that request for one text, and reads as \<open>json_read\<close> does otherwise.
\<close>

definition request_ext :: ext where
  "request_ext = vector_ext\<lparr>ext_sha256 := (\<lambda>b. take 32 (b @ replicate 32 0)), ext_parse_datetime := rfc3339_instant,
     ext_rfc3339_secs := civil_text, ext_parse_json := json_read\<rparr>"

definition request_instant :: instant where
  "request_instant = 1780574400000000000"

definition request_frozen :: "uuid \<Rightarrow> request_auth_payload" where
  "request_frozen u =
     \<lparr>rap_vaid_id = u, rap_method = ''POST'', rap_path = ''/vaid/mint'', rap_body_sha256 = hex_sha256 request_ext [],
      rap_tenant_id = ''acme'', rap_timestamp = request_instant, rap_client_nonce = ''0123456789abcdef0123456789abcdef''\<rparr>"

definition request_vector :: "uuid \<Rightarrow> json" where
  "request_vector u =
     (let digest = canonical_request_signing_bytes request_ext (ser_request_auth request_ext (request_frozen u)) in json_object
       [(''input'', json_object
          [(''vaidId'', JString ''11111111-1111-1111-1111-111111111111''), (''method'', JString ''POST''),
           (''path'', JString ''/vaid/mint''), (''bodySha256'', JString (hex_sha256 request_ext [])), (''tenantId'', JString ''acme''),
           (''timestamp'', JString ''2026-06-04T12:00:00Z''), (''clientNonce'', JString ''0123456789abcdef0123456789abcdef'')]),
        (''digest_sha256_hex'', JString (to_hex digest)),
        (''ed25519'', json_object
          [(''private_key_seed_hex'', JString KERNEL_SEED_HEX),
           (''public_key_hex'', JString (to_hex (ext_public_key request_ext fixed_key_bytes))),
           (''signature_hex'', JString (to_hex (ext_sign request_ext fixed_key_bytes digest)))])])"

definition request_reader :: "uuid \<Rightarrow> ext" where
  "request_reader u = request_ext\<lparr>ext_parse_json := (\<lambda>s. if s = ''vector'' then Some (request_vector u) else json_read s)\<rparr>"

section \<open>Properties\<close>

text \<open>
  C36.  The emitters of the request crates agree with its conformance program.  Given a frozen request that
  the program accepts and that is written as the client writes it, the client's signer over the
  frozen key, the frozen instant and the frozen nonce gives the frozen digest, signature, timestamp and
  nonce again, and the vector made from it with a query in the path is accepted too; and the
  completion record that is printed passes both of its checks.  Base64 is decoded to what was encoded,
  a digest has 32 bytes, and the literals are read as the calendar has them.
\<close>

theorem request_emitters_agree:
  assumes "base64_inverse E decode" and "reads_plain E" and "parse_value E text = Some v"
    and "canonical_request E v p" and "run_checks [check_operator_digest E, check_operator_signature E] v = Inr ()"
    and "ext_to_uppercase E ''POST'' = ''POST''" and "\<forall>bs. length (ext_sha256 E bs) = 32"
    and "emitter_laws E" and "reads_datetimes E [''2026-06-04T12:00:05Z'']"
  shows "(\<exists>out. emit_pop decode E text = Some out \<and>
      text_at out ''digest_sha256_hex'' = text_at v ''digest_sha256_hex'' \<and>
      text_at out ''signature_hex'' = ed25519_at v ''signature_hex'' \<and>
      input_str v ''timestamp'' = as_str (index_member out ''timestamp'') \<and>
      input_str v ''clientNonce'' = as_str (index_member out ''client_nonce'')) \<and>
    (\<exists>out. emit_pop_pathquery prose decode E text = Some out \<and>
      run_checks [check_operator_digest E, check_operator_signature E] out = Inr ()) \<and>
    (\<exists>out. emit_completion_vector prose E = Some out \<and> run_checks [check_completion E, check_assurance_tiers] out = Inr ())"
  using emit_pop_reproduces [OF assms(1-5)] pathquery_vector_passes [OF assms(1-7)] completion_vector_passes [OF assms(8,9)]
  by blast

lemma request_ext_fields:
  "ext_uuid_parse request_ext = uuid_parse" "ext_parse_datetime request_ext = rfc3339_instant"
  "ext_rfc3339_secs request_ext = civil_text" "ext_parse_rfc3339 request_ext = rfc3339_instant"
  "ext_to_uppercase request_ext = map ascii_upper" "ext_from_seed request_ext = (\<lambda>s. if length s = 32 then Some s else None)"
  "ext_base64 request_ext = string_of_bytes" "ext_sha256 request_ext = (\<lambda>b. take 32 (b @ replicate 32 0))"
  by (simp_all add: request_ext_def vector_ext_def demo_ext_def)

lemma request_texts:
  "uuid_shape ''11111111-1111-1111-1111-111111111111''" "map ascii_upper ''POST'' = ''POST''"
  "rfc3339_instant ''2026-06-04T12:00:00Z'' = Some request_instant" "civil_text request_instant = ''2026-06-04T12:00:00Z''"
  "trunc_secs request_instant = request_instant" "length fixed_key_bytes = 32" "json_read ''vector'' = None"
  "json_plain ''11111111-1111-1111-1111-111111111111''" "json_plain ''acme''"
  by code_simp+

lemma request_reader_fields:
  "ext_uuid_parse (request_reader u) = uuid_parse" "ext_parse_datetime (request_reader u) = rfc3339_instant"
  "ext_rfc3339_secs (request_reader u) = civil_text" "ext_parse_rfc3339 (request_reader u) = rfc3339_instant"
  "ext_to_uppercase (request_reader u) = map ascii_upper" "ext_base64 (request_reader u) = string_of_bytes"
  "ext_from_seed (request_reader u) = (\<lambda>s. if length s = 32 then Some s else None)"
  "ext_public_key (request_reader u) = ext_public_key request_ext" "ext_sign (request_reader u) = ext_sign request_ext"
  "hex_sha256 (request_reader u) = hex_sha256 request_ext"
  "canonical_request_signing_bytes (request_reader u) = canonical_request_signing_bytes request_ext"
  "ser_request_auth (request_reader u) = ser_request_auth request_ext"
  by (simp_all add: request_reader_def request_ext_fields hex_sha256_def canonical_request_signing_bytes_def ser_request_auth_def
      ser_uuid_def ser_datetime_def fun_eq_iff)

lemma request_reader_laws:
  "emitter_laws (request_reader u)" "reads_plain (request_reader u)" "base64_inverse (request_reader u) (\<lambda>s. Some (bytes_of_string s))"
  "reads_datetimes (request_reader u) [''2026-06-04T12:00:05Z'']" "length (ext_sha256 (request_reader u) bs) = 32"
proof -
  show "emitter_laws (request_reader u)"
    using vector_ext_laws(1)
    by (simp add: emitter_laws_def ed25519_correct_def uuid_canonical_ok_def seed_ok_def reads_literals_def request_reader_def request_ext_def)
  show "reads_plain (request_reader u)" using request_texts(7) by (auto simp: reads_plain_def request_reader_def)
  show "base64_inverse (request_reader u) (\<lambda>s. Some (bytes_of_string s))"
    by (simp add: base64_inverse_def request_reader_fields bytes_of_string_of_bytes)
  show "reads_datetimes (request_reader u) [''2026-06-04T12:00:05Z'']" by (simp add: reads_datetimes_def request_reader_fields)
  show "length (ext_sha256 (request_reader u) bs) = 32" by (simp add: request_reader_def request_ext_fields)
qed

lemma request_vector_read: "parse_value (request_reader u) ''vector'' = Some (request_vector u)"
proof -
  have "value_norm (request_vector u) = request_vector u"
    by (simp add: request_vector_def json_object_def map_collect_def Let_def)
  then show ?thesis by (simp add: parse_value_def request_reader_def)
qed

lemma request_vector_canonical:
  assumes "uuid_parse ''11111111-1111-1111-1111-111111111111'' = Some u"
  shows "canonical_request (request_reader u) (request_vector u) (request_frozen u)"
    "run_checks [check_operator_digest (request_reader u), check_operator_signature (request_reader u)] (request_vector u) = Inr ()"
proof -
  let ?r = "index_member (request_vector u) ''input''"
  have r: "?r = json_object
     [(''vaidId'', JString ''11111111-1111-1111-1111-111111111111''), (''method'', JString ''POST''),
      (''path'', JString ''/vaid/mint''), (''bodySha256'', JString (hex_sha256 request_ext [])), (''tenantId'', JString ''acme''),
      (''timestamp'', JString ''2026-06-04T12:00:00Z''), (''clientNonce'', JString ''0123456789abcdef0123456789abcdef'')]"
    by (simp add: request_vector_def index_json_object Let_def)
  have de: "de_request_auth (request_reader u) ?r = Some (request_frozen u)"
    using de_request_object [of "request_reader u" _ u "''2026-06-04T12:00:00Z''" request_instant] assms request_texts(3)
    by (simp add: r request_reader_fields request_frozen_def)
  have "is_object ?r" unfolding r by (simp add: json_object_def is_object_def)
  with de show "canonical_request (request_reader u) (request_vector u) (request_frozen u)"
    using request_texts
    by (simp add: canonical_request_def input_str_def r index_json_object request_frozen_def request_reader_fields)
  have "length (canonical_request_signing_bytes request_ext w) = 32" for w
    by (simp add: canonical_request_signing_bytes_def request_ext_fields)
  then show "run_checks [check_operator_digest (request_reader u), check_operator_signature (request_reader u)] (request_vector u) = Inr ()"
    using request_texts(6) de
    by (simp add: run_checks_Inr check_operator_digest_def check_operator_signature_def seed_keypair_def request_reader_fields)
       (simp add: request_vector_def index_json_object text_at_def ed25519_at_def assert_hex_def Let_def)
qed

theorem request_emitters_agree_witness:
  "\<exists>u out. emit_pop (\<lambda>s. Some (bytes_of_string s)) (request_reader u) ''vector'' = Some out \<and>
     text_at out ''signature_hex'' = ed25519_at (request_vector u) ''signature_hex''"
proof -
  obtain u where u: "uuid_parse ''11111111-1111-1111-1111-111111111111'' = Some u"
    using uuid_text_parse [OF request_texts(1)] by blast
  have "ext_to_uppercase (request_reader u) ''POST'' = ''POST''" using request_texts(2) by (simp only: request_reader_fields)
  from request_emitters_agree [OF request_reader_laws(3,2) request_vector_read request_vector_canonical [OF u] this _ request_reader_laws(1,4)]
    request_reader_laws(5) show ?thesis by blast
qed

end
