(* ===== verification/Vaid_Verdict_Emitter.thy ===== *)
theory Vaid_Verdict_Emitter
  imports Vaid_Vectors Vaid_Json_Text
begin

text \<open>
  The program \<^verbatim>\<open>vaid-mint/examples/emit_verdict_vector.rs\<close>, which prints the vector of refusals: the table
  of its cases, how the text of each document is made, signed, altered and cut, and the vector.  The
  writer \<^verbatim>\<open>to_string_pretty\<close> of a document in member order is an argument (\<open>to_text\<close>), and so are the
  texts of comments and reasons (\<open>prose\<close>); every \<^verbatim>\<open>expect\<close> of the program is \<open>None\<close>.  A name with a dash outside
  ASCII is written in its UTF-8 bytes.
\<close>

section \<open>The tables\<close>

definition FOREIGN_SEED_HEX :: string where
  "FOREIGN_SEED_HEX = ''404142434445464748494a4b4c4d4e4f505152535455565758595a5b5c5d5e5f''"

text \<open>The base document, each member with the text of its value.\<close>

definition BASE_FIELDS :: "(string \<times> string) list" where
  "BASE_FIELDS =
    [(''sig_version'', ''4''),
     (''vaid_id'', ''\"c0000000-0000-4000-8000-000000000001\"''),
     (''agent_id'', ''\"c0000000-0000-4000-8000-000000000001\"''),
     (''agent_class'', ''\"verdict\"''),
     (''version'', ''\"1.0.0\"''),
     (''tenant_id'', ''\"acme\"''),
     (''issued_at'', ''\"2020-01-01T00:00:00Z\"''),
     (''expires_at'', ''\"2999-01-01T00:00:00Z\"''),
     (''public_key_der'', ''[3, 161, 7, 191, 243, 206, 16, 190, 29, 112, 221, 24, 231, 75, 192, 153, 103, 228, 214, 48, 155, 165, 13, 95, 29, 220, 134, 100, 18, 85, 49, 184]''),
     (''kernel_signature'', ''[]''),
     (''parent_vaid'', ''null''),
     (''scope_boundary'', ''[{\"kind\": \"prefix\", \"value\": \"data.acme\"}]''),
     (''lineage_hash'', ''\"8f89c127be8d6e98aa288873e5b6413b9b84e6b92b1a8b99a4627f91390f16af\"''),
     (''capability_set'', ''[\"read\"]''),
     (''trust_domain'', ''\"vaid.example\"''),
     (''kernel_key_thumbprint'', ''\"urn:ietf:params:oauth:jwk-thumbprint:sha-256:1IG2tMH7J2wbJZnOf8LJzQitKf7LMvoAElsuDMVM54Y\"'')]"

datatype Signer = Kernel | Foreign

datatype TextShape =
    Document
  | TruncatedAfterTenant
  | DuplicateLeadingTenant
  | NestedDuplicateExtension
  | Literal string

text \<open>An override without a text removes the member.\<close>

type_synonym overrides = "(string \<times> string option) list"

record standing_case =
  sc_name :: string
  sc_pre_sign :: overrides
  sc_signer :: Signer
  sc_post_sign :: overrides
  sc_tamper_signature :: bool
  sc_text :: TextShape
  sc_revocation :: string
  sc_expected_reason :: string
  sc_expected_valid :: bool

record attenuation_case =
  ac_name :: string
  ac_parent_scope :: string
  ac_child_scope :: string
  ac_expected_valid :: bool
  ac_expected_reason :: string

text \<open>A credential of the previous version, carried as it was.\<close>

definition V3_DOCUMENT :: string where
  "V3_DOCUMENT = str_join (CHR 0x0A)
    [''{'', ''  \"sig_version\": 3,'', ''  \"vaid_id\": \"c0000000-0000-4000-8000-000000000001\",'',
     ''  \"agent_id\": \"c0000000-0000-4000-8000-000000000001\",'', ''  \"agent_class\": \"verdict\",'',
     ''  \"version\": \"1.0.0\",'', ''  \"tenant_id\": \"acme\",'',
     ''  \"issued_at\": \"2020-01-01T00:00:00Z\",'', ''  \"expires_at\": \"2999-01-01T00:00:00Z\",'',
     ''  \"public_key_der\": ['', ''    3,'', ''    161,'', ''    7,'', ''    191,'', ''    243,'',
     ''    206,'', ''    16,'', ''    190,'', ''    29,'', ''    112,'', ''    221,'', ''    24,'',
     ''    231,'', ''    75,'', ''    192,'', ''    153,'', ''    103,'', ''    228,'', ''    214,'',
     ''    48,'', ''    155,'', ''    165,'', ''    13,'', ''    95,'', ''    29,'', ''    220,'',
     ''    134,'', ''    100,'', ''    18,'', ''    85,'', ''    49,'', ''    184'', ''  ],'',
     ''  \"kernel_signature\": ['', ''    26,'', ''    148,'', ''    104,'', ''    49,'', ''    172,'',
     ''    135,'', ''    233,'', ''    237,'', ''    93,'', ''    130,'', ''    0,'', ''    250,'',
     ''    158,'', ''    68,'', ''    201,'', ''    40,'', ''    18,'', ''    41,'', ''    238,'',
     ''    242,'', ''    164,'', ''    63,'', ''    179,'', ''    92,'', ''    24,'', ''    142,'',
     ''    34,'', ''    208,'', ''    44,'', ''    189,'', ''    33,'', ''    231,'', ''    149,'',
     ''    227,'', ''    150,'', ''    192,'', ''    207,'', ''    104,'', ''    57,'', ''    162,'',
     ''    212,'', ''    126,'', ''    239,'', ''    197,'', ''    142,'', ''    197,'', ''    125,'',
     ''    10,'', ''    223,'', ''    13,'', ''    9,'', ''    66,'', ''    8,'', ''    95,'', ''    45,'',
     ''    152,'', ''    28,'', ''    98,'', ''    176,'', ''    169,'', ''    121,'', ''    92,'',
     ''    30,'', ''    6'', ''  ],'', ''  \"parent_vaid\": null,'', ''  \"scope_boundary\": ['',
     ''    \"data.acme\"'', ''  ],'',
     ''  \"lineage_hash\": \"8f89c127be8d6e98aa288873e5b6413b9b84e6b92b1a8b99a4627f91390f16af\",'',
     ''  \"capability_set\": ['', ''    \"read\"'', ''  ],'', ''  \"trust_domain\": \"vaid.example\",'',
     ''  \"kernel_key_thumbprint\": \"urn:ietf:params:oauth:jwk-thumbprint:sha-256:1IG2tMH7J2wbJZnOf8LJzQitKf7LMvoAElsuDMVM54Y\"'',
     ''}'']"

definition STANDING_VERDICTS :: "standing_case list" where
  "STANDING_VERDICTS =
    [\<lparr>sc_name = ''control: authentic, unexpired, revocation clean'',
       sc_pre_sign = [], sc_signer = Kernel,
       sc_post_sign = [],
       sc_tamper_signature = False, sc_text = Document, sc_revocation = ''not_revoked'', sc_expected_reason = ''valid'',
       sc_expected_valid = True\<rparr>,
     \<lparr>sc_name = ''expired: past its TTL'',
       sc_pre_sign = [(''expires_at'', Some ''\"2020-01-01T00:00:00Z\"'')], sc_signer = Kernel,
       sc_post_sign = [],
       sc_tamper_signature = False, sc_text = Document, sc_revocation = ''not_revoked'', sc_expected_reason = ''expired'',
       sc_expected_valid = False\<rparr>,
     \<lparr>sc_name = ''revoked: the store reported a revoked lineage'',
       sc_pre_sign = [], sc_signer = Kernel,
       sc_post_sign = [],
       sc_tamper_signature = False, sc_text = Document, sc_revocation = ''revoked'', sc_expected_reason = ''revoked'',
       sc_expected_valid = False\<rparr>,
     \<lparr>sc_name = ''indeterminate: the revocation store could not be consulted'',
       sc_pre_sign = [], sc_signer = Kernel,
       sc_post_sign = [],
       sc_tamper_signature = False, sc_text = Document, sc_revocation = ''unavailable'', sc_expected_reason = ''indeterminate'',
       sc_expected_valid = False\<rparr>,
     \<lparr>sc_name = ''signature valid, payload tampered'',
       sc_pre_sign = [], sc_signer = Kernel,
       sc_post_sign = [(''scope_boundary'', Some ''[{\"kind\": \"prefix\", \"value\": \"data.acme\"}, {\"kind\": \"prefix\", \"value\": \"data.everything\"}]'')],
       sc_tamper_signature = False, sc_text = Document, sc_revocation = ''not_revoked'', sc_expected_reason = ''inauthentic'',
       sc_expected_valid = False\<rparr>,
     \<lparr>sc_name = ''payload valid, signature tampered'',
       sc_pre_sign = [], sc_signer = Kernel,
       sc_post_sign = [],
       sc_tamper_signature = True, sc_text = Document, sc_revocation = ''not_revoked'', sc_expected_reason = ''inauthentic'',
       sc_expected_valid = False\<rparr>,
     \<lparr>sc_name = ''signed by a non-kernel key, thumbprint left as the kernel's'',
       sc_pre_sign = [], sc_signer = Foreign,
       sc_post_sign = [],
       sc_tamper_signature = False, sc_text = Document, sc_revocation = ''not_revoked'', sc_expected_reason = ''inauthentic'',
       sc_expected_valid = False\<rparr>,
     \<lparr>sc_name = ''signed by a non-kernel key, thumbprint rewritten to match it'',
       sc_pre_sign = [(''kernel_key_thumbprint'', Some ''\"urn:ietf:params:oauth:jwk-thumbprint:sha-256:WeVHjIQTOLKu-P74oC-WL-MNn_sLM5CvrzuMjDFC3-s\"'')], sc_signer = Foreign,
       sc_post_sign = [],
       sc_tamper_signature = False, sc_text = Document, sc_revocation = ''not_revoked'', sc_expected_reason = ''issuer_mismatch'',
       sc_expected_valid = False\<rparr>,
     \<lparr>sc_name = ''lineage_hash does not recompute'',
       sc_pre_sign = [(''lineage_hash'', Some ''\"0000000000000000000000000000000000000000000000000000000000000000\"'')], sc_signer = Kernel,
       sc_post_sign = [],
       sc_tamper_signature = False, sc_text = Document, sc_revocation = ''not_revoked'', sc_expected_reason = ''lineage_inconsistent'',
       sc_expected_valid = False\<rparr>,
     \<lparr>sc_name = ''sig_version 2 '' @ [CHR 0xE2, CHR 0x80, CHR 0x94] @ '' a downgrade'',
       sc_pre_sign = [(''sig_version'', Some ''2'')], sc_signer = Kernel,
       sc_post_sign = [],
       sc_tamper_signature = False, sc_text = Document, sc_revocation = ''not_revoked'', sc_expected_reason = ''unsupported_sig_version'',
       sc_expected_valid = False\<rparr>,
     \<lparr>sc_name = ''sig_version absent entirely'',
       sc_pre_sign = [(''sig_version'', None)], sc_signer = Kernel,
       sc_post_sign = [],
       sc_tamper_signature = False, sc_text = Document, sc_revocation = ''not_revoked'', sc_expected_reason = ''unsupported_sig_version'',
       sc_expected_valid = False\<rparr>,
     \<lparr>sc_name = ''trust_domain is not well-formed'',
       sc_pre_sign = [(''trust_domain'', Some ''\"not a domain\"'')], sc_signer = Kernel,
       sc_post_sign = [],
       sc_tamper_signature = False, sc_text = Document, sc_revocation = ''not_revoked'', sc_expected_reason = ''malformed_trust_domain'',
       sc_expected_valid = False\<rparr>]"

definition STANDING_UNPARSEABLE :: "standing_case list" where
  "STANDING_UNPARSEABLE =
    [\<lparr>sc_name = ''truncated: cut mid-document'',
       sc_pre_sign = [], sc_signer = Kernel,
       sc_post_sign = [],
       sc_tamper_signature = False, sc_text = TruncatedAfterTenant, sc_revocation = ''not_revoked'', sc_expected_reason = ''unparseable'',
       sc_expected_valid = False\<rparr>,
     \<lparr>sc_name = ''malformed: not JSON at all'',
       sc_pre_sign = [], sc_signer = Kernel,
       sc_post_sign = [],
       sc_tamper_signature = False, sc_text = Literal ''this is not a VAID'', sc_revocation = ''not_revoked'', sc_expected_reason = ''unparseable'',
       sc_expected_valid = False\<rparr>,
     \<lparr>sc_name = ''malformed: empty input'',
       sc_pre_sign = [], sc_signer = Kernel,
       sc_post_sign = [],
       sc_tamper_signature = False, sc_text = Literal [], sc_revocation = ''not_revoked'', sc_expected_reason = ''unparseable'',
       sc_expected_valid = False\<rparr>,
     \<lparr>sc_name = ''malformed: valid JSON, but an array'',
       sc_pre_sign = [], sc_signer = Kernel,
       sc_post_sign = [],
       sc_tamper_signature = False, sc_text = Literal ''[]'', sc_revocation = ''not_revoked'', sc_expected_reason = ''unparseable'',
       sc_expected_valid = False\<rparr>,
     \<lparr>sc_name = ''malformed: a required member is absent'',
       sc_pre_sign = [], sc_signer = Kernel,
       sc_post_sign = [(''tenant_id'', None)],
       sc_tamper_signature = False, sc_text = Document, sc_revocation = ''not_revoked'', sc_expected_reason = ''unparseable'',
       sc_expected_valid = False\<rparr>,
     \<lparr>sc_name = ''malformed: a member of the wrong type'',
       sc_pre_sign = [], sc_signer = Kernel,
       sc_post_sign = [(''scope_boundary'', Some ''\"data.acme\"'')],
       sc_tamper_signature = False, sc_text = Document, sc_revocation = ''not_revoked'', sc_expected_reason = ''unparseable'',
       sc_expected_valid = False\<rparr>]"

definition STANDING_ORDER :: "standing_case list" where
  "STANDING_ORDER =
    [\<lparr>sc_name = ''order: expired AND revoked'',
       sc_pre_sign = [(''expires_at'', Some ''\"2020-01-01T00:00:00Z\"'')], sc_signer = Kernel,
       sc_post_sign = [],
       sc_tamper_signature = False, sc_text = Document, sc_revocation = ''revoked'', sc_expected_reason = ''expired'',
       sc_expected_valid = False\<rparr>,
     \<lparr>sc_name = ''order: expired AND revocation unavailable'',
       sc_pre_sign = [(''expires_at'', Some ''\"2020-01-01T00:00:00Z\"'')], sc_signer = Kernel,
       sc_post_sign = [],
       sc_tamper_signature = False, sc_text = Document, sc_revocation = ''unavailable'', sc_expected_reason = ''expired'',
       sc_expected_valid = False\<rparr>,
     \<lparr>sc_name = ''order: forged AND expired'',
       sc_pre_sign = [(''expires_at'', Some ''\"2020-01-01T00:00:00Z\"'')], sc_signer = Kernel,
       sc_post_sign = [(''capability_set'', Some ''[\"read\", \"write\"]'')],
       sc_tamper_signature = False, sc_text = Document, sc_revocation = ''not_revoked'', sc_expected_reason = ''inauthentic'',
       sc_expected_valid = False\<rparr>,
     \<lparr>sc_name = ''order: unsupported sig_version AND malformed trust_domain'',
       sc_pre_sign = [(''sig_version'', Some ''2''), (''trust_domain'', Some ''\"not a domain\"'')], sc_signer = Kernel,
       sc_post_sign = [],
       sc_tamper_signature = False, sc_text = Document, sc_revocation = ''not_revoked'', sc_expected_reason = ''unsupported_sig_version'',
       sc_expected_valid = False\<rparr>]"

definition STANDING_SPELLING :: "standing_case list" where
  "STANDING_SPELLING =
    [\<lparr>sc_name = ''vaid_id rewritten to uppercase after signing'',
       sc_pre_sign = [], sc_signer = Kernel,
       sc_post_sign = [(''vaid_id'', Some ''\"C0000000-0000-4000-8000-000000000001\"'')],
       sc_tamper_signature = False, sc_text = Document, sc_revocation = ''not_revoked'', sc_expected_reason = ''inauthentic'',
       sc_expected_valid = False\<rparr>,
     \<lparr>sc_name = ''vaid_id rewritten to braced form after signing'',
       sc_pre_sign = [], sc_signer = Kernel,
       sc_post_sign = [(''vaid_id'', Some ''\"{c0000000-0000-4000-8000-000000000001}\"'')],
       sc_tamper_signature = False, sc_text = Document, sc_revocation = ''not_revoked'', sc_expected_reason = ''inauthentic'',
       sc_expected_valid = False\<rparr>,
     \<lparr>sc_name = ''vaid_id rewritten to urn:uuid: form after signing'',
       sc_pre_sign = [], sc_signer = Kernel,
       sc_post_sign = [(''vaid_id'', Some ''\"urn:uuid:c0000000-0000-4000-8000-000000000001\"'')],
       sc_tamper_signature = False, sc_text = Document, sc_revocation = ''not_revoked'', sc_expected_reason = ''inauthentic'',
       sc_expected_valid = False\<rparr>,
     \<lparr>sc_name = ''vaid_id rewritten to hyphenless form after signing'',
       sc_pre_sign = [], sc_signer = Kernel,
       sc_post_sign = [(''vaid_id'', Some ''\"c0000000000040008000000000000001\"'')],
       sc_tamper_signature = False, sc_text = Document, sc_revocation = ''not_revoked'', sc_expected_reason = ''inauthentic'',
       sc_expected_valid = False\<rparr>,
     \<lparr>sc_name = ''parent_vaid deleted after signing'',
       sc_pre_sign = [], sc_signer = Kernel,
       sc_post_sign = [(''parent_vaid'', None)],
       sc_tamper_signature = False, sc_text = Document, sc_revocation = ''not_revoked'', sc_expected_reason = ''inauthentic'',
       sc_expected_valid = False\<rparr>,
     \<lparr>sc_name = ''control: numeric-offset expiry, signed as presented'',
       sc_pre_sign = [(''expires_at'', Some ''\"2999-01-01T00:00:00+00:00\"'')], sc_signer = Kernel,
       sc_post_sign = [],
       sc_tamper_signature = False, sc_text = Document, sc_revocation = ''not_revoked'', sc_expected_reason = ''valid'',
       sc_expected_valid = True\<rparr>,
     \<lparr>sc_name = ''control: sub-second expiry, signed as presented'',
       sc_pre_sign = [(''expires_at'', Some ''\"2999-01-01T00:00:00.000Z\"'')], sc_signer = Kernel,
       sc_post_sign = [],
       sc_tamper_signature = False, sc_text = Document, sc_revocation = ''not_revoked'', sc_expected_reason = ''valid'',
       sc_expected_valid = True\<rparr>,
     \<lparr>sc_name = ''unreadable expiry, signed as presented '' @ [CHR 0xE2, CHR 0x80, CHR 0x94] @ '' fails CLOSED'',
       sc_pre_sign = [(''expires_at'', Some ''\"not-a-timestamp\"'')], sc_signer = Kernel,
       sc_post_sign = [],
       sc_tamper_signature = False, sc_text = Document, sc_revocation = ''not_revoked'', sc_expected_reason = ''expired'',
       sc_expected_valid = False\<rparr>]"

definition STANDING_TEXT :: "standing_case list" where
  "STANDING_TEXT =
    [\<lparr>sc_name = ''duplicate member name'',
       sc_pre_sign = [], sc_signer = Kernel,
       sc_post_sign = [],
       sc_tamper_signature = False, sc_text = DuplicateLeadingTenant, sc_revocation = ''not_revoked'', sc_expected_reason = ''unparseable'',
       sc_expected_valid = False\<rparr>,
     \<lparr>sc_name = ''duplicate member name, nested inside an extension'',
       sc_pre_sign = [], sc_signer = Kernel,
       sc_post_sign = [],
       sc_tamper_signature = False, sc_text = NestedDuplicateExtension, sc_revocation = ''not_revoked'', sc_expected_reason = ''unparseable'',
       sc_expected_valid = False\<rparr>,
     \<lparr>sc_name = ''the previous wire form: a v3 document with a bare-string scope_boundary'',
       sc_pre_sign = [], sc_signer = Kernel,
       sc_post_sign = [],
       sc_tamper_signature = False, sc_text = Literal V3_DOCUMENT, sc_revocation = ''not_revoked'', sc_expected_reason = ''unparseable'',
       sc_expected_valid = False\<rparr>]"

definition STANDING_SCOPE_KIND :: "standing_case list" where
  "STANDING_SCOPE_KIND =
    [\<lparr>sc_name = ''unknown scope kind: authentic and unexpired, boundary kind not recognised'',
       sc_pre_sign = [(''scope_boundary'', Some ''[{\"kind\": \"amount\", \"value\": 100}]'')], sc_signer = Kernel,
       sc_post_sign = [],
       sc_tamper_signature = False, sc_text = Document, sc_revocation = ''not_revoked'', sc_expected_reason = ''unknown_scope_kind'',
       sc_expected_valid = False\<rparr>,
     \<lparr>sc_name = ''order: expired AND an unknown scope kind'',
       sc_pre_sign = [(''scope_boundary'', Some ''[{\"kind\": \"amount\", \"value\": 100}]''), (''expires_at'', Some ''\"2020-01-01T00:00:00Z\"'')], sc_signer = Kernel,
       sc_post_sign = [],
       sc_tamper_signature = False, sc_text = Document, sc_revocation = ''not_revoked'', sc_expected_reason = ''expired'',
       sc_expected_valid = False\<rparr>]"

definition STANDING_CASES :: "standing_case list" where
  "STANDING_CASES = STANDING_VERDICTS @ STANDING_UNPARSEABLE @ STANDING_ORDER @ STANDING_SPELLING @ STANDING_TEXT @ STANDING_SCOPE_KIND"

definition ATTENUATION_CASES :: "attenuation_case list" where
  "ATTENUATION_CASES =
    [\<lparr>ac_name = ''control: child within parent'',
       ac_parent_scope = ''[{\"kind\": \"prefix\", \"value\": \"data.acme\"}]'',
       ac_child_scope = ''[{\"kind\": \"prefix\", \"value\": \"data.acme.reports\"}]'',
       ac_expected_valid = True, ac_expected_reason = ''attenuated''\<rparr>,
     \<lparr>ac_name = ''escalation: child names a resource outside the parent'',
       ac_parent_scope = ''[{\"kind\": \"prefix\", \"value\": \"data.acme\"}]'',
       ac_child_scope = ''[{\"kind\": \"prefix\", \"value\": \"data.other\"}]'',
       ac_expected_valid = False, ac_expected_reason = ''scope_escalation''\<rparr>,
     \<lparr>ac_name = ''escalation: empty child scope under a restricted parent'',
       ac_parent_scope = ''[{\"kind\": \"prefix\", \"value\": \"data.acme\"}]'',
       ac_child_scope = ''[]'',
       ac_expected_valid = False, ac_expected_reason = ''scope_escalation''\<rparr>,
     \<lparr>ac_name = ''control: empty child under an unrestricted parent'',
       ac_parent_scope = ''[]'',
       ac_child_scope = ''[]'',
       ac_expected_valid = True, ac_expected_reason = ''attenuated''\<rparr>,
     \<lparr>ac_name = ''escalation: sibling capture by bare prefix'',
       ac_parent_scope = ''[{\"kind\": \"prefix\", \"value\": \"data.acme\"}]'',
       ac_child_scope = ''[{\"kind\": \"prefix\", \"value\": \"data.acme-secret\"}]'',
       ac_expected_valid = False, ac_expected_reason = ''scope_escalation''\<rparr>,
     \<lparr>ac_name = ''undecidable: an unknown kind in the CHILD'',
       ac_parent_scope = ''[{\"kind\": \"prefix\", \"value\": \"data.acme\"}]'',
       ac_child_scope = ''[{\"kind\": \"amount\", \"value\": 100}]'',
       ac_expected_valid = False, ac_expected_reason = ''unknown_scope_kind''\<rparr>,
     \<lparr>ac_name = ''undecidable: an unknown kind in the PARENT'',
       ac_parent_scope = ''[{\"kind\": \"amount\", \"value\": 100}]'',
       ac_child_scope = ''[{\"kind\": \"prefix\", \"value\": \"data.acme\"}]'',
       ac_expected_valid = False, ac_expected_reason = ''unknown_scope_kind''\<rparr>]"

section \<open>A document in member order\<close>

type_synonym ordered = "(string \<times> json) list"

definition ordered_base :: "ext \<Rightarrow> ordered option" where
  "ordered_base E = those (map (\<lambda>(k, v). map_option (Pair k) (parse_value E v)) BASE_FIELDS)"

fun ordered_set :: "string \<Rightarrow> json \<Rightarrow> ordered \<Rightarrow> ordered" where
  "ordered_set key v [] = [(key, v)]"
| "ordered_set key v ((k, w) # rest) = (if k = key then (k, v) # rest else (k, w) # ordered_set key v rest)"

fun ordered_apply :: "ext \<Rightarrow> overrides \<Rightarrow> ordered \<Rightarrow> ordered option" where
  "ordered_apply E [] doc = Some doc"
| "ordered_apply E ((key, Some txt) # rest) doc =
     (case parse_value E txt of None \<Rightarrow> None | Some v \<Rightarrow> ordered_apply E rest (ordered_set key v doc))"
| "ordered_apply E ((key, None) # rest) doc = ordered_apply E rest (filter (\<lambda>(k, v). k \<noteq> key) doc)"

section \<open>Signing and cutting\<close>

definition sign_ordered :: "ext \<Rightarrow> (ordered \<Rightarrow> string) \<Rightarrow> keypair \<Rightarrow> ordered \<Rightarrow> bytes" where
  "sign_ordered E to_text key doc =
     (case vaid_from_str E (to_text doc) of
        Some parsed \<Rightarrow> ext_sign E key (canonical_vaid_signing_bytes E parsed)
      | None \<Rightarrow> [])"

text \<open>\<^verbatim>\<open>str::find\<close>, and trimming at the end.  Only ASCII white space can end these texts.\<close>

fun find_at :: "string \<Rightarrow> string \<Rightarrow> nat option" where
  "find_at needle [] = (if needle = [] then Some 0 else None)"
| "find_at needle (c # cs) = (if prefix needle (c # cs) then Some 0 else map_option Suc (find_at needle cs))"

definition trim_end_by :: "(char \<Rightarrow> bool) \<Rightarrow> string \<Rightarrow> string" where
  "trim_end_by p s = rev (dropWhile p (rev s))"

definition trim_end :: "string \<Rightarrow> string" where
  "trim_end = trim_end_by (\<lambda>c. c \<in> set [CHR 0x20, CHR 0x09, CHR 0x0A, CHR 0x0B, CHR 0x0C, CHR 0x0D])"

definition truncate_after_tenant :: "string \<Rightarrow> string option" where
  "truncate_after_tenant txt =
     do { start \<leftarrow> find_at (quoted ''tenant_id'') txt;
          i \<leftarrow> find_at [CHR 0x0A] (drop start txt);
          Some (trim_end_by ((=) (CHR '','')) (take (start + i) txt)) }"

definition nested_duplicate :: "string \<Rightarrow> string option" where
  "nested_duplicate txt =
     (let trimmed = trim_end txt in
      if ends_with_char trimmed (CHR ''}'')
      then Some (trim_end (butlast trimmed) @ str_join (CHR 0x0A)
        ['','', ''  \"x_ext\": {'', ''    \"k\": 1'', ''  },'', ''  \"x_ext2\": {\"k\": 1, \"k\": 2}'', ''}''])
      else None)"

definition shape_text :: "TextShape \<Rightarrow> string \<Rightarrow> string option" where
  "shape_text shape txt =
     (case shape of
        TruncatedAfterTenant \<Rightarrow> truncate_after_tenant txt
      | DuplicateLeadingTenant \<Rightarrow>
          (case txt of [] \<Rightarrow> None | c # rest \<Rightarrow> Some (''{\"tenant_id\": \"acme\", '' @ rest))
      | NestedDuplicateExtension \<Rightarrow> nested_duplicate txt
      | _ \<Rightarrow> Some txt)"

fun tamper_first :: "bytes \<Rightarrow> bytes" where
  "tamper_first [] = []"
| "tamper_first (b # bs) = xor b 0xFF # bs"

definition case_document_json ::
  "ext \<Rightarrow> (ordered \<Rightarrow> string) \<Rightarrow> keypair \<Rightarrow> keypair \<Rightarrow> standing_case \<Rightarrow> string option" where
  "case_document_json E to_text kernel_kp foreign_kp c =
     (case sc_text c of
        Literal txt \<Rightarrow> Some txt
      | shape \<Rightarrow>
          do { doc \<leftarrow> ordered_base E;
               doc \<leftarrow> ordered_apply E (sc_pre_sign c) doc;
               let key = (case sc_signer c of Kernel \<Rightarrow> kernel_kp | Foreign \<Rightarrow> foreign_kp);
               let signature = sign_ordered E to_text key doc;
               let signature = (if sc_tamper_signature c then tamper_first signature else signature);
               doc \<leftarrow> ordered_apply E (sc_post_sign c) (ordered_set ''kernel_signature'' (ser_bytes signature) doc);
               shape_text shape (to_text doc) })"

section \<open>The vector\<close>

definition standing_json :: "(string \<Rightarrow> string) \<Rightarrow> standing_case \<Rightarrow> string \<Rightarrow> json" where
  "standing_json prose c document_json = json_object
     [(''name'', JString (sc_name c)),
      (''why'', JString (prose (''why.'' @ sc_name c))),
      (''surface'', JString ''standing''),
      (''document_json'', JString document_json),
      (''revocation'', JString (sc_revocation c)),
      (''expected_valid'', JBool (sc_expected_valid c)),
      (''expected_reason'', JString (sc_expected_reason c))]"

definition attenuation_json :: "(string \<Rightarrow> string) \<Rightarrow> attenuation_case \<Rightarrow> json \<Rightarrow> json \<Rightarrow> json" where
  "attenuation_json prose c parent child = json_object
     [(''name'', JString (ac_name c)),
      (''why'', JString (prose (''why.'' @ ac_name c))),
      (''surface'', JString ''attenuation''),
      (''parent_scope'', parent),
      (''child_scope'', child),
      (''expected_valid'', JBool (ac_expected_valid c)),
      (''expected_reason'', JString (ac_expected_reason c))]"

definition emit_standing_case ::
  "(string \<Rightarrow> string) \<Rightarrow> ext \<Rightarrow> (ordered \<Rightarrow> string) \<Rightarrow> keypair \<Rightarrow> keypair \<Rightarrow> standing_case \<Rightarrow> json option" where
  "emit_standing_case prose E to_text kernel_kp foreign_kp c =
     map_option (standing_json prose c) (case_document_json E to_text kernel_kp foreign_kp c)"

definition emit_attenuation_case :: "(string \<Rightarrow> string) \<Rightarrow> ext \<Rightarrow> attenuation_case \<Rightarrow> json option" where
  "emit_attenuation_case prose E c =
     do { parent \<leftarrow> parse_value E (ac_parent_scope c);
          child \<leftarrow> parse_value E (ac_child_scope c);
          Some (attenuation_json prose c parent child) }"

definition emit_verdict_vector :: "(string \<Rightarrow> string) \<Rightarrow> ext \<Rightarrow> (ordered \<Rightarrow> string) \<Rightarrow> json option" where
  "emit_verdict_vector prose E to_text =
     do { kernel_kp \<leftarrow> kernel_key_pair E;
          foreign_kp \<leftarrow> unhex FOREIGN_SEED_HEX \<bind> ext_from_seed E;
          let kernel_pub = ext_public_key E kernel_kp;
          let foreign_pub = ext_public_key E foreign_kp;
          standing \<leftarrow> those (map (emit_standing_case prose E to_text kernel_kp foreign_kp) STANDING_CASES);
          attenuation \<leftarrow> those (map (emit_attenuation_case prose E) ATTENUATION_CASES);
          Some (json_object
            [(''_comment'', JString (prose ''_comment'')),
             (''rule'', prose_members prose ''rule''
                [''statement'', ''order'', ''unavailable_is_not_a_negative'', ''authenticity_is_not_standing'',
                 ''expiry_is_pinned_by_distance_not_by_a_clock'', ''presentation_is_preserved'',
                 ''e6_binds_producers_not_verifiers'', ''duplicate_member_names_are_not_a_document'',
                 ''an_unreadable_expiry_is_expired'', ''controls_are_load_bearing'']),
             (''reasons'', json_object
                [(''standing'', ser_strings [''valid'', ''unparseable'', ''unsupported_sig_version'', ''malformed_trust_domain'',
                    ''issuer_mismatch'', ''lineage_inconsistent'', ''inauthentic'', ''expired'', ''revoked'', ''indeterminate'',
                    ''unknown_scope_kind'']),
                 (''attenuation'', ser_strings [''attenuated'', ''scope_escalation'', ''unknown_scope_kind''])]),
             (''revocation_states'', ser_strings [''not_revoked'', ''revoked'', ''unavailable'']),
             (''ed25519'', json_object
                [(''kernel_private_key_seed_hex'', JString KERNEL_SEED_HEX),
                 (''kernel_public_key_hex'', JString (to_hex kernel_pub)),
                 (''kernel_key_thumbprint'', JString (kernel_key_thumbprint E kernel_pub)),
                 (''_foreign_comment'', JString (prose ''_foreign_comment'')),
                 (''foreign_private_key_seed_hex'', JString FOREIGN_SEED_HEX),
                 (''foreign_public_key_hex'', JString (to_hex foreign_pub)),
                 (''foreign_key_thumbprint'', JString (kernel_key_thumbprint E foreign_pub))]),
             (''cases'', JArray (standing @ attenuation))]) }"

end
