(* ===== verification/Vaid_Verdict_Cases.thy ===== *)
theory Vaid_Verdict_Cases
  imports Vaid_Verdict_Emitter
begin

text \<open>
  The cases of the verdict vector one by one: what the texts of the tables denote, what an override does
  to the document whose members it changes, and the verdict of the library on the text of every case.
  The cases that stay documents are compared with the verdict table of \<^verbatim>\<open>verify.rs\<close>; those that are cut,
  repeat a name or lack a member are refused as text.
\<close>

section \<open>The texts of the tables\<close>

text \<open>Every text in the tables with the value it denotes.\<close>

definition table_texts :: "(string \<times> json) list" where
  "table_texts =
    [(''4'', json_number 4),
     (''\"c0000000-0000-4000-8000-000000000001\"'', JString ''c0000000-0000-4000-8000-000000000001''),
     (''\"verdict\"'', JString ''verdict''),
     (''\"1.0.0\"'', JString ''1.0.0''),
     (''\"acme\"'', JString ''acme''),
     (''\"2020-01-01T00:00:00Z\"'', JString ''2020-01-01T00:00:00Z''),
     (''\"2999-01-01T00:00:00Z\"'', JString ''2999-01-01T00:00:00Z''),
     (''[3, 161, 7, 191, 243, 206, 16, 190, 29, 112, 221, 24, 231, 75, 192, 153, 103, 228, 214, 48, 155, 165, 13, 95, 29, 220, 134, 100, 18, 85, 49, 184]'', JArray [json_number 3, json_number 161, json_number 7, json_number 191, json_number 243, json_number 206, json_number 16, json_number 190, json_number 29, json_number 112, json_number 221, json_number 24, json_number 231, json_number 75, json_number 192, json_number 153, json_number 103, json_number 228, json_number 214, json_number 48, json_number 155, json_number 165, json_number 13, json_number 95, json_number 29, json_number 220, json_number 134, json_number 100, json_number 18, json_number 85, json_number 49, json_number 184]),
     (''[]'', JArray []),
     (''null'', Null),
     (''[{\"kind\": \"prefix\", \"value\": \"data.acme\"}]'', JArray [JObject [(''kind'', JString ''prefix''), (''value'', JString ''data.acme'')]]),
     (''\"8f89c127be8d6e98aa288873e5b6413b9b84e6b92b1a8b99a4627f91390f16af\"'', JString ''8f89c127be8d6e98aa288873e5b6413b9b84e6b92b1a8b99a4627f91390f16af''),
     (''[\"read\"]'', JArray [JString ''read'']),
     (''\"vaid.example\"'', JString ''vaid.example''),
     (''\"urn:ietf:params:oauth:jwk-thumbprint:sha-256:1IG2tMH7J2wbJZnOf8LJzQitKf7LMvoAElsuDMVM54Y\"'', JString ''urn:ietf:params:oauth:jwk-thumbprint:sha-256:1IG2tMH7J2wbJZnOf8LJzQitKf7LMvoAElsuDMVM54Y''),
     (''[{\"kind\": \"prefix\", \"value\": \"data.acme\"}, {\"kind\": \"prefix\", \"value\": \"data.everything\"}]'', JArray [JObject [(''kind'', JString ''prefix''), (''value'', JString ''data.acme'')], JObject [(''kind'', JString ''prefix''), (''value'', JString ''data.everything'')]]),
     (''\"urn:ietf:params:oauth:jwk-thumbprint:sha-256:WeVHjIQTOLKu-P74oC-WL-MNn_sLM5CvrzuMjDFC3-s\"'', JString ''urn:ietf:params:oauth:jwk-thumbprint:sha-256:WeVHjIQTOLKu-P74oC-WL-MNn_sLM5CvrzuMjDFC3-s''),
     (''\"0000000000000000000000000000000000000000000000000000000000000000\"'', JString ''0000000000000000000000000000000000000000000000000000000000000000''),
     (''2'', json_number 2),
     (''\"not a domain\"'', JString ''not a domain''),
     (''\"data.acme\"'', JString ''data.acme''),
     (''[\"read\", \"write\"]'', JArray [JString ''read'', JString ''write'']),
     (''\"C0000000-0000-4000-8000-000000000001\"'', JString ''C0000000-0000-4000-8000-000000000001''),
     (''\"{c0000000-0000-4000-8000-000000000001}\"'', JString ''{c0000000-0000-4000-8000-000000000001}''),
     (''\"urn:uuid:c0000000-0000-4000-8000-000000000001\"'', JString ''urn:uuid:c0000000-0000-4000-8000-000000000001''),
     (''\"c0000000000040008000000000000001\"'', JString ''c0000000000040008000000000000001''),
     (''\"2999-01-01T00:00:00+00:00\"'', JString ''2999-01-01T00:00:00+00:00''),
     (''\"2999-01-01T00:00:00.000Z\"'', JString ''2999-01-01T00:00:00.000Z''),
     (''\"not-a-timestamp\"'', JString ''not-a-timestamp''),
     (''[{\"kind\": \"amount\", \"value\": 100}]'', JArray [JObject [(''kind'', JString ''amount''), (''value'', json_number 100)]]),
     (''[{\"kind\": \"prefix\", \"value\": \"data.acme.reports\"}]'', JArray [JObject [(''kind'', JString ''prefix''), (''value'', JString ''data.acme.reports'')]]),
     (''[{\"kind\": \"prefix\", \"value\": \"data.other\"}]'', JArray [JObject [(''kind'', JString ''prefix''), (''value'', JString ''data.other'')]]),
     (''[{\"kind\": \"prefix\", \"value\": \"data.acme-secret\"}]'', JArray [JObject [(''kind'', JString ''prefix''), (''value'', JString ''data.acme-secret'')]])]"

lemma table_texts_read:
  "list_all (\<lambda>(s, v). json_read s = Some v \<and> nests_within 3 v \<and> value_norm v = v) table_texts"
  unfolding table_texts_def by code_simp

lemma table_text:
  assumes "reads_plain E" and "(s, v) \<in> set table_texts"
  shows "parse_value E s = Some v"
proof -
  have "json_read s = Some v" "nests_within 3 v" "value_norm v = v"
    using table_texts_read assms(2) by (auto simp: list_all_iff)
  with reads_plainD [OF assms(1)] nests_within_mono [of 3 v 127] show ?thesis by (simp add: parse_value_def)
qed

section \<open>Documents in member order\<close>

text \<open>The base document, and what the overrides do to the members of a document.\<close>

definition verdict_base :: "uuid \<Rightarrow> vaid" where
  "verdict_base u =
     \<lparr>vd_sig_version = 4,
      vd_vaid_id = \<lparr>pu_raw = ''c0000000-0000-4000-8000-000000000001'', pu_uuid = u\<rparr>,
      vd_agent_id = \<lparr>pu_raw = ''c0000000-0000-4000-8000-000000000001'', pu_uuid = u\<rparr>,
      vd_agent_class = ''verdict'', vd_version = ''1.0.0'', vd_tenant_id = ''acme'',
      vd_issued_at = ''2020-01-01T00:00:00Z'', vd_expires_at = ''2999-01-01T00:00:00Z'',
      vd_public_key_der = [3, 161, 7, 191, 243, 206, 16, 190, 29, 112, 221, 24, 231, 75, 192, 153, 103, 228, 214, 48,
        155, 165, 13, 95, 29, 220, 134, 100, 18, 85, 49, 184],
      vd_kernel_signature = [], vd_parent_vaid = Some None,
      vd_scope_boundary = [prefix_entry ''data.acme''],
      vd_lineage_hash = ''8f89c127be8d6e98aa288873e5b6413b9b84e6b92b1a8b99a4627f91390f16af'',
      vd_capability_set = [''read''], vd_trust_domain = ''vaid.example'',
      vd_kernel_key_thumbprint = ''urn:ietf:params:oauth:jwk-thumbprint:sha-256:1IG2tMH7J2wbJZnOf8LJzQitKf7LMvoAElsuDMVM54Y'',
      vd_unknown_fields = []\<rparr>"

lemma ordered_set_members:
  "ordered_set ''sig_version'' (ser_u8 n) (vaid_members d) = vaid_members (d\<lparr>vd_sig_version := n\<rparr>)"
  "ordered_set ''vaid_id'' (JString s) (vaid_members d) = vaid_members (d\<lparr>vd_vaid_id := \<lparr>pu_raw = s, pu_uuid = u\<rparr>\<rparr>)"
  "ordered_set ''expires_at'' (JString s) (vaid_members d) = vaid_members (d\<lparr>vd_expires_at := s\<rparr>)"
  "ordered_set ''kernel_signature'' (ser_bytes sig) (vaid_members d) = vaid_members (with_kernel_signature d sig)"
  "ordered_set ''lineage_hash'' (JString s) (vaid_members d) = vaid_members (d\<lparr>vd_lineage_hash := s\<rparr>)"
  "ordered_set ''trust_domain'' (JString s) (vaid_members d) = vaid_members (d\<lparr>vd_trust_domain := s\<rparr>)"
  "ordered_set ''kernel_key_thumbprint'' (JString s) (vaid_members d) = vaid_members (d\<lparr>vd_kernel_key_thumbprint := s\<rparr>)"
  "ordered_set ''scope_boundary'' (JArray (map ser_scope_entry b)) (vaid_members d) = vaid_members (d\<lparr>vd_scope_boundary := b\<rparr>)"
  "ordered_set ''capability_set'' (ser_strings cs) (vaid_members d) = vaid_members (d\<lparr>vd_capability_set := cs\<rparr>)"
  "filter (\<lambda>(k, v). k \<noteq> ''parent_vaid'') (vaid_members d) = vaid_members (d\<lparr>vd_parent_vaid := None\<rparr>)"
  by (simp_all add: vaid_members_def with_kernel_signature_def ser_presented_def split: option.splits)

text \<open>The values of the tables as the library serializes them.\<close>

lemma table_values:
  "json_number 4 = ser_u8 4" "json_number 2 = ser_u8 2"
  "JArray [JObject [(''kind'', JString ''prefix''), (''value'', JString s)]] = JArray (map ser_scope_entry [prefix_entry s])"
  "JArray [JObject [(''kind'', JString ''prefix''), (''value'', JString s)],
     JObject [(''kind'', JString ''prefix''), (''value'', JString t)]] = JArray (map ser_scope_entry [prefix_entry s, prefix_entry t])"
  "JArray [JObject [(''kind'', JString ''amount''), (''value'', json_number 100)]] =
     JArray (map ser_scope_entry [\<lparr>se_kind = ''amount'', se_value = json_number 100\<rparr>])"
  "JArray [JString s] = ser_strings [s]" "JArray [JString s, JString t] = ser_strings [s, t]"
  by (simp_all add: json_number_def ser_u8_def ser_scope_entry_members prefix_entry_def SCOPE_KIND_PREFIX_def ser_strings_def)

lemma ordered_base_members:
  assumes "reads_plain E"
  shows "ordered_base E = Some (vaid_members (verdict_base u))"
proof -
  have "parse_value E s = Some v" if "(s, v) \<in> set table_texts" for s v using table_text [OF assms that] .
  then have t: "list_all (\<lambda>(s, v). parse_value E s = Some v) (take 16 table_texts)"
    by (auto simp: list_all_iff dest: in_set_takeD)
  show ?thesis
    using t
    by (simp add: ordered_base_def BASE_FIELDS_def table_texts_def vaid_members_def verdict_base_def ser_presented_def ser_parent_def
        json_number_def ser_u8_def ser_bytes_def ser_strings_def ser_scope_entry_members prefix_entry_def SCOPE_KIND_PREFIX_def)
qed

section \<open>What the libraries are asked\<close>

text \<open>
  JSON texts are read and written plainly; the instants of the tables are read, the fraction of a second
  and the offset included; UUIDs are read in capitals, in braces, as a URN and without hyphens; and the
  two digests frozen in the base document are the digests of the base document.
\<close>

definition VERDICT_UUID :: string where
  "VERDICT_UUID = ''c0000000-0000-4000-8000-000000000001''"

definition uuid_spellings :: "string list" where
  "uuid_spellings = [''C0000000-0000-4000-8000-000000000001'', ''{c0000000-0000-4000-8000-000000000001}'',
     ''urn:uuid:c0000000-0000-4000-8000-000000000001'', ''c0000000000040008000000000000001'']"

definition verdict_literals :: "string list" where
  "verdict_literals = [''2020-01-01T00:00:00Z'', ''2999-01-01T00:00:00Z'', ''2999-01-01T00:00:00+00:00'', ''not-a-timestamp'']"

definition verdict_laws :: "ext \<Rightarrow> (ordered \<Rightarrow> string) \<Rightarrow> bool" where
  "verdict_laws E to_text \<longleftrightarrow> emitter_laws E \<and> reads_plain E \<and> refuses E \<and> writes_plain to_text \<and>
     list_all (\<lambda>s. ext_parse_rfc3339 E s = rfc3339_instant s) verdict_literals \<and>
     ext_parse_rfc3339 E ''2999-01-01T00:00:00.000Z'' = rfc3339_instant ''2999-01-01T00:00:00Z'' \<and>
     list_all (\<lambda>s. ext_uuid_parse E s = ext_uuid_parse E VERDICT_UUID) uuid_spellings"

definition frozen_digests :: "ext \<Rightarrow> bool" where
  "frozen_digests E \<longleftrightarrow>
     (\<forall>u. ext_uuid_parse E VERDICT_UUID = Some u \<longrightarrow>
        compute_lineage_hash E None u = ''8f89c127be8d6e98aa288873e5b6413b9b84e6b92b1a8b99a4627f91390f16af'') \<and>
     (\<forall>kp. kernel_key_pair E = Some kp \<longrightarrow> kernel_key_thumbprint E (ext_public_key E kp) =
        ''urn:ietf:params:oauth:jwk-thumbprint:sha-256:1IG2tMH7J2wbJZnOf8LJzQitKf7LMvoAElsuDMVM54Y'')"

text \<open>
  The altered documents: what is presented, and what was signed.  That a signature over the one is
  none over the other, that a corrupted signature is none, and that a stranger's signature is not
  the kernel's, is the absence of a forgery, stated of the documents at hand.
\<close>

definition respelled :: "vaid \<Rightarrow> string \<Rightarrow> uuid \<Rightarrow> vaid" where
  "respelled d s u = d\<lparr>vd_vaid_id := \<lparr>pu_raw = s, pu_uuid = u\<rparr>\<rparr>"

definition altered_documents :: "uuid \<Rightarrow> (vaid \<times> vaid) list" where
  "altered_documents u =
     (let base = verdict_base u; past = base\<lparr>vd_expires_at := ''2020-01-01T00:00:00Z''\<rparr> in
      [(base\<lparr>vd_scope_boundary := [prefix_entry ''data.acme'', prefix_entry ''data.everything'']\<rparr>, base),
       (past\<lparr>vd_capability_set := [''read'', ''write'']\<rparr>, past),
       (base\<lparr>vd_parent_vaid := None\<rparr>, base)] @
      map (\<lambda>s. (respelled base s u, base)) uuid_spellings)"

definition verdict_apart :: "ext \<Rightarrow> bool" where
  "verdict_apart E \<longleftrightarrow>
     (\<forall>u kp other. ext_uuid_parse E VERDICT_UUID = Some u \<and> kernel_key_pair E = Some kp \<and>
        unhex FOREIGN_SEED_HEX \<bind> ext_from_seed E = Some other \<longrightarrow>
        (let m = canonical_vaid_signing_bytes E (verdict_base u) in
         list_all (\<lambda>(d', d). no_collision E (vaid_signing_value d') (vaid_signing_value d) \<and>
            no_forgery E kp (canonical_vaid_signing_bytes E d') (canonical_vaid_signing_bytes E d)) (altered_documents u) \<and>
         \<not> ext_verify E (ext_public_key E kp) m (tamper_first (ext_sign E kp m)) \<and>
         \<not> ext_verify E (ext_public_key E kp) m (ext_sign E other m)))"

section \<open>Reading and signing what was written\<close>

definition plain_doc :: "ext \<Rightarrow> vaid \<Rightarrow> bool" where
  "plain_doc E d \<longleftrightarrow> vaid_ok E d \<and> vd_unknown_fields d = [] \<and> plain_json (JObject (vaid_members d)) \<and>
     nests_within 4 (JObject (vaid_members d))"

text \<open>What makes the members of a document plain, member by member.\<close>

lemma member_names_plain: "list_all json_plain vaid_member_names"
  by code_simp

lemma plain_values [simp]:
  "plain_json (ser_u8 n)" "plain_json (ser_bytes bs)" "plain_json (ser_presented p) = json_plain (pu_raw p)"
  "plain_json (ser_parent q) = (\<forall>p. q = Some p \<longrightarrow> json_plain (pu_raw p))"
  "plain_json (ser_strings ss) = list_all json_plain ss"
  "nests_within m (ser_u8 n)" "nests_within (Suc m) (ser_bytes bs)" "nests_within m (ser_presented p)"
  "nests_within m (ser_parent q)" "nests_within (Suc m) (ser_strings ss)"
  by (auto simp: ser_u8_def ser_bytes_def ser_presented_def ser_parent_def ser_strings_def list_all_iff split: option.splits)

lemma plain_doc_iff:
  "plain_doc E d \<longleftrightarrow> vaid_ok E d \<and> vd_unknown_fields d = [] \<and>
     list_all json_plain [pu_raw (vd_vaid_id d), pu_raw (vd_agent_id d), vd_agent_class d, vd_version d, vd_tenant_id d,
       vd_issued_at d, vd_expires_at d, vd_lineage_hash d, vd_trust_domain d, vd_kernel_key_thumbprint d] \<and>
     list_all json_plain (vd_capability_set d) \<and>
     (\<forall>p. vd_parent_vaid d = Some (Some p) \<longrightarrow> json_plain (pu_raw p)) \<and>
     list_all (\<lambda>e. plain_json (ser_scope_entry e) \<and> nests_within 2 (ser_scope_entry e)) (vd_scope_boundary d)"
proof -
  have "vaid_ok E d \<Longrightarrow> vd_unknown_fields d = [] \<Longrightarrow> distinct (map fst (vaid_members d))"
    using distinct_all_members [of E d] by (simp add: vaid_all_members_def)
  moreover have "list_all json_plain (map fst (vaid_members d))"
    using member_names_plain by (auto simp: list_all_iff vaid_member_keys)
  ultimately show ?thesis
    by (cases "vd_parent_vaid d")
       (auto simp: plain_doc_def vaid_members_def numeral_eq_Suc list_all_iff)
qed

lemma de_vaid_map_collect:
  assumes "distinct (map fst ms)" and "fst ` set ms \<subseteq> set vaid_member_names"
  shows "de_vaid_map E (map_collect ms) = de_vaid_map E ms"
proof -
  have none: "filter (\<lambda>(k, v). k \<notin> set vaid_member_names) ms = []" "filter (\<lambda>(k, v). k \<notin> set vaid_member_names) (map_collect ms) = []"
    using assms(2) set_map_collect [of ms] by (fastforce simp: filter_empty_conv)+
  have "map_of (map_collect ms) = map_of ms" using assms(1) by (rule map_of_collect_distinct)
  then show ?thesis using assms(1) none by (simp add: de_vaid_map_def map_ok_distinct distinct_filter)
qed

lemma plain_doc_members:
  assumes "plain_doc E d"
  shows "de_vaid E (JObject (vaid_members d)) = Some d"
proof -
  have d: "vaid_all_members d = vaid_members d" "vaid_ok E d" using assms by (simp_all add: plain_doc_def vaid_all_members_def)
  have "de_vaid_map E (map_collect (vaid_members d)) = de_vaid_map E (vaid_members d)"
    using distinct_all_members [OF d(2)] d(1) by (intro de_vaid_map_collect) (auto simp: vaid_member_keys simp flip: list.set_map)
  with de_ser_vaid [OF d(2)] d(1) show ?thesis by (simp add: ser_vaid_def de_vaid_def)
qed

lemma plain_doc_read:
  assumes "verdict_laws E to_text" and "plain_doc E d"
  shows "vaid_from_str E (to_text (vaid_members d)) = Some d" "\<not> has_duplicate_member_names (to_text (vaid_members d))"
proof -
  have "nests_within 127 (JObject (vaid_members d))"
    using assms(2) nests_within_mono [of 4 _ 127] by (simp add: plain_doc_def)
  with reads_written [of E to_text "vaid_members d"] assms plain_doc_members [OF assms(2)]
  show "vaid_from_str E (to_text (vaid_members d)) = Some d"
    by (simp add: vaid_from_str_def verdict_laws_def plain_doc_def del: plain_json.simps)
  show "\<not> has_duplicate_member_names (to_text (vaid_members d))"
    using assms written_unique by (simp add: verdict_laws_def writes_plain_def plain_doc_def del: plain_json.simps)
qed

lemma sign_ordered_members:
  "verdict_laws E to_text \<Longrightarrow> plain_doc E d \<Longrightarrow> sign_ordered E to_text key (vaid_members d) = vector_signature E key d"
  by (simp add: sign_ordered_def plain_doc_read vector_signature_def)

lemma plain_doc_verdict:
  "verdict_laws E to_text \<Longrightarrow> plain_doc E d \<Longrightarrow>
     verify_vaid_standing_from_json E now pk (to_text (vaid_members d)) rv = verify_vaid_standing E now pk d rv"
  by (simp add: verify_vaid_standing_from_json_def plain_doc_read)

section \<open>Every case of the table\<close>

lemma base_fields [simp]:
  "vd_sig_version (verdict_base u) = 4"
  "vd_agent_id (verdict_base u) = \<lparr>pu_raw = VERDICT_UUID, pu_uuid = u\<rparr>"
  "vd_vaid_id (verdict_base u) = \<lparr>pu_raw = VERDICT_UUID, pu_uuid = u\<rparr>"
  "vd_expires_at (verdict_base u) = ''2999-01-01T00:00:00Z''"
  "vd_parent_vaid (verdict_base u) = Some None"
  "vd_scope_boundary (verdict_base u) = [prefix_entry ''data.acme'']"
  "vd_lineage_hash (verdict_base u) = ''8f89c127be8d6e98aa288873e5b6413b9b84e6b92b1a8b99a4627f91390f16af''"
  "vd_trust_domain (verdict_base u) = ''vaid.example''"
  "vd_kernel_key_thumbprint (verdict_base u) =
     ''urn:ietf:params:oauth:jwk-thumbprint:sha-256:1IG2tMH7J2wbJZnOf8LJzQitKf7LMvoAElsuDMVM54Y''"
  "vd_capability_set (verdict_base u) = [''read'']"
  "vd_unknown_fields (verdict_base u) = []"
  by (simp_all add: verdict_base_def VERDICT_UUID_def)

definition verdict_setting :: "ext \<Rightarrow> (ordered \<Rightarrow> string) \<Rightarrow> keypair \<Rightarrow> keypair \<Rightarrow> uuid \<Rightarrow> instant \<Rightarrow> bool" where
  "verdict_setting E to_text kp fk u now \<longleftrightarrow>
     verdict_laws E to_text \<and> frozen_digests E \<and> verdict_apart E \<and> ext_uuid_parse E VERDICT_UUID = Some u \<and>
     kernel_key_pair E = Some kp \<and> unhex FOREIGN_SEED_HEX \<bind> ext_from_seed E = Some fk \<and>
     civil_instant ''2020-01-01T00:00:00Z'' < now \<and> now \<le> civil_instant ''2999-01-01T00:00:00Z''"

definition case_signature :: "ext \<Rightarrow> keypair \<Rightarrow> keypair \<Rightarrow> standing_case \<Rightarrow> vaid \<Rightarrow> bytes" where
  "case_signature E kp fk c d =
     (let s = vector_signature E (case sc_signer c of Kernel \<Rightarrow> kp | Foreign \<Rightarrow> fk) d in
      if sc_tamper_signature c then tamper_first s else s)"

definition answered :: "ext \<Rightarrow> (ordered \<Rightarrow> string) \<Rightarrow> keypair \<Rightarrow> keypair \<Rightarrow> instant \<Rightarrow> standing_case \<Rightarrow> bool" where
  "answered E to_text kp fk now c \<longleftrightarrow>
     (\<exists>txt rv. case_document_json E to_text kp fk c = Some txt \<and> revocation_of (JString (sc_revocation c)) = Some rv \<and>
        code_of (verify_vaid_standing_from_json E now (ext_public_key E kp) txt rv) = sc_expected_reason c \<and>
        is_valid (verify_vaid_standing_from_json E now (ext_public_key E kp) txt rv) = sc_expected_valid c)"

subsection \<open>The members before and after signing\<close>

lemma plain_doc_signature [simp]: "plain_doc E (with_kernel_signature d s) = plain_doc E d"
proof -
  have "vaid_ok E (with_kernel_signature d s) = vaid_ok E d" by simp
  then show ?thesis by (simp add: plain_doc_iff with_kernel_signature_def)
qed

lemma prefix_entry_plain:
  assumes "json_plain s"
  shows "entry_ok (prefix_entry s) \<and> plain_json (ser_scope_entry (prefix_entry s)) \<and> nests_within 2 (ser_scope_entry (prefix_entry s))"
proof -
  have "list_all json_plain [''prefix'', ''kind'', ''value'']" by code_simp
  with assms show ?thesis
    by (simp add: entry_ok_def validate_scope_entry_def prefix_entry_def ser_scope_entry_members SCOPE_KIND_PREFIX_def numeral_eq_Suc)
qed

lemma base_plain: "ext_uuid_parse E VERDICT_UUID = Some u \<Longrightarrow> plain_doc E (verdict_base u)"
proof -
  have "list_all json_plain [VERDICT_UUID, ''read'', ''data.acme'']" by code_simp
  moreover have "list_all json_plain [VERDICT_UUID, ''2999-01-01T00:00:00Z'', ''vaid.example'',
      ''8f89c127be8d6e98aa288873e5b6413b9b84e6b92b1a8b99a4627f91390f16af'', ''verdict'', ''1.0.0'', ''acme'', ''2020-01-01T00:00:00Z'',
      ''urn:ietf:params:oauth:jwk-thumbprint:sha-256:1IG2tMH7J2wbJZnOf8LJzQitKf7LMvoAElsuDMVM54Y'']" by code_simp
  moreover assume "ext_uuid_parse E VERDICT_UUID = Some u"
  ultimately show ?thesis
    by (simp add: plain_doc_iff vaid_ok_def presented_ok_def verdict_base_def VERDICT_UUID_def prefix_entry_plain)
qed

lemma overrides_applied:
  assumes "reads_plain E"
  shows "ordered_apply E [] ms = Some ms"
    "ordered_apply E ((k, None) # os) ms = ordered_apply E os (filter (\<lambda>(k', v). k' \<noteq> k) ms)"
    "(s, v) \<in> set table_texts \<Longrightarrow> ordered_apply E ((k, Some s) # os) ms = ordered_apply E os (ordered_set k v ms)"
  using table_text [OF assms] by simp_all

lemma document_case:
  assumes set: "verdict_setting E to_text kp fk u now" and shape: "\<forall>t. sc_text c \<noteq> Literal t"
    and pre: "ordered_apply E (sc_pre_sign c) (vaid_members (verdict_base u)) = Some (vaid_members d)" and "plain_doc E d"
  shows "case_document_json E to_text kp fk c =
    ordered_apply E (sc_post_sign c) (vaid_members (with_kernel_signature d (case_signature E kp fk c d))) \<bind>
      (\<lambda>ms. shape_text (sc_text c) (to_text ms))"
proof -
  have laws: "verdict_laws E to_text" using set by (simp add: verdict_setting_def)
  then have reads: "reads_plain E" by (simp add: verdict_laws_def)
  from shape have "case_document_json E to_text kp fk c =
      do { doc \<leftarrow> ordered_base E; doc \<leftarrow> ordered_apply E (sc_pre_sign c) doc;
           let key = (case sc_signer c of Kernel \<Rightarrow> kp | Foreign \<Rightarrow> fk);
           let signature = sign_ordered E to_text key doc;
           let signature = (if sc_tamper_signature c then tamper_first signature else signature);
           doc \<leftarrow> ordered_apply E (sc_post_sign c) (ordered_set ''kernel_signature'' (ser_bytes signature) doc);
           shape_text (sc_text c) (to_text doc) }"
    by (cases "sc_text c") (auto simp: case_document_json_def)
  with pre show ?thesis
    by (cases "sc_tamper_signature c")
       (simp_all add: ordered_base_members [OF reads, of u] sign_ordered_members [OF laws assms(4)]
        case_signature_def ordered_set_members(4) Let_def)
qed

subsection \<open>What the libraries answer\<close>

lemma verdict_domains: "is_valid_trust_domain ''vaid.example''" "\<not> is_valid_trust_domain ''not a domain''"
  by code_simp+

lemma verdict_instants:
  "rfc3339_instant ''2020-01-01T00:00:00Z'' = Some (civil_instant ''2020-01-01T00:00:00Z'')"
  "rfc3339_instant ''2999-01-01T00:00:00Z'' = Some (civil_instant ''2999-01-01T00:00:00Z'')"
  "rfc3339_instant ''2999-01-01T00:00:00+00:00'' = Some (civil_instant ''2999-01-01T00:00:00Z'')"
  "rfc3339_instant ''not-a-timestamp'' = None"
  by code_simp+

lemma verdict_expiry:
  assumes "verdict_setting E to_text kp fk u now"
  shows "is_expired_at E (d\<lparr>vd_expires_at := ''2020-01-01T00:00:00Z''\<rparr>) now"
    "vd_expires_at d = ''2999-01-01T00:00:00Z'' \<Longrightarrow> \<not> is_expired_at E d now"
    "\<not> is_expired_at E (d\<lparr>vd_expires_at := ''2999-01-01T00:00:00+00:00''\<rparr>) now"
    "\<not> is_expired_at E (d\<lparr>vd_expires_at := ''2999-01-01T00:00:00.000Z''\<rparr>) now"
    "is_expired_at E (d\<lparr>vd_expires_at := ''not-a-timestamp''\<rparr>) now"
  using assms
  by (simp_all add: verdict_setting_def verdict_laws_def verdict_literals_def is_expired_at_def expires_at_def
      parse_rfc3339_def verdict_instants)

lemma verdict_libraries:
  assumes "verdict_setting E to_text kp fk u now"
  shows "ext_uuid_parse E VERDICT_UUID = Some u" "plain_doc E (verdict_base u)"
    "compute_lineage_hash E None u = ''8f89c127be8d6e98aa288873e5b6413b9b84e6b92b1a8b99a4627f91390f16af''"
    "kernel_key_thumbprint E (ext_public_key E kp) =
      ''urn:ietf:params:oauth:jwk-thumbprint:sha-256:1IG2tMH7J2wbJZnOf8LJzQitKf7LMvoAElsuDMVM54Y''"
    "ext_verify E (ext_public_key E kp) m (ext_sign E kp m)" "reads_plain E"
    "\<not> ext_verify E (ext_public_key E kp) (canonical_vaid_signing_bytes E (verdict_base u))
        (ext_sign E fk (canonical_vaid_signing_bytes E (verdict_base u)))"
    "\<not> ext_verify E (ext_public_key E kp) (canonical_vaid_signing_bytes E (verdict_base u))
        (tamper_first (ext_sign E kp (canonical_vaid_signing_bytes E (verdict_base u))))"
    "s \<in> set uuid_spellings \<Longrightarrow> ext_uuid_parse E s = Some u"
proof -
  note S = assms [unfolded verdict_setting_def verdict_laws_def]
  from S show u: "ext_uuid_parse E VERDICT_UUID = Some u" by simp
  then show "plain_doc E (verdict_base u)" by (rule base_plain)
  from S show "compute_lineage_hash E None u = ''8f89c127be8d6e98aa288873e5b6413b9b84e6b92b1a8b99a4627f91390f16af''"
    "kernel_key_thumbprint E (ext_public_key E kp) =
      ''urn:ietf:params:oauth:jwk-thumbprint:sha-256:1IG2tMH7J2wbJZnOf8LJzQitKf7LMvoAElsuDMVM54Y''"
    by (simp_all add: frozen_digests_def)
  from S show "ext_verify E (ext_public_key E kp) m (ext_sign E kp m)" "reads_plain E"
    by (simp_all add: emitter_laws_def ed25519_correctD)
  from S show "\<not> ext_verify E (ext_public_key E kp) (canonical_vaid_signing_bytes E (verdict_base u))
        (ext_sign E fk (canonical_vaid_signing_bytes E (verdict_base u)))"
    "\<not> ext_verify E (ext_public_key E kp) (canonical_vaid_signing_bytes E (verdict_base u))
        (tamper_first (ext_sign E kp (canonical_vaid_signing_bytes E (verdict_base u))))"
    by (simp_all add: verdict_apart_def Let_def)
  from S u show "s \<in> set uuid_spellings \<Longrightarrow> ext_uuid_parse E s = Some u" by (auto simp: list_all_iff)
qed

lemma spellings_plain: "list_all json_plain uuid_spellings" "VERDICT_UUID \<notin> set uuid_spellings"
  by code_simp+

lemma plain_doc_updates:
  assumes "plain_doc E d"
  shows "plain_doc E (d\<lparr>vd_sig_version := n\<rparr>)"
    "json_plain s \<Longrightarrow> plain_doc E (d\<lparr>vd_expires_at := s\<rparr>)"
    "json_plain s \<Longrightarrow> plain_doc E (d\<lparr>vd_lineage_hash := s\<rparr>)"
    "json_plain s \<Longrightarrow> plain_doc E (d\<lparr>vd_trust_domain := s\<rparr>)"
    "json_plain s \<Longrightarrow> plain_doc E (d\<lparr>vd_kernel_key_thumbprint := s\<rparr>)"
    "list_all json_plain cs \<Longrightarrow> plain_doc E (d\<lparr>vd_capability_set := cs\<rparr>)"
    "plain_doc E (d\<lparr>vd_parent_vaid := None\<rparr>)"
    "json_plain s \<Longrightarrow> ext_uuid_parse E s = Some u \<Longrightarrow> plain_doc E (d\<lparr>vd_vaid_id := \<lparr>pu_raw = s, pu_uuid = u\<rparr>\<rparr>)"
    "list_all (\<lambda>e. entry_ok e \<and> plain_json (ser_scope_entry e) \<and> nests_within 2 (ser_scope_entry e)) b \<Longrightarrow>
       plain_doc E (d\<lparr>vd_scope_boundary := b\<rparr>)"
  using assms by (simp_all add: plain_doc_iff vaid_ok_def presented_ok_def list_all_iff)

lemma altered_plain:
  assumes laws: "verdict_laws E to_text" and u: "ext_uuid_parse E VERDICT_UUID = Some u" and pair: "(d', d) \<in> set (altered_documents u)"
  shows "plain_doc E d' \<and> plain_doc E d"
proof -
  have "list_all json_plain [''2020-01-01T00:00:00Z'', ''read'', ''write'', ''data.acme'', ''data.everything'']"
    by code_simp
  moreover have "list_all (\<lambda>s. json_plain s \<and> ext_uuid_parse E s = Some u) uuid_spellings"
    using spellings_plain(1) laws u by (auto simp: verdict_laws_def list_all_iff)
  moreover note base_plain [OF u]
  ultimately show ?thesis
    using pair
    by (auto simp: altered_documents_def respelled_def Let_def list_all_iff plain_doc_updates prefix_entry_plain)
qed

lemma altered_differ:
  "(d', d) \<in> set (altered_documents u) \<Longrightarrow> with_kernel_signature d' [] \<noteq> with_kernel_signature d []"
  using spellings_plain(2)
  by (auto simp: altered_documents_def respelled_def Let_def with_kernel_signature_def prefix_entry_def
      dest!: arg_cong [where f = "\<lambda>d. (vd_scope_boundary d, vd_capability_set d, vd_parent_vaid d, pu_raw (vd_vaid_id d))"])

lemma altered_unverified:
  assumes set: "verdict_setting E to_text kp fk u now" and pair: "(d', d) \<in> set (altered_documents u)"
  shows "\<not> ext_verify E (ext_public_key E kp) (canonical_vaid_signing_bytes E d')
    (ext_sign E kp (canonical_vaid_signing_bytes E d))"
proof -
  have "verdict_laws E to_text" using set by (simp add: verdict_setting_def)
  from altered_plain [OF this verdict_libraries(1) [OF set] pair]
  have ok: "vaid_ok E d'" "vaid_ok E d" by (simp_all add: plain_doc_def)
  from signing_value_inj [OF ok] altered_differ [OF pair] have "vaid_signing_value d' \<noteq> vaid_signing_value d" by blast
  moreover have "no_collision E (vaid_signing_value d') (vaid_signing_value d)"
    "no_forgery E kp (canonical_vaid_signing_bytes E d') (canonical_vaid_signing_bytes E d)"
    using set pair by (auto simp: verdict_setting_def verdict_apart_def list_all_iff Let_def)
  ultimately show ?thesis
    by (auto simp: no_collision_def no_forgery_def canonical_vaid_signing_bytes_def)
qed

subsection \<open>The overrides on the record\<close>

text \<open>What each override of the table does to the document its members are those of.\<close>

definition override_table :: "uuid \<Rightarrow> ((string \<times> string option) \<times> (vaid \<Rightarrow> vaid)) list" where
  "override_table u =
    [((''sig_version'', Some ''2''), \<lambda>d. d\<lparr>vd_sig_version := 2\<rparr>),
     ((''expires_at'', Some ''\"2020-01-01T00:00:00Z\"''), \<lambda>d. d\<lparr>vd_expires_at := ''2020-01-01T00:00:00Z''\<rparr>),
     ((''expires_at'', Some ''\"2999-01-01T00:00:00+00:00\"''), \<lambda>d. d\<lparr>vd_expires_at := ''2999-01-01T00:00:00+00:00''\<rparr>),
     ((''expires_at'', Some ''\"2999-01-01T00:00:00.000Z\"''), \<lambda>d. d\<lparr>vd_expires_at := ''2999-01-01T00:00:00.000Z''\<rparr>),
     ((''expires_at'', Some ''\"not-a-timestamp\"''), \<lambda>d. d\<lparr>vd_expires_at := ''not-a-timestamp''\<rparr>),
     ((''lineage_hash'', Some ''\"0000000000000000000000000000000000000000000000000000000000000000\"''),
        \<lambda>d. d\<lparr>vd_lineage_hash := ''0000000000000000000000000000000000000000000000000000000000000000''\<rparr>),
     ((''trust_domain'', Some ''\"not a domain\"''), \<lambda>d. d\<lparr>vd_trust_domain := ''not a domain''\<rparr>),
     ((''kernel_key_thumbprint'', Some ''\"urn:ietf:params:oauth:jwk-thumbprint:sha-256:WeVHjIQTOLKu-P74oC-WL-MNn_sLM5CvrzuMjDFC3-s\"''),
        \<lambda>d. d\<lparr>vd_kernel_key_thumbprint :=
          ''urn:ietf:params:oauth:jwk-thumbprint:sha-256:WeVHjIQTOLKu-P74oC-WL-MNn_sLM5CvrzuMjDFC3-s''\<rparr>),
     ((''scope_boundary'', Some ''[{\"kind\": \"prefix\", \"value\": \"data.acme\"}, {\"kind\": \"prefix\", \"value\": \"data.everything\"}]''),
        \<lambda>d. d\<lparr>vd_scope_boundary := [prefix_entry ''data.acme'', prefix_entry ''data.everything'']\<rparr>),
     ((''scope_boundary'', Some ''[{\"kind\": \"amount\", \"value\": 100}]''),
        \<lambda>d. d\<lparr>vd_scope_boundary := [\<lparr>se_kind = ''amount'', se_value = json_number 100\<rparr>]\<rparr>),
     ((''capability_set'', Some ''[\"read\", \"write\"]''), \<lambda>d. d\<lparr>vd_capability_set := [''read'', ''write'']\<rparr>),
     ((''parent_vaid'', None), \<lambda>d. d\<lparr>vd_parent_vaid := None\<rparr>)] @
     map (\<lambda>s. ((''vaid_id'', Some (quoted s)), \<lambda>d. respelled d s u)) uuid_spellings"

definition vaid_apply :: "uuid \<Rightarrow> overrides \<Rightarrow> vaid \<Rightarrow> vaid" where
  "vaid_apply u os d = foldl (\<lambda>d q. the (map_of (override_table u) q) d) d os"

lemma signature_over:
  "(with_kernel_signature d s)\<lparr>vd_sig_version := n\<rparr> = with_kernel_signature (d\<lparr>vd_sig_version := n\<rparr>) s"
  "(with_kernel_signature d s)\<lparr>vd_vaid_id := p\<rparr> = with_kernel_signature (d\<lparr>vd_vaid_id := p\<rparr>) s"
  "(with_kernel_signature d s)\<lparr>vd_expires_at := t\<rparr> = with_kernel_signature (d\<lparr>vd_expires_at := t\<rparr>) s"
  "(with_kernel_signature d s)\<lparr>vd_lineage_hash := t\<rparr> = with_kernel_signature (d\<lparr>vd_lineage_hash := t\<rparr>) s"
  "(with_kernel_signature d s)\<lparr>vd_trust_domain := t\<rparr> = with_kernel_signature (d\<lparr>vd_trust_domain := t\<rparr>) s"
  "(with_kernel_signature d s)\<lparr>vd_kernel_key_thumbprint := t\<rparr> = with_kernel_signature (d\<lparr>vd_kernel_key_thumbprint := t\<rparr>) s"
  "(with_kernel_signature d s)\<lparr>vd_scope_boundary := b\<rparr> = with_kernel_signature (d\<lparr>vd_scope_boundary := b\<rparr>) s"
  "(with_kernel_signature d s)\<lparr>vd_capability_set := cs\<rparr> = with_kernel_signature (d\<lparr>vd_capability_set := cs\<rparr>) s"
  "(with_kernel_signature d s)\<lparr>vd_parent_vaid := q\<rparr> = with_kernel_signature (d\<lparr>vd_parent_vaid := q\<rparr>) s"
  by (simp_all add: with_kernel_signature_def)

lemma amount_entry_plain:
  "entry_ok \<lparr>se_kind = ''amount'', se_value = json_number 100\<rparr> \<and>
   plain_json (ser_scope_entry \<lparr>se_kind = ''amount'', se_value = json_number 100\<rparr>) \<and>
   nests_within 2 (ser_scope_entry \<lparr>se_kind = ''amount'', se_value = json_number 100\<rparr>)"
proof -
  have "list_all json_plain [''amount'', ''kind'', ''value'']" by code_simp
  then show ?thesis
    by (simp add: entry_ok_def validate_scope_entry_def SCOPE_KIND_PREFIX_def json_number_def ser_scope_entry_members numeral_eq_Suc)
qed

lemma override_texts_plain:
  "list_all json_plain [''2020-01-01T00:00:00Z'', ''2999-01-01T00:00:00+00:00'', ''2999-01-01T00:00:00.000Z'', ''not-a-timestamp'',
     ''0000000000000000000000000000000000000000000000000000000000000000'', ''not a domain'',
     ''urn:ietf:params:oauth:jwk-thumbprint:sha-256:WeVHjIQTOLKu-P74oC-WL-MNn_sLM5CvrzuMjDFC3-s'',
     ''data.acme'', ''data.everything'', ''read'', ''write'']"
  by code_simp

lemma override_plain:
  assumes "verdict_setting E to_text kp fk u now" and "plain_doc E d" and "(q, f) \<in> set (override_table u)"
  shows "plain_doc E (f d)"
proof -
  have "list_all (\<lambda>s. json_plain s \<and> ext_uuid_parse E s = Some u) uuid_spellings"
    using spellings_plain(1) verdict_libraries(9) [OF assms(1)] by (auto simp: list_all_iff)
  then show ?thesis
    using assms(3) override_texts_plain plain_doc_updates [OF assms(2)] prefix_entry_plain amount_entry_plain
    by (auto simp: override_table_def list_all_iff respelled_def)
qed

lemma spelling_texts: "list_all (\<lambda>s. (quoted s, JString s) \<in> set table_texts) uuid_spellings"
  by (simp add: uuid_spellings_def table_texts_def quoted_def)

lemma override_members:
  assumes "reads_plain E" and "(q, f) \<in> set (override_table u)"
  shows "ordered_apply E (q # os) (vaid_members (with_kernel_signature d s)) =
    ordered_apply E os (vaid_members (with_kernel_signature (f d) s))"
proof -
  have t: "list_all (\<lambda>(s, v). parse_value E s = Some v) table_texts"
    using table_text [OF assms(1)] by (auto simp: list_all_iff)
  have "list_all (\<lambda>s. parse_value E (quoted s) = Some (JString s)) uuid_spellings"
    using spelling_texts table_text [OF assms(1)] by (fastforce simp: list_all_iff)
  then have spellings: "s \<in> set uuid_spellings \<Longrightarrow> parse_value E (quoted s) = Some (JString s)" for s by (simp add: list_all_iff)
  note texts = t [unfolded table_texts_def list.pred_inject prod.case]
  have "list_all (\<lambda>(q, f). ordered_apply E (q # os) (vaid_members (with_kernel_signature d s)) =
      ordered_apply E os (vaid_members (with_kernel_signature (f d) s))) (override_table u)"
    unfolding override_table_def list_all_append list.pred_inject prod.case
    by (simp add: texts list_all_iff spellings respelled_def table_values ordered_set_members(1,3-10)
        ordered_set_members(2) [where u = u] ordered_set_members(8) [where b = "[e]" for e, unfolded list.map]
        ordered_set_members(8) [where b = "[e, e']" for e e', unfolded list.map] signature_over)
  with assms(2) show ?thesis by (auto simp: list_all_iff)
qed

definition overrides_known :: "overrides \<Rightarrow> bool" where
  "overrides_known os \<longleftrightarrow> list_all (\<lambda>q. q \<in> fst ` set (override_table 0)) os"

lemma override_keys: "fst ` set (override_table u) = fst ` set (override_table 0)"
proof -
  have "map fst (override_table u) = map fst (override_table 0)"
    by (simp only: override_table_def map_append list.map fst_conv map_map comp_def)
  then show ?thesis by (metis list.set_map)
qed

lemma apply_members:
  assumes set: "verdict_setting E to_text kp fk u now" and "overrides_known os" and "plain_doc E d"
  shows "plain_doc E (vaid_apply u os d) \<and>
    ordered_apply E os (vaid_members (with_kernel_signature d s)) = Some (vaid_members (with_kernel_signature (vaid_apply u os d) s))"
  using assms(2,3)
proof (induction os arbitrary: d)
  case Nil
  then show ?case by (simp add: vaid_apply_def)
next
  case (Cons q os)
  have "q \<in> fst ` set (override_table u)" "overrides_known os"
    using Cons.prems(1) by (simp_all add: overrides_known_def override_keys [of u])
  then obtain f where f: "map_of (override_table u) q = Some f"
    by (metis map_of_eq_None_iff not_Some_eq)
  then have "(q, f) \<in> set (override_table u)" by (rule map_of_SomeD)
  with f Cons.IH [OF \<open>overrides_known os\<close> override_plain [OF set Cons.prems(2)]] override_members [OF verdict_libraries(6) [OF set]]
  show ?case by (simp add: vaid_apply_def)
qed

lemma unsigned_base: "with_kernel_signature (verdict_base u) [] = verdict_base u"
  by (simp add: with_kernel_signature_def verdict_base_def)

lemma signed_twice [simp]: "with_kernel_signature (with_kernel_signature d s) t = with_kernel_signature d t"
  by (simp add: with_kernel_signature_def)

text \<open>The document of a case before it is signed, and as it is presented.\<close>

definition case_signed :: "uuid \<Rightarrow> standing_case \<Rightarrow> vaid" where
  "case_signed u c = vaid_apply u (sc_pre_sign c) (verdict_base u)"

definition case_presented :: "uuid \<Rightarrow> standing_case \<Rightarrow> vaid" where
  "case_presented u c = vaid_apply u (sc_post_sign c) (case_signed u c)"

lemma case_document:
  assumes set: "verdict_setting E to_text kp fk u now" and shape: "\<forall>t. sc_text c \<noteq> Literal t"
    and known: "overrides_known (sc_pre_sign c)" and post: "overrides_known (sc_post_sign c)"
  shows "plain_doc E (case_signed u c)" "plain_doc E (case_presented u c)"
    "case_document_json E to_text kp fk c = shape_text (sc_text c)
      (to_text (vaid_members (with_kernel_signature (case_presented u c) (case_signature E kp fk c (case_signed u c)))))"
proof -
  note pre = apply_members [OF set known verdict_libraries(2) [OF set], of "[]", unfolded unsigned_base, folded case_signed_def]
  then show d: "plain_doc E (case_signed u c)" by blast
  note post = apply_members [OF set post d, folded case_presented_def]
  then show "plain_doc E (case_presented u c)" by blast
  let ?d = "with_kernel_signature (case_signed u c) []"
  have "vaid_ok E (case_signed u c)" using d by (simp add: plain_doc_def)
  then have "case_signature E kp fk c ?d = case_signature E kp fk c (case_signed u c)"
    by (simp add: case_signature_def vector_signature_def signing_bytes_unsigned)
  with document_case [OF set shape, of ?d] pre d post
  show "case_document_json E to_text kp fk c = shape_text (sc_text c)
      (to_text (vaid_members (with_kernel_signature (case_presented u c) (case_signature E kp fk c (case_signed u c)))))"
    by simp
qed

lemma document_answered:
  assumes set: "verdict_setting E to_text kp fk u now" and shape: "sc_text c = Document"
    and known: "overrides_known (sc_pre_sign c)" "overrides_known (sc_post_sign c)"
    and rv: "revocation_of (JString (sc_revocation c)) = Some rv"
    and verdict: "verify_vaid_standing E now (ext_public_key E kp)
      (with_kernel_signature (case_presented u c) (case_signature E kp fk c (case_signed u c))) rv = v"
      "code_of v = sc_expected_reason c" "is_valid v = sc_expected_valid c"
  shows "answered E to_text kp fk now c"
proof -
  from case_document [OF set _ known] shape have doc: "plain_doc E (case_presented u c)"
    "case_document_json E to_text kp fk c =
      Some (to_text (vaid_members (with_kernel_signature (case_presented u c) (case_signature E kp fk c (case_signed u c)))))"
    by (simp_all add: shape_text_def)
  have "verdict_laws E to_text" using set by (simp add: verdict_setting_def)
  with doc plain_doc_verdict [of E to_text "with_kernel_signature (case_presented u c) (case_signature E kp fk c (case_signed u c))"] rv verdict
  show ?thesis by (simp add: answered_def)
qed

subsection \<open>The cases that are documents\<close>

lemma respelled_fields [simp]:
  "vd_sig_version (respelled d s u) = vd_sig_version d" "vd_agent_id (respelled d s u) = vd_agent_id d"
  "vd_parent_vaid (respelled d s u) = vd_parent_vaid d" "vd_lineage_hash (respelled d s u) = vd_lineage_hash d"
  "vd_trust_domain (respelled d s u) = vd_trust_domain d"
  "vd_kernel_key_thumbprint (respelled d s u) = vd_kernel_key_thumbprint d"
  by (simp_all add: respelled_def)

definition is_document :: "standing_case \<Rightarrow> bool" where
  "is_document c \<longleftrightarrow> sc_text c = Document \<and> overrides_known (sc_pre_sign c) \<and> overrides_known (sc_post_sign c)"

definition signed_verdict :: "ext \<Rightarrow> instant \<Rightarrow> bytes \<Rightarrow> vaid \<Rightarrow> bytes \<Rightarrow> RevocationStatus \<Rightarrow> VaidVerdict" where
  "signed_verdict E now pk d s rv =
     (if vd_sig_version d \<noteq> 4 then UnsupportedSigVersion
      else if \<not> is_valid_trust_domain (vd_trust_domain d) then MalformedTrustDomain
      else if vd_kernel_key_thumbprint d \<noteq> kernel_key_thumbprint E pk then IssuerMismatch
      else if compute_lineage_hash E (parent_vaid d) (agent_id d) \<noteq> vd_lineage_hash d then LineageInconsistent
      else if \<not> ext_verify E pk (canonical_vaid_signing_bytes E d) s then VaidVerdict.Inauthentic
      else if is_expired_at E d now then VaidVerdict.Expired
      else if \<not> boundary_is_evaluable (vd_scope_boundary d) then VaidVerdict.UnknownScopeKind
      else (case rv of NotRevoked \<Rightarrow> Valid | RevocationStatus.Revoked \<Rightarrow> VaidVerdict.Revoked | Unavailable \<Rightarrow> Indeterminate))"

lemma verdict_of_signed:
  assumes "plain_doc E d"
  shows "verify_vaid_standing E now pk (with_kernel_signature d s) rv = signed_verdict E now pk d s rv"
proof -
  have "vaid_ok E d" using assms by (simp add: plain_doc_def)
  from signing_bytes_unsigned [OF this, of s] show ?thesis
    by (simp add: verify_vaid_standing_def verify_vaid_authenticity_graded_def verify_lineage_hash_def signed_verdict_def
        with_kernel_signature_def is_expired_at_def expires_at_def parent_vaid_def agent_id_def VAID_SIG_VERSION_V4_def)
qed

definition document_verdict_ok :: "ext \<Rightarrow> keypair \<Rightarrow> keypair \<Rightarrow> uuid \<Rightarrow> instant \<Rightarrow> standing_case \<Rightarrow> bool" where
  "document_verdict_ok E kp fk u now c \<longleftrightarrow>
     (case revocation_of (JString (sc_revocation c)) of None \<Rightarrow> False | Some rv \<Rightarrow>
       (let v = signed_verdict E now (ext_public_key E kp) (case_presented u c) (case_signature E kp fk c (case_signed u c)) rv
        in code_of v = sc_expected_reason c \<and> is_valid v = sc_expected_valid c))"

lemma is_document_answered:
  assumes set: "verdict_setting E to_text kp fk u now" and "is_document c" and "document_verdict_ok E kp fk u now c"
  shows "answered E to_text kp fk now c"
proof -
  have "plain_doc E (case_presented u c)"
    using assms(2) case_document(2) [OF set, of c] by (simp add: is_document_def)
  from verdict_of_signed [OF this] show ?thesis
    using assms(2,3) document_answered [OF set, of c]
    by (auto simp: is_document_def document_verdict_ok_def Let_def split: option.splits)
qed

text \<open>All but the case whose \<^verbatim>\<open>sig_version\<close> is removed and the two that are not documents any more.\<close>

definition document_cases :: "standing_case list" where
  "document_cases = take 10 STANDING_VERDICTS @ drop 11 STANDING_VERDICTS @ STANDING_ORDER @ STANDING_SPELLING @ STANDING_SCOPE_KIND"

lemma known_overrides: "list_all is_document document_cases"
  by code_simp

lemma revocations [simp]:
  "revocation_of (JString ''not_revoked'') = Some NotRevoked" "revocation_of (JString ''revoked'') = Some RevocationStatus.Revoked"
  "revocation_of (JString ''unavailable'') = Some Unavailable"
  by (simp_all add: revocation_of_def)

lemma base_boundaries:
  "boundary_is_evaluable [prefix_entry s]" "boundary_is_evaluable [prefix_entry s, prefix_entry t]"
  "\<not> boundary_is_evaluable [\<lparr>se_kind = ''amount'', se_value = v\<rparr>]"
  by (simp_all add: boundary_is_evaluable_def entry_is_evaluable_def entry_contains_def prefix_entry_def SCOPE_KIND_PREFIX_def)

lemma verdict_documents:
  assumes set: "verdict_setting E to_text kp fk u now"
  shows "list_all (document_verdict_ok E kp fk u now) document_cases"
proof -
  have "list_all (\<lambda>(d', d). \<not> ext_verify E (ext_public_key E kp) (canonical_vaid_signing_bytes E d')
      (ext_sign E kp (canonical_vaid_signing_bytes E d))) (altered_documents u)"
    using altered_unverified [OF set] by (auto simp: list_all_iff)
  note altered = this [unfolded altered_documents_def Let_def list.pred_inject list_all_append prod.case uuid_spellings_def list.map append.simps]
  note lib = verdict_libraries(3-8) [OF set] verdict_domains verdict_expiry [OF set]
  show ?thesis
    by (simp add: document_cases_def STANDING_VERDICTS_def STANDING_ORDER_def STANDING_SPELLING_def STANDING_SCOPE_KIND_def
      quoted_def uuid_spellings_def document_verdict_ok_def case_presented_def case_signed_def vaid_apply_def override_table_def
      case_signature_def vector_signature_def signed_verdict_def agent_id_def parent_vaid_def Let_def lib altered base_boundaries)
qed

subsection \<open>Members taken out and replaced\<close>

lemma written_text:
  assumes "verdict_laws E to_text" and "plain_json (JObject ms)" and "nests_within 4 (JObject ms)"
  shows "vaid_from_str E (to_text ms) = de_vaid_map E ms" "\<not> has_duplicate_member_names (to_text ms)"
    "to_text ms = pretty 0 (JObject ms)"
proof -
  have "reads_plain E" "writes_plain to_text" using assms(1) by (simp_all add: verdict_laws_def)
  moreover from assms(3) have "nests_within 127 (JObject ms)" using nests_within_mono [of 4 _ 127] by simp
  ultimately show "vaid_from_str E (to_text ms) = de_vaid_map E ms"
    using reads_written assms(2) by (simp add: vaid_from_str_def de_vaid_def del: plain_json.simps)
  show t: "to_text ms = pretty 0 (JObject ms)"
    using \<open>writes_plain to_text\<close> assms(2) by (simp add: writes_plain_def del: plain_json.simps)
  show "\<not> has_duplicate_member_names (to_text ms)" unfolding t using assms(2) by (rule written_unique)
qed

lemma ordered_set_keys: "k \<in> fst ` set ms \<Longrightarrow> map fst (ordered_set k v ms) = map fst ms"
  by (induction k v ms rule: ordered_set.induct) auto

lemma ordered_set_values: "set (ordered_set k v ms) \<subseteq> insert (k, v) (set ms)"
  by (induction k v ms rule: ordered_set.induct) auto

lemma map_of_ordered_set: "map_of (ordered_set k v ms) k = Some v"
  by (induction ms) auto

lemma members_filtered:
  assumes "plain_json (JObject ms) \<and> nests_within n (JObject ms)"
  shows "plain_json (JObject (filter P ms)) \<and> nests_within n (JObject (filter P ms))"
  using assms by (cases n) (auto simp: distinct_map_filter)

lemma members_replaced:
  assumes "plain_json (JObject ms) \<and> nests_within (Suc n) (JObject ms)" and "k \<in> fst ` set ms" and "plain_json v" and "nests_within n v"
  shows "plain_json (JObject (ordered_set k v ms)) \<and> nests_within (Suc n) (JObject (ordered_set k v ms))"
proof -
  have "json_plain k" using assms(1,2) by auto
  then show ?thesis using assms ordered_set_keys [OF assms(2), of v] ordered_set_values [of k v ms] by fastforce
qed

lemma plain_doc_json:
  assumes "plain_doc E d"
  shows "plain_json (JObject (vaid_members d)) \<and> nests_within 4 (JObject (vaid_members d))"
    "de_vaid_map E (vaid_members d) = Some d" "distinct (map fst (vaid_members d))"
  using assms plain_doc_members [OF assms] by (auto simp: plain_doc_def de_vaid_def)

text \<open>A document whose version is taken out is one of version 0.\<close>

lemma de_vaid_versionless:
  assumes "distinct (map fst ms)" and "de_vaid_map E ms = Some d"
  shows "de_vaid_map E (filter (\<lambda>(k, v). k \<noteq> ''sig_version'') ms) = Some (d\<lparr>vd_sig_version := 0\<rparr>)"
proof -
  let ?ms = "filter (\<lambda>(k, v). k \<noteq> ''sig_version'') ms"
  have m: "map_of ?ms k = (if k = ''sig_version'' then None else map_of ms k)" for k
    by (simp add: map_of_filter_keys)
  have "distinct (map fst ?ms)" using assms(1) by (simp add: distinct_map_filter)
  moreover have "filter (\<lambda>(k, v). k \<notin> set vaid_member_names) ?ms = filter (\<lambda>(k, v). k \<notin> set vaid_member_names) ms"
    unfolding filter_filter by (rule filter_cong) (auto simp: vaid_member_names_def)
  moreover note f = de_vaid_map_Some [OF assms(2)]
  ultimately have "\<exists>d'. de_vaid_map E ?ms = Some d' \<and> d' = d\<lparr>vd_sig_version := 0\<rparr>"
    using f(2,3,9,10,12,14) by (auto simp: de_vaid_map_def m distinct_filter f(4-8,11,13,15,16) f(17) [symmetric])
  then show ?thesis by blast
qed

lemma no_document:
  assumes "vaid_from_str E t = None \<or> has_duplicate_member_names t"
  shows "verify_vaid_standing_from_json E now pk t rv = Unparseable"
  using assms by (auto simp: verify_vaid_standing_from_json_def)

lemma versionless_answered:
  assumes set: "verdict_setting E to_text kp fk u now"
  shows "answered E to_text kp fk now (STANDING_VERDICTS ! 10)"
proof -
  have laws: "verdict_laws E to_text" "reads_plain E" using set verdict_libraries(6) by (auto simp: verdict_setting_def)
  let ?f = "filter (\<lambda>(k, v). k \<noteq> ''sig_version'')"
  have c: "STANDING_VERDICTS ! 10 =
     \<lparr>sc_name = ''sig_version absent entirely'', sc_pre_sign = [(''sig_version'', None)], sc_signer = Kernel,
       sc_post_sign = [], sc_tamper_signature = False, sc_text = Document, sc_revocation = ''not_revoked'',
       sc_expected_reason = ''unsupported_sig_version'', sc_expected_valid = False\<rparr>"
    by (simp add: STANDING_VERDICTS_def)
  define s where "s = sign_ordered E to_text kp (?f (vaid_members (verdict_base u)))"
  let ?d = "with_kernel_signature (verdict_base u) s"
  have d: "plain_doc E ?d" using verdict_libraries(2) [OF set] by simp
  have "ordered_set ''kernel_signature'' v (?f ms) = ?f (ordered_set ''kernel_signature'' v ms)" for v ms
    by (induction ms) auto
  then have doc: "case_document_json E to_text kp fk (STANDING_VERDICTS ! 10) = Some (to_text (?f (vaid_members ?d)))"
    by (simp add: c case_document_json_def ordered_base_members [OF laws(2), of u] ordered_set_members(4) shape_text_def s_def Let_def)
  note m = plain_doc_json [OF d]
  note f = members_filtered [OF m(1), of "\<lambda>(k, v). k \<noteq> ''sig_version''"]
  have "vaid_from_str E (to_text (?f (vaid_members ?d))) = Some (?d\<lparr>vd_sig_version := 0\<rparr>)"
    "\<not> has_duplicate_member_names (to_text (?f (vaid_members ?d)))"
    using written_text(1,2) [OF laws(1) conjunct1 [OF f] conjunct2 [OF f]] de_vaid_versionless [OF m(3,2)] by simp_all
  then have "verify_vaid_standing_from_json E now pk (to_text (?f (vaid_members ?d))) rv = UnsupportedSigVersion" for pk rv
    by (simp add: verify_vaid_standing_from_json_def verify_vaid_standing_def verify_vaid_authenticity_graded_def VAID_SIG_VERSION_V4_def)
  with doc show ?thesis by (simp add: answered_def c)
qed

text \<open>The other refusals are of one document, signed as it is.\<close>

definition refusal :: "standing_case \<Rightarrow> bool" where
  "refusal c \<longleftrightarrow> sc_pre_sign c = [] \<and> sc_revocation c = ''not_revoked'' \<and> sc_expected_reason c = ''unparseable'' \<and> \<not> sc_expected_valid c"

lemma refusals: "list_all refusal (STANDING_UNPARSEABLE @ STANDING_TEXT)"
  by code_simp

lemma refusal_answered:
  assumes "refusal c" and "case_document_json E to_text kp fk c = Some t"
    and "vaid_from_str E t = None \<or> has_duplicate_member_names t"
  shows "answered E to_text kp fk now c"
  using assms(1,2) no_document [OF assms(3)] by (simp add: answered_def refusal_def)

lemma base_case:
  assumes set: "verdict_setting E to_text kp fk u now" and "refusal c" and "\<forall>t. sc_text c \<noteq> Literal t"
  obtains s where "case_document_json E to_text kp fk c =
    ordered_apply E (sc_post_sign c) (vaid_members (with_kernel_signature (verdict_base u) s)) \<bind>
      (\<lambda>ms. shape_text (sc_text c) (to_text ms))"
    "plain_doc E (with_kernel_signature (verdict_base u) s)"
  using document_case [OF set assms(3), of "verdict_base u"] assms(2) verdict_libraries(2) [OF set] by (simp add: refusal_def)

text \<open>A member that must be there is taken out, or is of another type.\<close>

lemma tenant_removed_answered:
  assumes set: "verdict_setting E to_text kp fk u now" and c: "refusal c" "sc_text c = Document" "sc_post_sign c = [(''tenant_id'', None)]"
  shows "answered E to_text kp fk now c"
proof -
  have laws: "verdict_laws E to_text" using set by (simp add: verdict_setting_def)
  obtain s where s: "case_document_json E to_text kp fk c =
      ordered_apply E (sc_post_sign c) (vaid_members (with_kernel_signature (verdict_base u) s)) \<bind> (\<lambda>ms. shape_text (sc_text c) (to_text ms))"
    "plain_doc E (with_kernel_signature (verdict_base u) s)"
    by (rule base_case [OF set c(1)]) (simp_all add: c(2))
  define ms where "ms = vaid_members (with_kernel_signature (verdict_base u) s)"
  let ?f = "filter (\<lambda>(k, v). k \<noteq> ''tenant_id'')"
  have "map_of (?f ms) ''tenant_id'' = None" by (simp add: map_of_filter_keys)
  then have "de_vaid_map E (?f ms) \<noteq> Some d" for d using de_vaid_map_Some(6) [of E "?f ms" d] by auto
  then have "de_vaid_map E (?f ms) = None" using not_Some_eq by metis
  moreover note f = members_filtered [OF plain_doc_json(1) [OF s(2)], of "\<lambda>(k, v). k \<noteq> ''tenant_id''", folded ms_def]
  ultimately have "vaid_from_str E (to_text (?f ms)) = None"
    using written_text(1) [OF laws conjunct1 [OF f] conjunct2 [OF f]] by simp
  moreover have "case_document_json E to_text kp fk c = Some (to_text (?f ms))" using s(1) c by (simp add: shape_text_def ms_def)
  ultimately show ?thesis using refusal_answered [OF c(1)] by blast
qed

lemma scope_text_answered:
  assumes set: "verdict_setting E to_text kp fk u now"
    and c: "refusal c" "sc_text c = Document" "sc_post_sign c = [(''scope_boundary'', Some ''\"data.acme\"'')]"
  shows "answered E to_text kp fk now c"
proof -
  have laws: "verdict_laws E to_text" using set by (simp add: verdict_setting_def)
  obtain s where s: "case_document_json E to_text kp fk c =
      ordered_apply E (sc_post_sign c) (vaid_members (with_kernel_signature (verdict_base u) s)) \<bind> (\<lambda>ms. shape_text (sc_text c) (to_text ms))"
    "plain_doc E (with_kernel_signature (verdict_base u) s)"
    by (rule base_case [OF set c(1)]) (simp_all add: c(2))
  define ms where "ms = vaid_members (with_kernel_signature (verdict_base u) s)"
  let ?o = "ordered_set ''scope_boundary'' (JString ''data.acme'')"
  have four: "(4 :: nat) = Suc 3" by simp
  have parsed: "parse_value E ''\"data.acme\"'' = Some (JString ''data.acme'')"
    by (rule table_text [OF verdict_libraries(6) [OF set]]) (simp add: table_texts_def)
  have "de_vaid_map E (?o ms) \<noteq> Some d" for d
    using de_vaid_map_Some(12) [of E "?o ms" d] map_of_ordered_set [of "''scope_boundary''" "JString ''data.acme''" ms]
    by (auto simp: de_vec_def)
  then have none: "de_vaid_map E (?o ms) = None" using not_Some_eq by metis
  have "''scope_boundary'' \<in> fst ` set ms" by (simp add: ms_def vaid_members_def)
  moreover have "plain_json (JString ''data.acme'')" using override_texts_plain by simp
  moreover have "plain_json (JObject ms) \<and> nests_within (Suc 3) (JObject ms)"
    using plain_doc_json(1) [OF s(2)] unfolding ms_def by (simp only: four)
  ultimately have "plain_json (JObject (?o ms)) \<and> nests_within (Suc 3) (JObject (?o ms))"
    using members_replaced [of ms 3 "''scope_boundary''" "JString ''data.acme''"] nests_within_leaf(4) by blast
  then have "plain_json (JObject (?o ms))" "nests_within 4 (JObject (?o ms))" by (simp_all only: four)
  from written_text(1) [OF laws this] none have "vaid_from_str E (to_text (?o ms)) = None" by simp
  moreover have "case_document_json E to_text kp fk c = Some (to_text (?o ms))" using s(1) c parsed by (simp add: shape_text_def ms_def)
  ultimately show ?thesis using refusal_answered [OF c(1)] by blast
qed

subsection \<open>Texts that are cut\<close>

lemma find_at_prefix:
  "find_at needle s = Some i \<Longrightarrow> find_at needle (s @ t) = Some i \<and> i + length needle \<le> length s"
proof (induction s arbitrary: i)
  case (Cons c s)
  show ?case
  proof (cases "prefix needle (c # s)")
    case True
    then have "prefix needle ((c # s) @ t)" by (rule prefix_prefix)
    with True Cons.prems show ?thesis by (auto dest: prefix_length_le)
  next
    case False
    with Cons.prems obtain j where j: "find_at needle s = Some j" "i = Suc j" by auto
    note tail = Cons.IH [OF j(1)]
    then have "length needle \<le> length (c # s)" by simp
    with False have "\<not> prefix needle ((c # s) @ t)" by (meson prefixI prefix_length_prefix)
    with False tail j show ?thesis by simp
  qed
qed (cases t, auto split: if_splits)

lemma truncate_prefix:
  assumes "truncate_after_tenant s = Some r"
  shows "truncate_after_tenant (s @ t) = Some r"
proof -
  from assms obtain i j where ij: "find_at (quoted ''tenant_id'') s = Some i" "find_at [CHR 0x0A] (drop i s) = Some j"
    "r = trim_end_by ((=) (CHR '','')) (take (i + j) s)"
    by (auto simp: truncate_after_tenant_def Option.bind_eq_Some_conv)
  note f = find_at_prefix [OF ij(1), of t] find_at_prefix [OF ij(2), of t]
  then show ?thesis using ij by (auto simp: truncate_after_tenant_def)
qed

lemma more_members_append: "more_members n (es @ es') = more_members n es @ more_members n es'"
  by (induction n es rule: more_members.induct) simp_all

text \<open>The text up to the member after the tenant.\<close>

definition leading_texts :: "(string \<times> string) list" where
  "leading_texts =
     [(''vaid_id'', ''\"c0000000-0000-4000-8000-000000000001\"''), (''agent_id'', ''\"c0000000-0000-4000-8000-000000000001\"''),
      (''agent_class'', ''\"verdict\"''), (''version'', ''\"1.0.0\"''), (''tenant_id'', ''\"acme\"'')]"

definition leading_text :: string where
  "leading_text = ''{'' @ line 1 @ quoted ''sig_version'' @ '': 4'' @ more_members 1 leading_texts @ '','' @ line 1"

lemma base_text:
  "\<exists>rest. pretty 0 (JObject (vaid_members (with_kernel_signature (verdict_base u) s))) = leading_text @ rest"
proof -
  let ?d = "with_kernel_signature (verdict_base u) s"
  have four: "pretty (Suc 0) (ser_u8 4) = ''4''" by code_simp
  have "map (map_prod id (pretty (Suc 0))) (take 6 (vaid_members ?d)) = (''sig_version'', ''4'') # leading_texts"
    by (simp add: vaid_members_def with_kernel_signature_def verdict_base_def ser_presented_def leading_texts_def four quoted_def)
  moreover obtain k t es where "map (map_prod id (pretty (Suc 0))) (drop 6 (vaid_members ?d)) = (k, t) # es"
    by (simp add: vaid_members_def with_kernel_signature_def verdict_base_def)
  ultimately have "map (map_prod id (pretty (Suc 0))) (vaid_members ?d) = (''sig_version'', ''4'') # leading_texts @ (k, t) # es"
    by (metis append_Cons append_take_drop_id map_append)
  then show ?thesis by (simp add: pretty_object_text leading_text_def more_members_append)
qed

lemma leading_cut:
  "case truncate_after_tenant leading_text of None \<Rightarrow> False | Some r \<Rightarrow> refused_text r"
  by code_simp

lemma truncated_answered:
  assumes set: "verdict_setting E to_text kp fk u now"
    and c: "refusal c" "sc_text c = TruncatedAfterTenant" "sc_post_sign c = []"
  shows "answered E to_text kp fk now c"
proof -
  have laws: "verdict_laws E to_text" "refuses E" using set by (auto simp: verdict_setting_def verdict_laws_def)
  obtain s where s: "case_document_json E to_text kp fk c =
      ordered_apply E (sc_post_sign c) (vaid_members (with_kernel_signature (verdict_base u) s)) \<bind> (\<lambda>ms. shape_text (sc_text c) (to_text ms))"
    "plain_doc E (with_kernel_signature (verdict_base u) s)"
    by (rule base_case [OF set c(1)]) (simp_all add: c(2))
  note m = plain_doc_json(1) [OF s(2)]
  obtain rest where "to_text (vaid_members (with_kernel_signature (verdict_base u) s)) = leading_text @ rest"
    using written_text(3) [OF laws(1) conjunct1 [OF m] conjunct2 [OF m]] base_text [of u s] by auto
  moreover obtain r where r: "truncate_after_tenant leading_text = Some r" "refused_text r"
    using leading_cut by (auto split: option.splits)
  ultimately have "case_document_json E to_text kp fk c = Some r"
    using s(1) c truncate_prefix by (simp add: shape_text_def)
  moreover have "vaid_from_str E r = None" using r(2) laws(2) by (simp add: refuses_def vaid_from_str_def)
  ultimately show ?thesis using refusal_answered [OF c(1)] by blast
qed

subsection \<open>Texts that repeat a name\<close>

lemma repeated_name_found:
  assumes "jvalue t s" and "repeats_name t"
  shows "has_duplicate_member_names s"
  using scanner_spec(1) [OF assms(1), of "[]" "[]"] assms(2)
  by (simp add: has_duplicate_member_names_def colon_follows_def starts_with_char_def)

lemma jmembers_indented: "jmembers ms s \<Longrightarrow> ws w \<Longrightarrow> jmembers ms (w @ s)"
proof (induction ms s rule: jvalue_jelems_jmembers.inducts(3) [where ?P1.0 = "\<lambda>v s. True" and ?P2.0 = "\<lambda>vs s. True"])
  case (jmembers_none v)
  then show ?case by (auto intro: jvalue_jelems_jmembers.jmembers_none simp: ws_def)
next
  case (jmembers_one w1 k w2 w3 v s w4)
  then show ?case using jvalue_jelems_jmembers.jmembers_one [of "w @ w1" k w2 w3 v s w4] by (simp add: ws_def)
next
  case (jmembers_more w1 k w2 w3 v s w4 m ms t)
  then show ?case using jvalue_jelems_jmembers.jmembers_more [of "w @ w1" k w2 w3 v s w4 m ms t] by (simp add: ws_def)
qed simp_all

inductive_cases jvalue_object: "jvalue (TObj ms) s"

lemma leading_duplicate:
  assumes "plain_json (JObject ms)" and "raw_body k" and "jvalue t txt" and "k \<in> fst ` set ms" and "ws w"
  shows "has_duplicate_member_names (''{'' @ quoted k @ '': '' @ txt @ '','' @ w @ tl (pretty 0 (JObject ms)))"
proof -
  have "jvalue (TObj (map (map_prod id tree_of) ms)) (pretty 0 (JObject ms))" using jvalue_pretty [OF assms(1)] by simp
  then obtain s where s: "pretty 0 (JObject ms) = ''{'' @ s @ ''}''" "jmembers (map (map_prod id tree_of) ms) s"
    by (rule jvalue_object) simp
  obtain m ms' where ms: "ms = m # ms'" using assms(4) by (cases ms) auto
  from jmembers_indented [OF s(2) assms(5)]
  have "jmembers ((k, t) # map (map_prod id tree_of) ms) (quoted k @ '': '' @ txt @ '','' @ w @ s)"
    using jmembers_more [of "[]" k "[]" "[CHR 0x20]" t "txt" "[]"] assms(2,3) by (simp add: ms)
  from jobj [OF this] have "jvalue (TObj ((k, t) # map (map_prod id tree_of) ms))
      (''{'' @ quoted k @ '': '' @ txt @ '','' @ w @ tl (pretty 0 (JObject ms)))" by (simp add: s(1))
  moreover have "repeats_name (TObj ((k, t) # map (map_prod id tree_of) ms))" using assms(4) by (auto simp: image_iff)
  ultimately show ?thesis by (rule repeated_name_found)
qed

lemma leading_answered:
  assumes set: "verdict_setting E to_text kp fk u now"
    and c: "refusal c" "sc_text c = DuplicateLeadingTenant" "sc_post_sign c = []"
  shows "answered E to_text kp fk now c"
proof -
  have laws: "verdict_laws E to_text" using set by (auto simp: verdict_setting_def)
  obtain s where s: "case_document_json E to_text kp fk c =
      ordered_apply E (sc_post_sign c) (vaid_members (with_kernel_signature (verdict_base u) s)) \<bind> (\<lambda>ms. shape_text (sc_text c) (to_text ms))"
    "plain_doc E (with_kernel_signature (verdict_base u) s)"
    by (rule base_case [OF set c(1)]) (simp_all add: c(2))
  define ms where "ms = vaid_members (with_kernel_signature (verdict_base u) s)"
  note m = plain_doc_json(1) [OF s(2), folded ms_def]
  have t: "to_text ms = pretty 0 (JObject ms)" using written_text(3) [OF laws conjunct1 [OF m] conjunct2 [OF m]] .
  obtain body where b: "pretty 0 (JObject ms) = CHR ''{'' # body" by (cases ms) (auto simp: pretty_object_text)
  have "list_all raw_body [''tenant_id'', ''acme'']" "ws '' ''" by code_simp+
  then have "jvalue (TStr ''acme'') (quoted ''acme'')" by (auto intro: jstr)
  moreover have "''tenant_id'' \<in> fst ` set ms" by (simp add: ms_def vaid_members_def)
  ultimately have "has_duplicate_member_names (''{'' @ quoted ''tenant_id'' @ '': '' @ quoted ''acme'' @ '','' @ '' '' @ tl (pretty 0 (JObject ms)))"
    using \<open>list_all raw_body _\<close> \<open>ws '' ''\<close> by (intro leading_duplicate [OF conjunct1 [OF m]]) simp_all
  then have "has_duplicate_member_names (''{\"tenant_id\": \"acme\", '' @ body)" by (simp only: b list.sel quoted_def append.simps)
  moreover have "case_document_json E to_text kp fk c = Some (''{\"tenant_id\": \"acme\", '' @ body)"
    using s(1) c t b by (simp add: shape_text_def ms_def)
  ultimately show ?thesis using refusal_answered [OF c(1)] by blast
qed

text \<open>Two members appended after the last brace is taken off.\<close>

lemma object_text_append:
  assumes "es \<noteq> []"
  shows "\<exists>p. object_text 0 es = p @ line 0 @ ''}'' \<and> object_text 0 (es @ es') = p @ more_members 1 es' @ line 0 @ ''}''"
  using assms by (cases "(0 :: nat, es)" rule: object_text.cases) (auto simp: more_members_append)

lemma nested_appended:
  assumes "object_text 0 (es @ [(k, quoted v)]) = p @ line 0 @ ''}''"
  shows "trim_end p = p"
proof -
  have "last (p @ line 0 @ ''}'') = CHR ''}''" by simp
  have "p = butlast (butlast (object_text 0 (es @ [(k, quoted v)])))" by (simp add: assms line_def butlast_append)
  moreover have "\<exists>q. object_text 0 (es @ [(k, quoted v)]) = q @ [CHR 0x22] @ line 0 @ ''}''"
    by (cases es) (auto simp: more_members_append quoted_def)
  ultimately obtain q where "p = q @ [CHR 0x22]" by (auto simp: line_def butlast_append)
  then show ?thesis by (simp add: trim_end_def trim_end_by_def)
qed

definition extension_texts :: "(string \<times> jtree \<times> string) list" where
  "extension_texts =
     [(''x_ext'', TObj [(''k'', TLit ''1'')], str_join (CHR 0x0A) [''{'', ''    \"k\": 1'', ''  }'']),
      (''x_ext2'', TObj [(''k'', TLit ''1''), (''k'', TLit ''2'')], ''{\"k\": 1, \"k\": 2}'')]"

lemma extension_tail:
  "str_join (CHR 0x0A) ['','', ''  \"x_ext\": {'', ''    \"k\": 1'', ''  },'', ''  \"x_ext2\": {\"k\": 1, \"k\": 2}'', ''}''] =
     more_members 1 (map (\<lambda>(k, t, s). (k, s)) extension_texts) @ line 0 @ ''}''"
  by code_simp

lemma extension_values: "\<forall>(k, t, s) \<in> set extension_texts. raw_body k \<and> jvalue t s"
proof -
  have r: "list_all raw_body [''k'', ''x_ext'', ''x_ext2'']" "list_all (list_all plain_char) [''1'', ''2'']" by code_simp+
  have one: "jmembers [(''k'', TLit ''1'')] (line 2 @ quoted ''k'' @ [] @ '':'' @ '' '' @ ''1'' @ line 1)"
    using r by (intro jmembers_one jlit) simp_all
  have two: "jmembers [(''k'', TLit ''1''), (''k'', TLit ''2'')]
      ([] @ quoted ''k'' @ [] @ '':'' @ '' '' @ ''1'' @ [] @ '','' @ ('' '' @ quoted ''k'' @ [] @ '':'' @ '' '' @ ''2'' @ []))"
    using r by (intro jmembers_more jmembers_one jlit) simp_all
  have eqs: "''{'' @ (line 2 @ quoted ''k'' @ [] @ '':'' @ '' '' @ ''1'' @ line 1) @ ''}'' =
      str_join (CHR 0x0A) [''{'', ''    \"k\": 1'', ''  }'']" by code_simp
  have "jvalue (TObj [(''k'', TLit ''1'')]) (str_join (CHR 0x0A) [''{'', ''    \"k\": 1'', ''  }''])"
    using jobj [OF one] by (simp only: eqs)
  moreover have "jvalue (TObj [(''k'', TLit ''1''), (''k'', TLit ''2'')]) ''{\"k\": 1, \"k\": 2}''"
    using jobj [OF two] by (simp only: quoted_def append.simps)
  ultimately show ?thesis using r(1) unfolding extension_texts_def by simp
qed

lemma nested_answered:
  assumes set: "verdict_setting E to_text kp fk u now"
    and c: "refusal c" "sc_text c = NestedDuplicateExtension" "sc_post_sign c = []"
  shows "answered E to_text kp fk now c"
proof -
  have laws: "verdict_laws E to_text" using set by (auto simp: verdict_setting_def)
  obtain s where s: "case_document_json E to_text kp fk c =
      ordered_apply E (sc_post_sign c) (vaid_members (with_kernel_signature (verdict_base u) s)) \<bind> (\<lambda>ms. shape_text (sc_text c) (to_text ms))"
    "plain_doc E (with_kernel_signature (verdict_base u) s)"
    by (rule base_case [OF set c(1)]) (simp_all add: c(2))
  define ms where "ms = vaid_members (with_kernel_signature (verdict_base u) s)"
  note m = plain_doc_json(1) [OF s(2), folded ms_def]
  define ts where "ts = map (\<lambda>(k, v). (k, tree_of v, pretty 1 v)) ms"
  let ?es = "map (\<lambda>(k, t, s). (k, s)) ts" and ?xs = "map (\<lambda>(k, t, s). (k, s)) extension_texts"
  have es: "map (map_prod id (pretty 1)) ms = ?es" by (simp add: ts_def case_prod_beta map_prod_def comp_def)
  have t: "to_text ms = object_text 0 ?es"
    using written_text(3) [OF laws conjunct1 [OF m] conjunct2 [OF m]] es by (simp add: pretty_object_text)
  have ne: "?es \<noteq> []" by (simp add: ts_def ms_def vaid_members_def)
  obtain es' k v where last: "?es = es' @ [(k, quoted v)]"
  proof
    show "?es = butlast ?es @ [(''kernel_key_thumbprint'', quoted (vd_kernel_key_thumbprint (with_kernel_signature (verdict_base u) s)))]"
      using ne by (subst append_butlast_last_id [symmetric]) (simp_all add: ts_def ms_def vaid_members_def split: option.splits)
  qed
  obtain p where p: "object_text 0 ?es = p @ line 0 @ ''}''" "object_text 0 (?es @ ?xs) = p @ more_members 1 ?xs @ line 0 @ ''}''"
    using object_text_append [OF ne] by blast
  have "trim_end (p @ line 0 @ ''}'') = p @ line 0 @ ''}''" "trim_end (p @ line 0) = p"
    using nested_appended [of es' k v p] p(1) by (simp_all add: last trim_end_def trim_end_by_def line_def)
  then have "nested_duplicate (to_text ms) = Some (p @ more_members 1 ?xs @ line 0 @ ''}'')"
    by (simp add: t p(1) nested_duplicate_def extension_texts_def quoted_def ends_with_char_def butlast_append line_def numeral_2_eq_2)
  then have "case_document_json E to_text kp fk c = Some (object_text 0 (?es @ ?xs))"
    unfolding p(2) using s(1) c by (simp add: shape_text_def ms_def)
  moreover have "has_duplicate_member_names (object_text 0 (?es @ ?xs))"
  proof (rule repeated_name_found)
    have "(k, v) \<in> set ms \<Longrightarrow> raw_body k \<and> jvalue (tree_of v) (pretty 1 v)" for k v
      using m raw_body_plain jvalue_pretty by fastforce
    then have "\<forall>(k, t, s) \<in> set (ts @ extension_texts). raw_body k \<and> jvalue t s"
      using extension_values by (auto simp: ts_def)
    from jvalue_object_text [OF this, of 0]
    show "jvalue (TObj (map (\<lambda>(k, t, s). (k, t)) (ts @ extension_texts))) (object_text 0 (?es @ ?xs))" by simp
    show "repeats_name (TObj (map (\<lambda>(k, t, s). (k, t)) (ts @ extension_texts)))" by (simp add: extension_texts_def)
  qed
  ultimately show ?thesis using refusal_answered [OF c(1)] by blast
qed

subsection \<open>Texts carried as they are\<close>

definition previous_version :: "(string \<times> json) list" where
  "previous_version =
    [(''sig_version'', json_number 3),
     (''vaid_id'', JString ''c0000000-0000-4000-8000-000000000001''),
     (''agent_id'', JString ''c0000000-0000-4000-8000-000000000001''),
     (''agent_class'', JString ''verdict''),
     (''version'', JString ''1.0.0''),
     (''tenant_id'', JString ''acme''),
     (''issued_at'', JString ''2020-01-01T00:00:00Z''),
     (''expires_at'', JString ''2999-01-01T00:00:00Z''),
     (''public_key_der'', JArray (map json_number [3, 161, 7, 191, 243, 206, 16, 190, 29, 112, 221, 24, 231, 75, 192, 153,
        103, 228, 214, 48, 155, 165, 13, 95, 29, 220, 134, 100, 18, 85, 49, 184])),
     (''kernel_signature'', JArray (map json_number [26, 148, 104, 49, 172, 135, 233, 237, 93, 130, 0, 250, 158, 68, 201,
        40, 18, 41, 238, 242, 164, 63, 179, 92, 24, 142, 34, 208, 44, 189, 33, 231, 149, 227, 150, 192, 207, 104, 57,
        162, 212, 126, 239, 197, 142, 197, 125, 10, 223, 13, 9, 66, 8, 95, 45, 152, 28, 98, 176, 169, 121, 92, 30,
        6])),
     (''parent_vaid'', Null),
     (''scope_boundary'', JArray [JString ''data.acme'']),
     (''lineage_hash'', JString ''8f89c127be8d6e98aa288873e5b6413b9b84e6b92b1a8b99a4627f91390f16af''),
     (''capability_set'', JArray [JString ''read'']),
     (''trust_domain'', JString ''vaid.example''),
     (''kernel_key_thumbprint'', JString
        ''urn:ietf:params:oauth:jwk-thumbprint:sha-256:1IG2tMH7J2wbJZnOf8LJzQitKf7LMvoAElsuDMVM54Y'')]"

lemma previous_version_text: "V3_DOCUMENT = pretty 0 (JObject previous_version)"
  by code_simp

lemma previous_version_read:
  "json_read V3_DOCUMENT = Some (JObject previous_version)" "nests_within 3 (JObject previous_version)"
  "map_of previous_version ''scope_boundary'' = Some (JArray [JString ''data.acme''])"
proof -
  have "plain_json (JObject previous_version)" by code_simp
  then show "json_read V3_DOCUMENT = Some (JObject previous_version)" unfolding previous_version_text by (rule json_read_pretty)
  show "nests_within 3 (JObject previous_version)" by code_simp
  show "map_of previous_version ''scope_boundary'' = Some (JArray [JString ''data.acme''])" by (simp add: previous_version_def)
qed

lemma literal_answered:
  assumes set: "verdict_setting E to_text kp fk u now"
    and c: "refusal c" "sc_text c = Literal t" and t: "t \<in> {''this is not a VAID'', [], ''[]'', V3_DOCUMENT}"
  shows "answered E to_text kp fk now c"
proof -
  have laws: "reads_plain E" "refuses E" using set by (auto simp: verdict_setting_def verdict_laws_def)
  note v3 = previous_version_read
  have "de_vaid_map E previous_version \<noteq> Some d" for d
    using de_vaid_map_Some(12) [of E previous_version d] v3(3) by (auto simp: de_vec_def those_eq_Some de_scope_entry_Some raw_entry_def)
  then have none: "de_vaid_map E previous_version = None" using not_Some_eq by metis
  have "nests_within 127 (JObject previous_version)" "nests_within 127 (JArray [])"
    using nests_within_mono [OF v3(2), of 127] by (simp_all add: numeral_eq_Suc)
  moreover have "json_read ''[]'' = Some (JArray [])" by code_simp
  ultimately have parsed: "ext_parse_json E V3_DOCUMENT = Some (JObject previous_version)" "ext_parse_json E ''[]'' = Some (JArray [])"
    using reads_plainD [OF laws(1)] v3(1) by blast+
  have "refused_text ''this is not a VAID''" "refused_text []" by code_simp+
  then have "ext_parse_json E ''this is not a VAID'' = None" "ext_parse_json E [] = None"
    using laws(2) by (simp_all add: refuses_def)
  then have "vaid_from_str E t = None" using t parsed none by (auto simp: vaid_from_str_def de_vaid_def)
  moreover have "case_document_json E to_text kp fk c = Some t" by (simp add: case_document_json_def c(2))
  ultimately show ?thesis using refusal_answered [OF c(1)] by blast
qed

end
