(* ===== verification/Vaid_Verdict_Vector.thy ===== *)
theory Vaid_Verdict_Vector
  imports Vaid_Verdict_Cases
begin

text \<open>
  The verdict vector that the program prints, against the check that the conformance program has for it,
  and an instance of the libraries in which the claim holds.
\<close>

section \<open>The verdict vector passes\<close>

lemma standing_answered:
  assumes set: "verdict_setting E to_text kp fk u now"
  shows "list_all (answered E to_text kp fk now) STANDING_CASES"
proof -
  have verdicts: "STANDING_VERDICTS = take 10 STANDING_VERDICTS @ STANDING_VERDICTS ! 10 # drop 11 STANDING_VERDICTS"
    by (simp add: STANDING_VERDICTS_def)
  have docs: "list_all (answered E to_text kp fk now) document_cases"
    using is_document_answered [OF set] known_overrides verdict_documents [OF set] by (simp add: list_all_iff)
  have shapes: "map (\<lambda>c. (sc_text c, sc_post_sign c)) (STANDING_UNPARSEABLE @ STANDING_TEXT) =
     [(TruncatedAfterTenant, []), (Literal ''this is not a VAID'', []), (Literal [], []), (Literal ''[]'', []),
      (Document, [(''tenant_id'', None)]), (Document, [(''scope_boundary'', Some ''\"data.acme\"'')]),
      (DuplicateLeadingTenant, []), (NestedDuplicateExtension, []), (Literal V3_DOCUMENT, [])]"
    by (simp add: STANDING_UNPARSEABLE_def STANDING_TEXT_def)
  have "answered E to_text kp fk now c" if c: "c \<in> set (STANDING_UNPARSEABLE @ STANDING_TEXT)" for c
  proof -
    have r: "refusal c" using refusals c by (simp only: list_all_iff)
    have "(sc_text c, sc_post_sign c) \<in> set (map (\<lambda>c. (sc_text c, sc_post_sign c)) (STANDING_UNPARSEABLE @ STANDING_TEXT))"
      using c by (metis (no_types, lifting) image_eqI list.set_map)
    then consider "sc_text c = TruncatedAfterTenant" "sc_post_sign c = []"
      | t where "sc_text c = Literal t" "t \<in> {''this is not a VAID'', [], ''[]'', V3_DOCUMENT}"
      | "sc_text c = Document" "sc_post_sign c = [(''tenant_id'', None)]"
      | "sc_text c = Document" "sc_post_sign c = [(''scope_boundary'', Some ''\"data.acme\"'')]"
      | "sc_text c = DuplicateLeadingTenant" "sc_post_sign c = []"
      | "sc_text c = NestedDuplicateExtension" "sc_post_sign c = []"
      unfolding shapes by (simp only: list.set insert_iff empty_iff prod.inject) blast
    then show ?thesis
      using truncated_answered [OF set r] literal_answered [OF set r] tenant_removed_answered [OF set r]
        scope_text_answered [OF set r] leading_answered [OF set r] nested_answered [OF set r] by cases blast+
  qed
  then have "list_all (answered E to_text kp fk now) (STANDING_UNPARSEABLE @ STANDING_TEXT)" unfolding list_all_iff by blast
  moreover have "list_all (answered E to_text kp fk now) STANDING_VERDICTS"
    by (subst verdicts) (use docs versionless_answered [OF set] in \<open>simp add: document_cases_def\<close>)
  ultimately show ?thesis using docs by (simp add: STANDING_CASES_def document_cases_def)
qed

lemma attenuation_answered:
  "list_all (\<lambda>c. case (map_of table_texts (ac_parent_scope c), map_of table_texts (ac_child_scope c)) of
      (Some p, Some q) \<Rightarrow> map_sum id (map_prod attenuation_code id) (attenuation_answer (attenuation_json (\<lambda>_. []) c p q)) =
        Inr (ac_expected_reason c, ac_expected_valid c)
    | _ \<Rightarrow> False) ATTENUATION_CASES"
  by code_simp

lemma standing_json_members [simp]:
  "index_member (standing_json prose c t) ''surface'' = JString ''standing''"
  "index_member (standing_json prose c t) ''document_json'' = JString t"
  "index_member (standing_json prose c t) ''revocation'' = JString (sc_revocation c)"
  "index_member (standing_json prose c t) ''expected_valid'' = JBool (sc_expected_valid c)"
  "index_member (standing_json prose c t) ''expected_reason'' = JString (sc_expected_reason c)"
  by (simp_all add: standing_json_def index_json_object)

lemma attenuation_json_members [simp]:
  "index_member (attenuation_json prose c p q) ''surface'' = JString ''attenuation''"
  "index_member (attenuation_json prose c p q) ''parent_scope'' = p"
  "index_member (attenuation_json prose c p q) ''child_scope'' = q"
  "index_member (attenuation_json prose c p q) ''expected_valid'' = JBool (ac_expected_valid c)"
  "index_member (attenuation_json prose c p q) ''expected_reason'' = JString (ac_expected_reason c)"
  by (simp_all add: attenuation_json_def index_json_object)

lemma case_fields [simp]:
  "is_standing (standing_json prose c t)" "\<not> is_standing (attenuation_json prose a p q)"
  "frozen_reason (standing_json prose c t) = sc_expected_reason c" "frozen_reason (attenuation_json prose a p q) = ac_expected_reason a"
  "expected_or_false (standing_json prose c t) = sc_expected_valid c" "expected_or_false (attenuation_json prose a p q) = ac_expected_valid a"
  by (simp_all add: is_standing_def frozen_reason_def expected_or_false_def text_at_def)

lemma standing_case_ok:
  assumes "answered E to_text kp fk (clock i) c" and "case_document_json E to_text kp fk c = Some t"
  shows "verdict_case_ok E clock (ext_public_key E kp) (i, standing_json prose c t)"
  using assms by (auto simp: answered_def verdict_case_ok_def verdict_answer_def standing_answer_def)

lemma attenuation_case_ok:
  assumes "c \<in> set ATTENUATION_CASES"
  obtains p q where "(ac_parent_scope c, p) \<in> set table_texts" "(ac_child_scope c, q) \<in> set table_texts"
    "\<forall>i. verdict_case_ok E clock pk (i, attenuation_json prose c p q)"
proof -
  from attenuation_answered assms obtain p q where
    pq: "map_of table_texts (ac_parent_scope c) = Some p" "map_of table_texts (ac_child_scope c) = Some q"
      "map_sum id (map_prod attenuation_code id) (attenuation_answer (attenuation_json (\<lambda>_. []) c p q)) =
        Inr (ac_expected_reason c, ac_expected_valid c)"
    by (fastforce simp: list_all_iff split: option.splits)
  moreover have "attenuation_answer (attenuation_json prose c p q) = attenuation_answer (attenuation_json (\<lambda>_. []) c p q)"
    by (simp add: attenuation_answer_def)
  ultimately have "\<forall>i. verdict_case_ok E clock pk (i, attenuation_json prose c p q)"
    by (simp add: verdict_case_ok_def verdict_answer_def)
  with that pq(1,2) show thesis by (meson map_of_SomeD)
qed

lemma case_totals:
  "list_ex sc_expected_valid STANDING_CASES" "list_ex (\<lambda>c. \<not> sc_expected_valid c) STANDING_CASES"
  "list_ex ac_expected_valid ATTENUATION_CASES" "list_ex (\<lambda>c. \<not> ac_expected_valid c) ATTENUATION_CASES"
  "list_ex (\<lambda>c. \<not> sc_expected_valid c \<and> sc_expected_reason c = ''expired'') STANDING_CASES"
  "list_ex (\<lambda>c. \<not> sc_expected_valid c \<and> sc_expected_reason c = ''revoked'') STANDING_CASES"
  "list_all (\<lambda>v. list_ex (\<lambda>c. sc_expected_reason c = code_of v) STANDING_CASES) verdict_ALL"
  "list_all (\<lambda>r. list_ex (\<lambda>c. ac_expected_reason c = r) ATTENUATION_CASES) [''attenuated'', ''scope_escalation'', ''unknown_scope_kind'']"
  "[''valid'', ''unparseable'', ''unsupported_sig_version'', ''malformed_trust_domain'',
                    ''issuer_mismatch'', ''lineage_inconsistent'', ''inauthentic'', ''expired'', ''revoked'', ''indeterminate'',
                    ''unknown_scope_kind''] = map code_of [Valid, Unparseable, UnsupportedSigVersion, MalformedTrustDomain,
     IssuerMismatch, LineageInconsistent, VaidVerdict.Inauthentic, VaidVerdict.Expired, VaidVerdict.Revoked, Indeterminate,
     VaidVerdict.UnknownScopeKind]"
  by code_simp+

lemma names_of_strings [simp]: "names_of (ser_strings ss) = set ss"
  by (simp add: names_of_def ser_strings_def array_or_empty_def str_or_default_def comp_def)

text \<open>A list of cases, standing first, that is answered as it says and holds what the table holds.\<close>

lemma picked:
  assumes "list_all (\<lambda>s. list_ex (Q s) cs) ss" and "list_ex P ss" and "\<And>s c. P s \<and> Q s c \<Longrightarrow> R c"
  shows "filter R cs \<noteq> []"
proof -
  from assms(2) obtain s where "s \<in> set ss" "P s" by (auto simp: list_ex_iff)
  with assms(1,3) show ?thesis by (fastforce simp: list_all_iff list_ex_iff filter_empty_conv)
qed

lemma cases_counted:
  assumes "list_all (\<lambda>s. list_ex (\<lambda>c. is_standing c \<and> frozen_reason c = sc_expected_reason s \<and> expected_or_false c = sc_expected_valid s) cs) STANDING_CASES"
    and "list_all (\<lambda>s. list_ex (\<lambda>c. \<not> is_standing c \<and> frozen_reason c = ac_expected_reason s \<and> expected_or_false c = ac_expected_valid s) cs) ATTENUATION_CASES"
  shows "filter (\<lambda>c. is_standing c \<and> expected_or_false c) cs \<noteq> []" "filter (\<lambda>c. \<not> is_standing c \<and> expected_or_false c) cs \<noteq> []"
    "filter (\<lambda>c. is_standing c \<and> \<not> expected_or_false c) cs \<noteq> []" "filter (\<lambda>c. \<not> is_standing c \<and> \<not> expected_or_false c) cs \<noteq> []"
    "\<not> card (frozen_reason ` set (filter (\<lambda>c. \<not> expected_or_false c) cs)) < 2"
    "code_of ` set verdict_ALL \<union> {''attenuated'', ''scope_escalation'', ''unknown_scope_kind''} \<subseteq> frozen_reason ` set cs"
proof -
  note standing = picked [OF assms(1)] and attenuation = picked [OF assms(2)]
  show "filter (\<lambda>c. is_standing c \<and> expected_or_false c) cs \<noteq> []" by (rule standing [OF case_totals(1)]) simp
  show "filter (\<lambda>c. \<not> is_standing c \<and> expected_or_false c) cs \<noteq> []" by (rule attenuation [OF case_totals(3)]) simp
  show "filter (\<lambda>c. is_standing c \<and> \<not> expected_or_false c) cs \<noteq> []" by (rule standing [OF case_totals(2)]) simp
  show "filter (\<lambda>c. \<not> is_standing c \<and> \<not> expected_or_false c) cs \<noteq> []" by (rule attenuation [OF case_totals(4)]) simp
  have "filter (\<lambda>c. \<not> expected_or_false c \<and> frozen_reason c = ''expired'') cs \<noteq> []" by (rule standing [OF case_totals(5)]) simp
  moreover have "filter (\<lambda>c. \<not> expected_or_false c \<and> frozen_reason c = ''revoked'') cs \<noteq> []" by (rule standing [OF case_totals(6)]) simp
  ultimately have "{''expired'', ''revoked''} \<subseteq> frozen_reason ` set (filter (\<lambda>c. \<not> expected_or_false c) cs)"
    by (auto simp: filter_empty_conv image_iff)
  then have "card {''expired'', ''revoked''} \<le> card (frozen_reason ` set (filter (\<lambda>c. \<not> expected_or_false c) cs))"
    by (intro card_mono) simp_all
  then show "\<not> card (frozen_reason ` set (filter (\<lambda>c. \<not> expected_or_false c) cs)) < 2" by simp
  have code: "code_of v \<in> frozen_reason ` set cs" for v
  proof -
    have "list_ex (\<lambda>c. sc_expected_reason c = code_of v) STANDING_CASES"
      using case_totals(7) verdict_ALL_complete(1) by (simp only: list_all_iff)
    then have "filter (\<lambda>c. frozen_reason c = code_of v) cs \<noteq> []" by (rule standing) simp
    then show ?thesis by (force simp: filter_empty_conv)
  qed
  have reason: "r \<in> frozen_reason ` set cs" if "r \<in> {''attenuated'', ''scope_escalation'', ''unknown_scope_kind''}" for r
  proof -
    have "list_ex (\<lambda>c. ac_expected_reason c = r) ATTENUATION_CASES"
      using case_totals(8) that by (simp only: list_all_iff list.set)
    then have "filter (\<lambda>c. frozen_reason c = r) cs \<noteq> []" by (rule attenuation) simp
    then show ?thesis by (force simp: filter_empty_conv)
  qed
  show "code_of ` set verdict_ALL \<union> {''attenuated'', ''scope_escalation'', ''unknown_scope_kind''} \<subseteq> frozen_reason ` set cs"
    using code reason by (intro Un_least subsetI) (elim imageE, simp only:)
qed

subsection \<open>What is printed\<close>

definition vector_cases ::
  "(string \<Rightarrow> string) \<Rightarrow> (standing_case \<Rightarrow> string) \<Rightarrow> (attenuation_case \<Rightarrow> json) \<Rightarrow> (attenuation_case \<Rightarrow> json) \<Rightarrow> json list" where
  "vector_cases prose t p q = map (\<lambda>c. standing_json prose c (t c)) STANDING_CASES @
     map (\<lambda>c. attenuation_json prose c (p c) (q c)) ATTENUATION_CASES"

lemma vector_cases_counted:
  fixes prose t p q
  defines "cs \<equiv> vector_cases prose t p q"
  shows "filter (\<lambda>c. is_standing c \<and> expected_or_false c) cs \<noteq> []" "filter (\<lambda>c. \<not> is_standing c \<and> expected_or_false c) cs \<noteq> []"
    "filter (\<lambda>c. is_standing c \<and> \<not> expected_or_false c) cs \<noteq> []" "filter (\<lambda>c. \<not> is_standing c \<and> \<not> expected_or_false c) cs \<noteq> []"
    "\<not> card (frozen_reason ` set (filter (\<lambda>c. \<not> expected_or_false c) cs)) < 2"
    "code_of ` set verdict_ALL \<union> {''attenuated'', ''scope_escalation'', ''unknown_scope_kind''} \<subseteq> frozen_reason ` set cs"
proof -
  have "list_all (\<lambda>s. list_ex (\<lambda>c. is_standing c \<and> frozen_reason c = sc_expected_reason s \<and> expected_or_false c = sc_expected_valid s) cs) STANDING_CASES"
    "list_all (\<lambda>s. list_ex (\<lambda>c. \<not> is_standing c \<and> frozen_reason c = ac_expected_reason s \<and> expected_or_false c = ac_expected_valid s) cs) ATTENUATION_CASES"
    by (force simp: list_all_iff list_ex_iff cs_def vector_cases_def)+
  note counted = cases_counted [OF this]
  show "filter (\<lambda>c. is_standing c \<and> expected_or_false c) cs \<noteq> []" "filter (\<lambda>c. \<not> is_standing c \<and> expected_or_false c) cs \<noteq> []"
    "filter (\<lambda>c. is_standing c \<and> \<not> expected_or_false c) cs \<noteq> []" "filter (\<lambda>c. \<not> is_standing c \<and> \<not> expected_or_false c) cs \<noteq> []"
    "\<not> card (frozen_reason ` set (filter (\<lambda>c. \<not> expected_or_false c) cs)) < 2"
    "code_of ` set verdict_ALL \<union> {''attenuated'', ''scope_escalation'', ''unknown_scope_kind''} \<subseteq> frozen_reason ` set cs"
    by (rule counted)+
qed

lemma standing_emitted:
  assumes set: "\<And>i. verdict_setting E to_text kp fk u (clock i)" and "c \<in> set STANDING_CASES"
  shows "\<exists>t. emit_standing_case prose E to_text kp fk c = Some (standing_json prose c t) \<and>
    (\<forall>i. verdict_case_ok E clock (ext_public_key E kp) (i, standing_json prose c t))"
proof -
  have ans: "answered E to_text kp fk (clock i) c" for i using standing_answered [OF set] assms(2) by (simp add: list_all_iff)
  from this [of 0] obtain t where "case_document_json E to_text kp fk c = Some t" by (auto simp: answered_def)
  with ans standing_case_ok [of E to_text kp fk clock _ c t] show ?thesis by (auto simp: emit_standing_case_def)
qed

lemma attenuation_emitted:
  assumes "reads_plain E" and "c \<in> set ATTENUATION_CASES"
  shows "\<exists>p q. emit_attenuation_case prose E c = Some (attenuation_json prose c p q) \<and> value_ok p \<and> value_ok q \<and>
    (\<forall>i. verdict_case_ok E clock pk (i, attenuation_json prose c p q))"
proof -
  obtain p q where pq: "(ac_parent_scope c, p) \<in> set table_texts" "(ac_child_scope c, q) \<in> set table_texts"
    "\<forall>i. verdict_case_ok E clock pk (i, attenuation_json prose c p q)" by (rule attenuation_case_ok [OF assms(2)])
  have "value_norm p = p" "value_norm q = q" using pq(1,2) table_texts_read by (fastforce simp: list_all_iff)+
  then have "value_ok p" "value_ok q" using value_ok_norm [of p] value_ok_norm [of q] by simp_all
  with pq table_text [OF assms(1)] show ?thesis by (auto simp: emit_attenuation_case_def)
qed

lemma verdict_cases_emitted:
  assumes set: "\<And>i. verdict_setting E to_text kp fk u (clock i)"
  shows "\<exists>t p q. those (map (emit_standing_case prose E to_text kp fk) STANDING_CASES) =
      Some (map (\<lambda>c. standing_json prose c (t c)) STANDING_CASES) \<and>
    those (map (emit_attenuation_case prose E) ATTENUATION_CASES) =
      Some (map (\<lambda>c. attenuation_json prose c (p c) (q c)) ATTENUATION_CASES) \<and>
    list_all (verdict_case_ok E clock (ext_public_key E kp)) (List.enumerate 0 (vector_cases prose t p q)) \<and>
    list_all (\<lambda>c. value_ok (p c) \<and> value_ok (q c)) ATTENUATION_CASES"
proof -
  let ?S = "\<lambda>c t. emit_standing_case prose E to_text kp fk c = Some (standing_json prose c t) \<and>
      (\<forall>i. verdict_case_ok E clock (ext_public_key E kp) (i, standing_json prose c t))"
  let ?A = "\<lambda>c pq. emit_attenuation_case prose E c = Some (attenuation_json prose c (fst pq) (snd pq)) \<and>
      value_ok (fst pq) \<and> value_ok (snd pq) \<and>
      (\<forall>i. verdict_case_ok E clock (ext_public_key E kp) (i, attenuation_json prose c (fst pq) (snd pq)))"
  have "\<forall>c \<in> set STANDING_CASES. \<exists>t. ?S c t" using standing_emitted [of E to_text kp fk u clock _ prose, OF set] by simp
  from bchoice [OF this] obtain t where t: "\<forall>c \<in> set STANDING_CASES. ?S c (t c)" ..
  have "reads_plain E" using verdict_libraries(6) [OF set] .
  then have "\<forall>c \<in> set ATTENUATION_CASES. \<exists>pq. ?A c pq"
    using attenuation_emitted [of E _ prose clock "ext_public_key E kp"] by simp
  from bchoice [OF this] obtain pq where a: "\<forall>c \<in> set ATTENUATION_CASES. ?A c (pq c)" ..
  define p q where "p = fst \<circ> pq" and "q = snd \<circ> pq"
  have pq: "\<forall>c \<in> set ATTENUATION_CASES. emit_attenuation_case prose E c = Some (attenuation_json prose c (p c) (q c)) \<and>
      value_ok (p c) \<and> value_ok (q c) \<and>
      (\<forall>i. verdict_case_ok E clock (ext_public_key E kp) (i, attenuation_json prose c (p c) (q c)))"
    using a by (simp add: p_def q_def)
  have "\<forall>c \<in> set (vector_cases prose t p q). \<forall>i. verdict_case_ok E clock (ext_public_key E kp) (i, c)"
    using t pq by (auto simp: vector_cases_def)
  then have "list_all (verdict_case_ok E clock (ext_public_key E kp)) (List.enumerate 0 (vector_cases prose t p q))"
    by (auto simp: list_all_iff in_set_enumerate_eq)
  moreover have "list_all (\<lambda>c. value_ok (p c) \<and> value_ok (q c)) ATTENUATION_CASES" using pq by (simp add: list_all_iff)
  moreover have "those (map (emit_standing_case prose E to_text kp fk) STANDING_CASES) = Some (map (\<lambda>c. standing_json prose c (t c)) STANDING_CASES)"
    "those (map (emit_attenuation_case prose E) ATTENUATION_CASES) = Some (map (\<lambda>c. attenuation_json prose c (p c) (q c)) ATTENUATION_CASES)"
    using t pq by (simp_all add: those_eq_Some)
  ultimately show ?thesis by blast
qed

lemma value_ok_json_object: "value_ok (json_object kvs) \<longleftrightarrow> (\<forall>kv \<in> set (map_collect kvs). value_ok (snd kv))"
  by (auto simp: json_object_def)

lemma value_ok_json_objectI: "\<forall>kv \<in> set kvs. value_ok (snd kv) \<Longrightarrow> value_ok (json_object kvs)"
  using set_map_collect [of kvs] by (auto simp: value_ok_json_object)

lemma value_ok_cases:
  "list_all (\<lambda>c. value_ok (p c) \<and> value_ok (q c)) ATTENUATION_CASES \<Longrightarrow> c \<in> set (vector_cases prose t p q) \<Longrightarrow> value_ok c"
  by (auto simp: vector_cases_def standing_json_def attenuation_json_def list_all_iff intro!: value_ok_json_objectI)

lemma prose_members_ok [simp]: "value_ok (prose_members prose at ks)"
  by (auto simp: prose_members_def intro!: value_ok_json_objectI)

lemma verdict_vector_printed:
  assumes set: "verdict_laws E to_text" "frozen_digests E" "verdict_apart E"
    and clock: "\<forall>i. civil_instant ''2020-01-01T00:00:00Z'' < clock i \<and> clock i \<le> civil_instant ''2999-01-01T00:00:00Z''"
  shows "\<exists>v kp t p q. emit_verdict_vector prose E to_text = Some v \<and> value_ok v \<and>
    index_member v ''cases'' = JArray (vector_cases prose t p q) \<and>
    list_all (verdict_case_ok E clock (ext_public_key E kp)) (List.enumerate 0 (vector_cases prose t p q)) \<and>
    index_member (index_member v ''ed25519'') ''kernel_public_key_hex'' = JString (to_hex (ext_public_key E kp)) \<and>
    names_of (index_member (index_member v ''reasons'') ''standing'') = set (map code_of verdict_ALL) \<and>
    names_of (index_member (index_member v ''reasons'') ''attenuation'') = {''attenuated'', ''scope_escalation'', ''unknown_scope_kind''}"
proof -
  have laws: "emitter_laws E" using set(1) by (simp add: verdict_laws_def)
  from emitter_key [OF laws] obtain kp where kp: "kernel_key_pair E = Some kp" by blast
  have "uuid_shape VERDICT_UUID" by code_simp
  from emitter_names [OF laws this] obtain u where u: "ext_uuid_parse E VERDICT_UUID = Some u" by (auto simp: names_def)
  have "case unhex FOREIGN_SEED_HEX of Some bs \<Rightarrow> length bs = 32 | None \<Rightarrow> False" by code_simp
  with laws obtain fk where fk: "unhex FOREIGN_SEED_HEX \<bind> ext_from_seed E = Some fk"
    by (auto simp: emitter_laws_def seed_ok_def split: option.splits)
  have S: "verdict_setting E to_text kp fk u (clock i)" for i using set clock kp u fk by (simp add: verdict_setting_def)
  obtain t p q where e: "those (map (emit_standing_case prose E to_text kp fk) STANDING_CASES) =
        Some (map (\<lambda>c. standing_json prose c (t c)) STANDING_CASES)"
      "those (map (emit_attenuation_case prose E) ATTENUATION_CASES) =
        Some (map (\<lambda>c. attenuation_json prose c (p c) (q c)) ATTENUATION_CASES)"
      "list_all (verdict_case_ok E clock (ext_public_key E kp)) (List.enumerate 0 (vector_cases prose t p q))"
      "list_all (\<lambda>c. value_ok (p c) \<and> value_ok (q c)) ATTENUATION_CASES"
    using verdict_cases_emitted [of E to_text kp fk u clock prose, OF S] by blast
  have cases: "\<forall>c \<in> set (vector_cases prose t p q). value_ok c" using value_ok_cases [OF e(4), of _ prose t] by blast
  obtain v where v: "emit_verdict_vector prose E to_text = Some v" "index_member v ''cases'' = JArray (vector_cases prose t p q)"
    "index_member (index_member v ''ed25519'') ''kernel_public_key_hex'' = JString (to_hex (ext_public_key E kp))"
    "names_of (index_member (index_member v ''reasons'') ''standing'') = set (map code_of verdict_ALL)"
    "names_of (index_member (index_member v ''reasons'') ''attenuation'') = {''attenuated'', ''scope_escalation'', ''unknown_scope_kind''}"
    "value_ok v"
  proof
    show "emit_verdict_vector prose E to_text = Some (the (emit_verdict_vector prose E to_text))"
      by (simp add: emit_verdict_vector_def kp fk e Let_def)
    show "value_ok (the (emit_verdict_vector prose E to_text))"
      by (simp add: emit_verdict_vector_def kp fk e(1,2) Let_def vector_cases_def [symmetric])
         (intro value_ok_json_objectI; auto simp: cases intro!: value_ok_json_objectI)
  qed (auto simp add: emit_verdict_vector_def kp fk e vector_cases_def Let_def index_json_object verdict_ALL_def)
  with e(3) show ?thesis by blast
qed

lemma printed_accepted:
  assumes "index_member v ''cases'' = JArray (vector_cases prose t p q)"
    and "list_all (verdict_case_ok E clock pk) (List.enumerate 0 (vector_cases prose t p q))"
    and "index_member (index_member v ''ed25519'') ''kernel_public_key_hex'' = JString (to_hex pk)"
    and "names_of (index_member (index_member v ''reasons'') ''standing'') = set (map code_of verdict_ALL)"
    and "names_of (index_member (index_member v ''reasons'') ''attenuation'') = {''attenuated'', ''scope_escalation'', ''unknown_scope_kind''}"
  shows "check_verdict E clock v = Inr ()"
proof -
  note counted = vector_cases_counted [of prose t p q]
  have "some_cases v ''cases'' = Some (vector_cases prose t p q)"
    using assms(1) counted(1) by (cases "vector_cases prose t p q") (simp_all add: some_cases_def)
  moreover have "ed25519_at v ''kernel_public_key_hex'' = to_hex pk" using assms(3) by (simp add: ed25519_at_def text_at_def)
  ultimately show ?thesis
    using assms(2) counted(1-5) counted(6)
    by (simp add: check_verdict_def assms(4,5) and_then_def ok_or_def verdict_cases_Inr [THEN iffD2] tally_cases_fields Let_def)
qed

section \<open>An instance of the libraries\<close>

text \<open>
  The instance of the other vectors, with the JSON reader of \<^verbatim>\<open>Vaid_Json_Text\<close>, the other spellings of the
  one UUID, the fraction of a second, and the two digests that the base document carries.
\<close>

definition verdict_uuid_parse :: "string \<Rightarrow> uuid option" where
  "verdict_uuid_parse s = uuid_parse (if s \<in> set uuid_spellings then VERDICT_UUID else s)"

definition verdict_instant :: "string \<Rightarrow> instant option" where
  "verdict_instant s = rfc3339_instant (if s = ''2999-01-01T00:00:00.000Z'' then ''2999-01-01T00:00:00Z'' else s)"

definition verdict_sha256 :: "bytes \<Rightarrow> bytes" where
  "verdict_sha256 b =
     (if b = bytes_of_string (''GENESIS:'' @ VERDICT_UUID)
      then the (unhex ''8f89c127be8d6e98aa288873e5b6413b9b84e6b92b1a8b99a4627f91390f16af'') else b)"

definition verdict_base64url :: "bytes \<Rightarrow> string" where
  "verdict_base64url b = (if b \<noteq> [] \<and> hd b = 5 then ''1IG2tMH7J2wbJZnOf8LJzQitKf7LMvoAElsuDMVM54Y'' else string_of_bytes b)"

text \<open>Canonical bytes that keep plain values apart.\<close>

definition verdict_jcs :: "json \<Rightarrow> bytes" where
  "verdict_jcs v = 5 # bytes_of_string (pretty 0 v)"

definition verdict_ext :: ext where
  "verdict_ext = vector_ext\<lparr>ext_uuid_parse := verdict_uuid_parse, ext_parse_rfc3339 := verdict_instant,
     ext_sha256 := verdict_sha256, ext_jcs := verdict_jcs, ext_base64url := verdict_base64url, ext_parse_json := json_read\<rparr>"

definition verdict_text :: "ordered \<Rightarrow> string" where
  "verdict_text kvs = pretty 0 (JObject kvs)"

lemma spellings_apart: "list_all (\<lambda>s. \<not> uuid_shape s) uuid_spellings" "uuid_shape VERDICT_UUID"
  by code_simp+

lemma fraction_apart: "''2999-01-01T00:00:00.000Z'' \<notin> set emitter_literals" "''2999-01-01T00:00:00.000Z'' \<notin> set verdict_literals"
  by code_simp+

lemma verdict_ext_laws: "verdict_laws verdict_ext verdict_text"
proof -
  note laws = vector_ext_laws(1) [unfolded emitter_laws_def]
  have "ed25519_correct verdict_ext" using laws by (simp add: ed25519_correct_def verdict_ext_def)
  moreover have "uuid_canonical_ok verdict_ext"
    using laws spellings_apart(1)
    by (auto simp: uuid_canonical_ok_def verdict_ext_def verdict_uuid_parse_def vector_ext_def list_all_iff)
  moreover have "seed_ok verdict_ext" using laws by (simp add: seed_ok_def verdict_ext_def)
  moreover have "reads_literals verdict_ext emitter_literals"
  proof -
    have "verdict_instant s = rfc3339_instant s" if "s \<in> set emitter_literals" for s
      using that fraction_apart(1) by (auto simp: verdict_instant_def)
    then show ?thesis using laws by (auto simp: reads_literals_def verdict_ext_def vector_ext_def list_all_iff)
  qed
  ultimately have "emitter_laws verdict_ext" by (simp add: emitter_laws_def)
  moreover have "reads_plain verdict_ext" "refuses verdict_ext" "writes_plain verdict_text"
    by (simp_all add: reads_plain_def refuses_def writes_plain_def verdict_ext_def verdict_text_def json_read_refuses)
  moreover have "list_all (\<lambda>s. ext_parse_rfc3339 verdict_ext s = rfc3339_instant s) verdict_literals"
    "ext_parse_rfc3339 verdict_ext ''2999-01-01T00:00:00.000Z'' = rfc3339_instant ''2999-01-01T00:00:00Z''"
    using fraction_apart(2) by (auto simp: verdict_ext_def verdict_instant_def list_all_iff)
  moreover have "list_all (\<lambda>s. ext_uuid_parse verdict_ext s = ext_uuid_parse verdict_ext VERDICT_UUID) uuid_spellings"
    by (simp add: verdict_ext_def verdict_uuid_parse_def list_all_iff)
  ultimately show ?thesis by (simp add: verdict_laws_def)
qed

lemma verdict_ext_fields:
  "ext_uuid_parse verdict_ext VERDICT_UUID = uuid_parse VERDICT_UUID" "ext_uuid_to_string verdict_ext = uuid_text"
  "ext_sha256 verdict_ext = verdict_sha256" "ext_base64url verdict_ext = verdict_base64url" "ext_jcs verdict_ext = verdict_jcs"
  "ext_public_key verdict_ext = (\<lambda>kp. 80 # kp)" "ext_sign verdict_ext = (\<lambda>kp m. 80 # kp @ m)"
  "ext_verify verdict_ext = (\<lambda>pk m sig. sig = pk @ m)" "ext_from_seed verdict_ext = (\<lambda>s. if length s = 32 then Some s else None)"
  by (simp_all add: verdict_ext_def vector_ext_def demo_ext_def verdict_uuid_parse_def)

lemma sha256_jcs: "verdict_sha256 (verdict_jcs v) = verdict_jcs v"
  by (simp add: verdict_sha256_def verdict_jcs_def bytes_of_string_def)

lemma verdict_ext_digests: "frozen_digests verdict_ext"
proof -
  have "uuid_parse VERDICT_UUID = Some u \<Longrightarrow> uuid_text u = VERDICT_UUID" for u
    using uuid_text_parse [OF spellings_apart(2)] by auto
  moreover have "to_hex (the (unhex ''8f89c127be8d6e98aa288873e5b6413b9b84e6b92b1a8b99a4627f91390f16af'')) =
      ''8f89c127be8d6e98aa288873e5b6413b9b84e6b92b1a8b99a4627f91390f16af''" by code_simp
  ultimately show ?thesis
    by (simp add: frozen_digests_def compute_lineage_hash_def verdict_ext_fields verdict_sha256_def kernel_key_thumbprint_def
        verdict_base64url_def verdict_jcs_def bytes_of_string_def THUMBPRINT_URI_PREFIX_def Let_def)
qed

lemma bytes_of_string_inj: "bytes_of_string s = bytes_of_string t \<Longrightarrow> s = t"
proof -
  have "char_of (unat (word_of_nat (of_char c) :: u8)) = c" for c :: char
    by (simp add: unsigned_of_nat char_of_take_bit_eq)
  then have "map (\<lambda>b. char_of (unat b)) (bytes_of_string s) = s" for s :: string by (simp add: bytes_of_string_def comp_def)
  then show "bytes_of_string s = bytes_of_string t \<Longrightarrow> s = t" by metis
qed

lemma plain_signing_value:
  assumes "plain_doc E d"
  shows "plain_json (vaid_signing_value d)"
proof -
  let ?ms = "map_collect (vaid_members d)"
  have v: "vaid_signing_value d = JObject (map_insert ''kernel_signature'' Null ?ms)"
    using assms by (simp add: vaid_signing_value_def ser_vaid_def object_insert_def vaid_all_members_def plain_doc_def)
  have ok: "map_ok (map_insert ''kernel_signature'' Null ?ms)" by simp
  have plain: "json_plain k \<and> plain_json w" if "(k, w) \<in> set (vaid_members d)" for k w
    using plain_doc_json(1) [OF assms] that by fastforce
  have "json_plain k \<and> plain_json w" if "(k, w) \<in> set (map_insert ''kernel_signature'' Null ?ms)" for k w
  proof (cases "k = ''kernel_signature''")
    case True
    have "(''kernel_signature'', ser_bytes (vd_kernel_signature d)) \<in> set (vaid_members d)" by (simp add: vaid_members_def)
    with plain True map_of_is_SomeI [OF map_ok_distinct [OF ok] that] show ?thesis by (auto simp: map_of_map_insert)
  next
    case False
    with map_of_is_SomeI [OF map_ok_distinct [OF ok] that] have "(k, w) \<in> set ?ms"
      by (simp add: map_of_map_insert map_of_SomeD)
    with plain set_map_collect [of "vaid_members d"] show ?thesis by blast
  qed
  then show ?thesis using map_ok_distinct [OF ok] by (fastforce simp: v)
qed

lemma verdict_ext_apart: "verdict_apart verdict_ext"
  unfolding verdict_apart_def Let_def
proof (intro allI impI)
  fix u kp other
  assume a: "ext_uuid_parse verdict_ext VERDICT_UUID = Some u \<and> kernel_key_pair verdict_ext = Some kp \<and>
    unhex FOREIGN_SEED_HEX \<bind> ext_from_seed verdict_ext = Some other"
  let ?m = "canonical_vaid_signing_bytes verdict_ext (verdict_base u)"
  have "no_collision verdict_ext v w" if "plain_json v" "plain_json w" for v w
  proof -
    have "pretty 0 v = pretty 0 w" if "verdict_jcs v = verdict_jcs w" using that bytes_of_string_inj [of "pretty 0 v" "pretty 0 w"] by (simp add: verdict_jcs_def)
    then have "v = w" if "verdict_jcs v = verdict_jcs w"
      using that json_read_pretty [OF \<open>plain_json v\<close>, of 0] json_read_pretty [OF \<open>plain_json w\<close>, of 0] by (metis option.inject)
    then show ?thesis by (simp add: no_collision_def verdict_ext_fields sha256_jcs)
  qed
  moreover have plain: "plain_json (vaid_signing_value d') \<and> plain_json (vaid_signing_value d)" if "(d', d) \<in> set (altered_documents u)" for d' d
    using altered_plain [OF verdict_ext_laws _ that] a plain_signing_value by blast
  moreover have "no_forgery verdict_ext kp m m'" for m m' by (simp add: no_forgery_def verdict_ext_fields)
  ultimately have apart: "list_all (\<lambda>(d', d). no_collision verdict_ext (vaid_signing_value d') (vaid_signing_value d) \<and>
      no_forgery verdict_ext kp (canonical_vaid_signing_bytes verdict_ext d') (canonical_vaid_signing_bytes verdict_ext d)) (altered_documents u)"
    using plain by (auto simp: list_all_iff)
  have "kp \<noteq> other"
  proof -
    have seed: "x \<bind> ext_from_seed verdict_ext = Some k \<Longrightarrow> x = Some k" for x k
      by (auto simp: verdict_ext_fields Option.bind_eq_Some_conv split: if_splits)
    have "unhex KERNEL_SEED_HEX \<noteq> unhex FOREIGN_SEED_HEX" by code_simp
    moreover have "unhex KERNEL_SEED_HEX = Some kp" "unhex FOREIGN_SEED_HEX = Some other"
      using a seed [of "unhex KERNEL_SEED_HEX" kp] seed [of "unhex FOREIGN_SEED_HEX" other] by (simp_all only: kernel_key_pair_def)
    ultimately show ?thesis by metis
  qed
  then have "\<not> ext_verify verdict_ext (ext_public_key verdict_ext kp) ?m (tamper_first (ext_sign verdict_ext kp ?m))"
    "\<not> ext_verify verdict_ext (ext_public_key verdict_ext kp) ?m (ext_sign verdict_ext other ?m)"
    by (simp_all add: verdict_ext_fields)
  with apart show "list_all (\<lambda>(d', d). no_collision verdict_ext (vaid_signing_value d') (vaid_signing_value d) \<and>
      no_forgery verdict_ext kp (canonical_vaid_signing_bytes verdict_ext d') (canonical_vaid_signing_bytes verdict_ext d)) (altered_documents u) \<and>
    \<not> ext_verify verdict_ext (ext_public_key verdict_ext kp) ?m (tamper_first (ext_sign verdict_ext kp ?m)) \<and>
    \<not> ext_verify verdict_ext (ext_public_key verdict_ext kp) ?m (ext_sign verdict_ext other ?m)"
    by blast
qed

lemma verdict_clock:
  "civil_instant ''2020-01-01T00:00:00Z'' < civil_instant ''2026-06-04T12:00:00Z''"
  "civil_instant ''2026-06-04T12:00:00Z'' \<le> civil_instant ''2999-01-01T00:00:00Z''"
  by code_simp+

section \<open>Properties\<close>

text \<open>
  C28.  The program that prints the verdict vector and the program that checks it agree on all of its
  cases: the vector is printed, and the checker accepts it.  So the library gives the frozen reason
  for each of the documents of the table, be it expired, revoked, tampered with, signed by a stranger,
  respelled, stripped of a member, cut, or written with a name twice, the faults that come in pairs
  included, and for each hop of the attenuation table.  JSON is read and written plainly, the two digests
  written out in the table are those of the base document, no signature is forged, and the clock is
  between the two instants of the table whenever it is read.
\<close>

theorem verdict_vector_passes:
  assumes "verdict_laws E to_text" and "frozen_digests E" and "verdict_apart E"
    and "\<forall>i. civil_instant ''2020-01-01T00:00:00Z'' < clock i \<and> clock i \<le> civil_instant ''2999-01-01T00:00:00Z''"
  shows "\<exists>v. emit_verdict_vector prose E to_text = Some v \<and> check_verdict E clock v = Inr ()"
proof -
  obtain v kp t p q where v: "emit_verdict_vector prose E to_text = Some v" "index_member v ''cases'' = JArray (vector_cases prose t p q)"
    "list_all (verdict_case_ok E clock (ext_public_key E kp)) (List.enumerate 0 (vector_cases prose t p q))"
    "index_member (index_member v ''ed25519'') ''kernel_public_key_hex'' = JString (to_hex (ext_public_key E kp))"
    "names_of (index_member (index_member v ''reasons'') ''standing'') = set (map code_of verdict_ALL)"
    "names_of (index_member (index_member v ''reasons'') ''attenuation'') = {''attenuated'', ''scope_escalation'', ''unknown_scope_kind''}"
    using verdict_vector_printed [OF assms, of prose] by (elim exE conjE) (rule that; assumption)
  have "check_verdict E clock v = Inr ()" by (rule printed_accepted [OF v(2-6)])
  with v(1) show ?thesis by simp
qed

theorem verdict_vector_passes_witness:
  "\<exists>v. emit_verdict_vector id verdict_ext verdict_text = Some v \<and>
     check_verdict verdict_ext (\<lambda>i. civil_instant ''2026-06-04T12:00:00Z'') v = Inr ()"
  using verdict_vector_passes [OF verdict_ext_laws verdict_ext_digests verdict_ext_apart, of "\<lambda>i. civil_instant ''2026-06-04T12:00:00Z''" id] verdict_clock
  by simp

end
