(* ===== verification/Vaid_Scope_Kind_Reading.thy ===== *)
theory Vaid_Scope_Kind_Reading
  imports Vaid_Verdict_Vector
begin

text \<open>
  The program that reports what this build answers for an unknown scope kind (the example
  \<^verbatim>\<open>emit_unknown_scope_kind_verdict\<close> of the mint crate), on the standing surface and on the
  attenuation surface, and its agreement with the checks of the conformance program: on accepted vectors it
  prints the frozen answers.
\<close>

section \<open>The program\<close>

text \<open>
  A case that does not expect \<^verbatim>\<open>unknown_scope_kind\<close>, or has no document text, is skipped; \<open>i\<close> is its
  place in the vector, at which the wall clock is read.
\<close>

definition expects_unknown_kind :: "json \<Rightarrow> bool" where
  "expects_unknown_kind c \<longleftrightarrow> index_member c ''expected_reason'' = JString ''unknown_scope_kind''"

definition standing_reading :: "ext \<Rightarrow> (nat \<Rightarrow> instant) \<Rightarrow> bytes \<Rightarrow> nat \<times> json \<Rightarrow> json option" where
  "standing_reading E clock kernel_pk entry =
     (let (i, c) = entry in
      if \<not> expects_unknown_kind c then None
      else (case as_str (index_member c ''document_json'') of
              None \<Rightarrow> None
            | Some txt \<Rightarrow>
                let got = verify_vaid_standing_from_json E (clock i) kernel_pk txt NotRevoked in
                Some (json_object
                  [(''case'', index_member c ''name''),
                   (''reason'', JString (code_of got)),
                   (''valid'', JBool (is_valid got))])))"

text \<open>The outer \<^term>\<open>None\<close> is a panic: a boundary that is no array, or an entry that is not well formed.\<close>

definition attenuation_reading :: "json \<Rightarrow> json option option" where
  "attenuation_reading c =
     (if \<not> expects_unknown_kind c then Some None
      else do {
        parent \<leftarrow> boundary_of (index_member c ''parent_scope'');
        child \<leftarrow> boundary_of (index_member c ''child_scope'');
        let reason = scope_attenuation_reason parent child;
        Some (Some (json_object
          [(''case'', index_member c ''name''),
           (''reason'', JString (attenuation_code reason))])) })"

text \<open>The reading of two vectors, and the program, which has their texts compiled in.\<close>

definition unknown_kind_readings :: "ext \<Rightarrow> (nat \<Rightarrow> instant) \<Rightarrow> json \<Rightarrow> json \<Rightarrow> json option" where
  "unknown_kind_readings E clock verdict kinds =
     do { hex \<leftarrow> as_str (index_member (index_member verdict ''ed25519'') ''kernel_public_key_hex'');
          kernel_pk \<leftarrow> unhex hex;
          cases \<leftarrow> as_array (index_member verdict ''cases'');
          let standing = List.map_filter (standing_reading E clock kernel_pk) (List.enumerate 0 cases);
          cases \<leftarrow> as_array (index_member kinds ''attenuation_cases'');
          readings \<leftarrow> those (map attenuation_reading cases);
          let attenuation = List.map_filter id readings;
          if standing = [] \<or> attenuation = [] then None
          else Some (json_object
            [(''surface'', JString ''unknown scope kind (spec S.10, ADR-0009)''),
             (''standing'', JArray standing),
             (''attenuation'', JArray attenuation)]) }"

definition emit_unknown_scope_kind_verdict :: "ext \<Rightarrow> (nat \<Rightarrow> instant) \<Rightarrow> string \<Rightarrow> string \<Rightarrow> json option" where
  "emit_unknown_scope_kind_verdict E clock verdict_vector scope_kinds_vector =
     do { verdict \<leftarrow> parse_value E verdict_vector;
          kinds \<leftarrow> parse_value E scope_kinds_vector;
          unknown_kind_readings E clock verdict kinds }"

section \<open>What it reads in accepted vectors\<close>

text \<open>
  The answer to a standing case is the one frozen with it.  The program does not look at the surface of
  a case, as the checker does: a case of the other surface that carries a document text is answered
  by the verdict on that text.
\<close>

definition answer_json :: "json \<Rightarrow> VaidVerdict \<Rightarrow> json" where
  "answer_json c v =
     json_object [(''case'', index_member c ''name''), (''reason'', JString (code_of v)), (''valid'', JBool (is_valid v))]"

definition standing_to_read :: "json \<Rightarrow> bool" where
  "standing_to_read c \<longleftrightarrow> expects_unknown_kind c \<and> is_string (index_member c ''document_json'')"

definition frozen_or_given :: "ext \<Rightarrow> (nat \<Rightarrow> instant) \<Rightarrow> bytes \<Rightarrow> nat \<times> json \<Rightarrow> VaidVerdict" where
  "frozen_or_given E clock pk entry =
     (if is_standing (snd entry) then VaidVerdict.UnknownScopeKind
      else verify_vaid_standing_from_json E (clock (fst entry)) pk (text_at (snd entry) ''document_json'') NotRevoked)"

definition frozen_standing :: "ext \<Rightarrow> (nat \<Rightarrow> instant) \<Rightarrow> bytes \<Rightarrow> json \<Rightarrow> json list" where
  "frozen_standing E clock pk verdict =
     map (\<lambda>entry. answer_json (snd entry) (frozen_or_given E clock pk entry))
       (filter (standing_to_read \<circ> snd) (List.enumerate 0 (array_or_empty (index_member verdict ''cases''))))"

definition frozen_attenuation :: "json \<Rightarrow> json list" where
  "frozen_attenuation kinds =
     map (\<lambda>c. json_object [(''case'', index_member c ''name''), (''reason'', JString ''unknown_scope_kind'')])
       (filter expects_unknown_kind (array_or_empty (index_member kinds ''attenuation_cases'')))"

text \<open>Whether a boundary can be read is decided before revocation is looked at.\<close>

lemma unknown_kind_any_revocation:
  assumes "code_of (verify_vaid_standing_from_json E now pk txt rv) = ''unknown_scope_kind''"
  shows "verify_vaid_standing_from_json E now pk txt rv' = VaidVerdict.UnknownScopeKind"
proof -
  have "verify_vaid_standing_from_json E now pk txt rv = VaidVerdict.UnknownScopeKind"
    using assms by (cases "verify_vaid_standing_from_json E now pk txt rv") simp_all
  then show ?thesis
    using graded_other(2) by (auto simp: verify_vaid_standing_from_json_def verify_vaid_standing_def Let_def
      split: if_splits option.splits RevocationStatus.splits)
qed

lemma standing_reading_ok:
  assumes "verdict_case_ok E clock pk (i, c)"
  shows "standing_reading E clock pk (i, c) =
    (if standing_to_read c then Some (answer_json c (frozen_or_given E clock pk (i, c))) else None)"
proof (cases "standing_to_read c \<and> is_standing c")
  case True
  with assms have "standing_answer E pk (clock i) c = Inr (frozen_reason c, expected_or_false c)"
    by (simp add: verdict_case_ok_def verdict_answer_def)
  then obtain s rv where t: "index_member c ''document_json'' = JString s"
      "code_of (verify_vaid_standing_from_json E (clock i) pk s rv) = frozen_reason c"
    unfolding standing_answer_def and_then_Inr by (auto simp: ok_or_def Let_def simp del: is_valid_iff split: option.splits)
  then have "verify_vaid_standing_from_json E (clock i) pk s NotRevoked = VaidVerdict.UnknownScopeKind"
    using True unknown_kind_any_revocation
    by (simp add: standing_to_read_def expects_unknown_kind_def frozen_reason_def text_at_def)
  with True t show ?thesis
    by (simp add: standing_reading_def standing_to_read_def answer_json_def frozen_or_given_def)
next
  case False
  then show ?thesis
    by (cases "index_member c ''document_json''")
      (auto simp: standing_reading_def standing_to_read_def answer_json_def frozen_or_given_def text_at_def Let_def)
qed

lemma attenuation_reading_ok:
  assumes "check_attenuation_case () c = Inr ()"
  shows "attenuation_reading c =
    Some (if expects_unknown_kind c
          then Some (json_object [(''case'', index_member c ''name''), (''reason'', JString ''unknown_scope_kind'')]) else None)"
proof -
  from assms obtain p q where "boundary_of (index_member c ''parent_scope'') = Some p" "boundary_of (index_member c ''child_scope'') = Some q"
    "attenuation_code (scope_attenuation_reason p q) = text_at c ''expected_reason''"
    by (auto simp: check_attenuation_case_def attenuation_answer_def and_then_Inr ok_or_def Let_def split: option.splits if_splits)
  then show ?thesis by (auto simp: attenuation_reading_def expects_unknown_kind_def text_at_def)
qed

lemma unhex_lossy_of_strict: "unhex s = Some bs \<Longrightarrow> unhex_lossy s = Inr bs"
proof -
  have "those (map f xs) = Some ys \<Longrightarrow> List.map_filter f xs = ys" for f :: "'a \<Rightarrow> 'b option" and xs ys
    by (induction xs arbitrary: ys) (auto simp: those_eq_Some List.map_filter_def Cons_eq_map_conv)
  then show "unhex s = Some bs \<Longrightarrow> unhex_lossy s = Inr bs"
    by (auto simp: unhex_def unhex_strict_def unhex_lossy_def and_then_def ok_or_def split: option.splits sum.splits)
qed

lemma standing_readings:
  assumes "list_all (verdict_case_ok E clock pk) entries"
  shows "List.map_filter (standing_reading E clock pk) entries =
    map (\<lambda>entry. answer_json (snd entry) (frozen_or_given E clock pk entry)) (filter (standing_to_read \<circ> snd) entries)"
  using assms by (induction entries) (auto simp: standing_reading_ok List.map_filter_def split: if_splits)

lemma attenuation_readings:
  assumes "list_all (\<lambda>c. check_attenuation_case () c = Inr ()) ks"
  shows "those (map attenuation_reading ks) \<bind> (\<lambda>rs. Some (List.map_filter id rs)) =
    Some (map (\<lambda>c. json_object [(''case'', index_member c ''name''), (''reason'', JString ''unknown_scope_kind'')]) (filter expects_unknown_kind ks))"
proof -
  have "map attenuation_reading ks = map (\<lambda>c. Some (if expects_unknown_kind c
      then Some (json_object [(''case'', index_member c ''name''), (''reason'', JString ''unknown_scope_kind'')]) else None)) ks"
    using assms attenuation_reading_ok by (auto simp: list_all_iff)
  then have "those (map attenuation_reading ks) = Some (map (\<lambda>c. if expects_unknown_kind c
      then Some (json_object [(''case'', index_member c ''name''), (''reason'', JString ''unknown_scope_kind'')]) else None) ks)"
    by (simp add: those_eq_Some)
  then show ?thesis by (simp add: List.map_filter_def comp_def filter_map)
qed

section \<open>The vector of scope kinds, in small\<close>

text \<open>A boundary the checker accepts and one it can not read: a kind that is not recognised.\<close>

definition scope_kinds_sample :: json where
  "scope_kinds_sample =
     (let kind = (\<lambda>k. JObject [(''kind'', JString k), (''value'', JString ''data.acme'')]) in
      JObject
       [(''rule'', JObject [(''kinds'', JArray [JString ''prefix''])]),
        (''containment_cases'', JArray [JObject
          [(''boundary'', JArray [kind ''prefix'']), (''resource'', JString ''data.acme.reports''),
           (''expected'', JBool True), (''expected_reason'', JString ''contained'')]]),
        (''attenuation_cases'', JArray
          [JObject
            [(''name'', JString ''known kinds''), (''parent_scope'', JArray [kind ''prefix'']), (''child_scope'', JArray [kind ''prefix'']),
             (''expected_valid'', JBool True), (''expected_reason'', JString ''attenuated'')],
           JObject
            [(''name'', JString ''unknown kind''), (''parent_scope'', JArray [kind ''prefix'']), (''child_scope'', JArray [kind ''glob'']),
             (''expected_valid'', JBool False), (''expected_reason'', JString ''unknown_scope_kind'')]]),
        (''shape_cases'', JArray
          [JObject [(''boundary_json'', JString ''[]''), (''expected_reason'', JString ''parsed'')],
           JObject [(''boundary_json'', JString ''[ ]''), (''expected_reason'', JString ''parsed'')]])])"

lemma scope_kinds_sample_checked: "check_scope_kinds verdict_ext scope_kinds_sample = Inr ()"
  unfolding verdict_ext_def by code_simp

lemma scope_kinds_sample_read:
  "frozen_attenuation scope_kinds_sample =
     [json_object [(''case'', JString ''unknown kind''), (''reason'', JString ''unknown_scope_kind'')]]"
  by code_simp

text \<open>The printed vector is one of those the property is about.\<close>

lemma printed_unknown_kind:
  assumes "index_member v ''cases'' = JArray (vector_cases prose t p q)"
  shows "frozen_standing E clock pk v \<noteq> []"
proof -
  have "list_ex (\<lambda>c. sc_expected_reason c = ''unknown_scope_kind'') STANDING_CASES" by code_simp
  then obtain c where c: "c \<in> set STANDING_CASES" "sc_expected_reason c = ''unknown_scope_kind''" by (auto simp: list_ex_iff)
  then have "standing_to_read (standing_json prose c (t c))"
    by (simp add: standing_to_read_def expects_unknown_kind_def standing_json_def index_json_object)
  moreover have "standing_json prose c (t c) \<in> set (vector_cases prose t p q)" using c by (simp add: vector_cases_def)
  then have "standing_json prose c (t c) \<in> snd ` set (List.enumerate 0 (vector_cases prose t p q))"
    by (simp flip: set_map)
  then obtain i where "(i, standing_json prose c (t c)) \<in> set (List.enumerate 0 (vector_cases prose t p q))" by auto
  ultimately show ?thesis
    using assms by (auto simp: frozen_standing_def array_or_empty_def filter_empty_conv intro!: bexI [rotated])
qed

lemma accepted_verdict:
  assumes "check_verdict E clock v = Inr ()" and "as_str (index_member (index_member v ''ed25519'') ''kernel_public_key_hex'') = Some hex"
    and "unhex hex = Some pk"
  obtains cs where "index_member v ''cases'' = JArray cs" "list_all (verdict_case_ok E clock pk) (List.enumerate 0 cs)"
proof -
  have "unhex_lossy (ed25519_at v ''kernel_public_key_hex'') = Inr pk"
    using assms(2) unhex_lossy_of_strict [OF assms(3)] by (auto simp: ed25519_at_def text_at_def)
  with assms(1) obtain cs t where "some_cases v ''cases'' = Some cs"
      "for_each (check_verdict_case E clock pk)
       \<lparr>vt_standing_positives = 0, vt_attenuation_positives = 0, vt_standing_negatives = 0,
        vt_attenuation_negatives = 0, vt_refusal_reasons = {}, vt_exercised = {}\<rparr> (List.enumerate 0 cs) = Inr t"
    unfolding check_verdict_def and_then_Inr by (auto simp: ok_or_def split: option.splits)
  then show ?thesis using that by (cases "index_member v ''cases''") (auto simp: some_cases_Some verdict_cases_Inr)
qed

lemma accepted_scope_kinds:
  assumes "check_scope_kinds E k = Inr ()"
  obtains cs where "index_member k ''attenuation_cases'' = JArray cs" "list_all (\<lambda>c. check_attenuation_case () c = Inr ()) cs"
proof -
  from assms obtain cs where "some_cases k ''attenuation_cases'' = Some cs" "for_each check_attenuation_case () cs = Inr ()"
    unfolding check_scope_kinds_def and_then_Inr by (auto simp: ok_or_def and_then_Inr split: option.splits if_splits)
  then show ?thesis using that by (cases "index_member k ''attenuation_cases''") (auto simp: some_cases_Some for_each_unit)
qed

section \<open>Properties\<close>

text \<open>
  C30.  The program that prints the readings of an unknown scope kind and the conformance program agree:
  for a verdict vector and a vector of scope kinds that the conformance program accepts, the readings are
  the answers that the vectors freeze, one for each case that expects \<^verbatim>\<open>unknown_scope_kind\<close> (on the
  standing surface, and has a document text), in the order of the vectors, whatever revocation the case
  was frozen with.  It differs in one place: it does not look at the surface of a case, so a case
  that the checker takes for an attenuation is answered here by the verdict on the document text
  it carries.  The program panics exactly when one of the two lists is empty or the kernel key is missing or is not
  hexadecimal, where the checker skips the pairs it can not read.
\<close>

theorem unknown_scope_kinds_read:
  assumes "check_verdict E clock verdict = Inr ()" and "check_scope_kinds E kinds = Inr ()"
  shows "unknown_kind_readings E clock verdict kinds =
    (case as_str (index_member (index_member verdict ''ed25519'') ''kernel_public_key_hex'') \<bind> unhex of
       None \<Rightarrow> None
     | Some pk \<Rightarrow>
         if frozen_standing E clock pk verdict = [] \<or> frozen_attenuation kinds = [] then None
         else Some (json_object
           [(''surface'', JString ''unknown scope kind (spec S.10, ADR-0009)''),
            (''standing'', JArray (frozen_standing E clock pk verdict)),
            (''attenuation'', JArray (frozen_attenuation kinds))]))"
proof (cases "as_str (index_member (index_member verdict ''ed25519'') ''kernel_public_key_hex'') \<bind> unhex")
  case None
  then show ?thesis
    by (cases "as_str (index_member (index_member verdict ''ed25519'') ''kernel_public_key_hex'')")
      (simp_all add: unknown_kind_readings_def)
next
  case (Some pk)
  then obtain hex where hex: "as_str (index_member (index_member verdict ''ed25519'') ''kernel_public_key_hex'') = Some hex"
    "unhex hex = Some pk" by (auto simp: Option.bind_eq_Some_conv)
  obtain cs where cs: "index_member verdict ''cases'' = JArray cs" "list_all (verdict_case_ok E clock pk) (List.enumerate 0 cs)"
    by (rule accepted_verdict [OF assms(1) hex])
  obtain ks where ks: "index_member kinds ''attenuation_cases'' = JArray ks" "list_all (\<lambda>c. check_attenuation_case () c = Inr ()) ks"
    by (rule accepted_scope_kinds [OF assms(2)])
  have "List.map_filter (standing_reading E clock pk) (List.enumerate 0 cs) = frozen_standing E clock pk verdict"
    using standing_readings [OF cs(2)] cs(1) by (simp add: frozen_standing_def array_or_empty_def)
  moreover obtain rs where "those (map attenuation_reading ks) = Some rs" "List.map_filter id rs = frozen_attenuation kinds"
    using attenuation_readings [OF ks(2)] ks(1) by (auto simp: frozen_attenuation_def array_or_empty_def Option.bind_eq_Some_conv)
  ultimately show ?thesis
    using hex cs(1) ks(1) by (simp add: unknown_kind_readings_def Let_def)
qed

theorem unknown_scope_kinds_read_witness:
  "\<exists>v pk. emit_verdict_vector id verdict_ext verdict_text = Some v \<and>
     unknown_kind_readings verdict_ext (\<lambda>i. civil_instant ''2026-06-04T12:00:00Z'') v scope_kinds_sample =
       Some (json_object
         [(''surface'', JString ''unknown scope kind (spec S.10, ADR-0009)''),
          (''standing'', JArray (frozen_standing verdict_ext (\<lambda>i. civil_instant ''2026-06-04T12:00:00Z'') pk v)),
          (''attenuation'', JArray [json_object [(''case'', JString ''unknown kind''), (''reason'', JString ''unknown_scope_kind'')]])])"
proof -
  let ?clock = "\<lambda>i :: nat. civil_instant ''2026-06-04T12:00:00Z''"
  have clock: "\<forall>i. civil_instant ''2020-01-01T00:00:00Z'' < ?clock i \<and> ?clock i \<le> civil_instant ''2999-01-01T00:00:00Z''"
    using verdict_clock by simp
  obtain v kp t p q where v: "emit_verdict_vector id verdict_ext verdict_text = Some v" "index_member v ''cases'' = JArray (vector_cases id t p q)"
    "list_all (verdict_case_ok verdict_ext ?clock (ext_public_key verdict_ext kp)) (List.enumerate 0 (vector_cases id t p q))"
    "index_member (index_member v ''ed25519'') ''kernel_public_key_hex'' = JString (to_hex (ext_public_key verdict_ext kp))"
    "names_of (index_member (index_member v ''reasons'') ''standing'') = set (map code_of verdict_ALL)"
    "names_of (index_member (index_member v ''reasons'') ''attenuation'') = {''attenuated'', ''scope_escalation'', ''unknown_scope_kind''}"
    using verdict_vector_printed [OF verdict_ext_laws verdict_ext_digests verdict_ext_apart clock, of id]
    by (elim exE conjE) (rule that; assumption)
  have "check_verdict verdict_ext ?clock v = Inr ()" by (rule printed_accepted [OF v(2-6)])
  from unknown_scope_kinds_read [OF this scope_kinds_sample_checked]
  have "unknown_kind_readings verdict_ext ?clock v scope_kinds_sample =
       Some (json_object
         [(''surface'', JString ''unknown scope kind (spec S.10, ADR-0009)''),
          (''standing'', JArray (frozen_standing verdict_ext ?clock (ext_public_key verdict_ext kp) v)),
          (''attenuation'', JArray [json_object [(''case'', JString ''unknown kind''), (''reason'', JString ''unknown_scope_kind'')]])])"
    using v(4) scope_kinds_sample_read printed_unknown_kind [OF v(2)] by (simp add: unhex_def)
  with v(1) show ?thesis by blast
qed

end
