(* ===== verification/Spec2Isabelle.thy ===== *)
theory Spec2Isabelle
  imports Vaid_Demo Vaid_Client Vaid_Interleaving Vaid_Interop Vaid_Mint_Firewall Vaid_Json_Text Vaid_Vectors Vaid_Request_Vectors
    Vaid_Scope_Kind_Reading Vaid_Pop_Firewall
begin

text \<open>
  VAID: documents of verifiable agent identity, the mint that issues and delegates them, and the
  verifiers that check them without the mint.  This development models the Rust crates under
  \<^verbatim>\<open>src/crates\<close>: \<^verbatim>\<open>vaid-mint\<close> (the document, the issuer, the mint and the verifiers), \<^verbatim>\<open>vaid-pop\<close>
  (request signing) and \<^verbatim>\<open>vaid-client\<close> (the headers a holder sends).  Paths below are relative to
  \<^verbatim>\<open>src/crates\<close>.

  The parts and how they interact.  A mint service owns an issuer, an audit sink and a gate.  A
  root mint asks the gate, checks the proof of possession of the holder's key, and has the issuer
  sign; a child mint compares the request with the parent document (lineage depth, tenant, parent
  link, scope, capabilities, expiry) before it touches any key or nonce, and checks the expiry of
  what the issuer returns.  The issuer stamps the earlier of its lifetime and the parent's expiry,
  signs the digest of the document and records the hop in its lineage store before it returns.
  Verifiers need the issuer's public key only: one document (\<^verbatim>\<open>verify.rs\<close>), or a chain of presented
  documents with attestations of consent where a hop changes kernel key (\<^verbatim>\<open>chain.rs\<close>).  Revocation
  is looked up along the assembled lineage and fails closed.  Two programs replay frozen vectors
  against the installed crates.

  Theories, in the order of their imports:

  \<^item> \<open>Vaid_Prelude\<close>: machine types (bytes and integers as words, identifiers as 128-bit words,
    instants as nanoseconds), results with an error, string and association-list operations with
    the meaning of the Rust ones, the locale \<open>containment_order\<close>.
  \<^item> \<open>Vaid_Json\<close>: \<^verbatim>\<open>serde_json::Value\<close>, its accessors, object members by key, what the derived
    struct codecs do with missing, unknown and repeated members.
  \<^item> \<open>Vaid_External\<close>: everything that is not under \<^verbatim>\<open>src\<close> (hashing, canonical JSON, Ed25519, base64,
    identifiers, dates, the JSON text parser) as one record of parameters, the named laws the
    program relies on, and a concrete record \<open>demo_ext\<close> that satisfies them.
  \<^item> \<open>Vaid_Error\<close>: \<^verbatim>\<open>error.rs\<close>, one constructor per refusal the sources build.
  \<^item> \<open>Vaid_Scope\<close>, \<open>Vaid_Document\<close>, \<open>Vaid_Text\<close>: \<^verbatim>\<open>vaid-mint/src/document.rs\<close>, that is scope entries and
    containment; the document, its accessors, codec and digest; the scanner for repeated member
    names with a grammar of JSON text as its specification.
  \<^item> \<open>Vaid_Identity\<close>: \<^verbatim>\<open>issuer_identity.rs\<close>.  \<open>Vaid_Attenuation\<close>: the containment predicates of
    \<^verbatim>\<open>mint.rs\<close>.  \<open>Vaid_Revocation\<close>: \<^verbatim>\<open>revocation.rs\<close>, with the locales \<open>lineage_store\<close> and
    \<open>revocation_store\<close>.  \<open>Vaid_Verify\<close>: \<^verbatim>\<open>verify.rs\<close>.  \<open>Vaid_Attestation\<close>: \<^verbatim>\<open>attestation.rs\<close>.
    \<open>Vaid_Chain\<close>: \<^verbatim>\<open>chain.rs\<close>, with the locale \<open>key_resolver\<close>.
  \<^item> \<open>Vaid_Pop\<close>: the \<^verbatim>\<open>vaid-pop\<close> library, with the locale \<open>pop_payload\<close>.  \<open>Vaid_Client\<close>:
    \<^verbatim>\<open>vaid-client/src/auth.rs\<close>.
  \<^item> \<open>Vaid_Mint_Types\<close>: \<^verbatim>\<open>mint_types.rs\<close>, \<^verbatim>\<open>authz.rs\<close>, \<^verbatim>\<open>audit.rs\<close>.  \<open>Vaid_Issuer\<close>: \<^verbatim>\<open>issuer.rs\<close>, with the
    locale \<open>recording_issuer\<close>.  \<open>Vaid_Mint\<close>: the service of \<^verbatim>\<open>mint.rs\<close>, each operation one step.
  \<^item> \<open>Vaid_World\<close>: a running reference mint as an inductive step relation, with its invariant.  Any
    root and child mint and any revocation is a step; the documents it keeps track of are the rooted
    ones, which go back by delegations to a root mint that claimed no parent.
    \<open>Vaid_Tasks\<close>: the operations cut into stages where they reach shared state, and schedules of
    stages.  \<open>Vaid_Interleaving\<close>: the running mint with any number of tasks in progress.
  \<^item> \<open>Vaid_Firewall\<close>, \<open>Vaid_Mint_Firewall\<close>, \<open>Vaid_Pop_Firewall\<close>: the two programs
    \<^verbatim>\<open>bin/conformance.rs\<close>, with the locale \<open>vector_firewall\<close> interpreted on both tables.
  \<^item> \<open>Vaid_Emitters\<close>, \<open>Vaid_Vectors\<close>: the programs \<^verbatim>\<open>vaid-mint/examples/emit_*.rs\<close> that print the
    mint, chain, expiry, attestation, possession and round-trip vectors, member by member, each
    proved to pass the check of the conformance program it is printed for.  The texts of comments
    and rules are an argument (\<open>prose\<close>).  The hypotheses are \<open>emitter_laws\<close> (Ed25519, the textual
    form of UUIDs, reading and writing the timestamps the programs name) and that two digests at
    hand differ; \<open>vector_ext\<close> is a concrete record of libraries that satisfies them.
  \<^item> \<open>Vaid_Json_Text\<close>: JSON text as a recursive reader and a writer with its indentation, proved to
    be read back, for the instances of the parameter that parses JSON.  \<open>Vaid_Request_Vectors\<close>:
    \<^verbatim>\<open>vaid-pop/examples/emit_completion_vector.rs\<close> and \<^verbatim>\<open>vaid-client/examples/emit_pop.rs\<close>,
    \<^verbatim>\<open>emit_pop_pathquery.rs\<close>, which sign the frozen requests again.
  \<^item> \<open>Vaid_Verdict_Emitter\<close>, \<open>Vaid_Verdict_Cases\<close>, \<open>Vaid_Verdict_Vector\<close>:
    \<^verbatim>\<open>vaid-mint/examples/emit_verdict_vector.rs\<close>, that is its tables of cases and how a case becomes a
    text; the answer of the library for every case of the tables; the printed vector against the
    check of the conformance program, and the libraries \<open>verdict_ext\<close> for which this can be said.
    \<open>Vaid_Scope_Kind_Reading\<close>: \<^verbatim>\<open>emit_unknown_scope_kind_verdict.rs\<close>.
  \<^item> \<open>Vaid_Interop\<close>: \<^verbatim>\<open>vaid-mint/examples/aat_interop_harness.rs\<close>, the caller that binds keys to trust
    domains and runs the verifier over chains it builds.
  \<^item> \<open>Vaid_Demo\<close>: a concrete mint, delegation and cross-key consent, computed by the definitions.

  State and operations.  The service is the record \<open>mint_service\<close> (\<^verbatim>\<open>MintService\<close>): the seams as
  functions, their states, the consumed nonces and the depth limit; an operation takes the
  service and returns the one it leaves with its result.  The reference issuer is the record
  \<open>reference_issuer\<close> with the stores it was built with.  A seam that is a trait object in the
  source is a record of functions here, with the default methods of the trait as definitions.
  Every read of the wall clock, every random identifier, nonce and generated key is an argument.

  What the lemmas show.  Here: every rooted document a mint hands out verifies offline until it expires,
  also when callers and revocations interleave, whatever other documents the mint hands out (C1, C20); an
  accepted chain is contained end to end, within and across kernel keys (C2, C4); what a mint guarantees
  and refuses (C3, C6, C22 to C24); single use of nonces, in sequence and under every schedule (C5, C26,
  C40), and the audit trail (C27); the revocation cascade and the issuer's verdict (C12, C13); consent
  as the attesting issuer writes it (C33); what a PASS of the conformance programs means (C35, C39) and
  that the vectors the emitters print get one (C28, C38), and what the other printing programs
  report of accepted vectors (C30, C36); what a caller may rely on that binds
  keys to domains, and that the verifier tells good chains from each single fault (C37, C21).  In
  the components: exact characterizations of containment, attenuation, lineage assembly, standing
  and the trust-domain grammar (C7 to C11, C18, C19); codecs and digests (C14 to C16, C31),
  every document well formed (C29); the scanner (C17); stages put together are the operation (lemma
  \<open>tasks_refine_operations\<close>).  Four results record what the code does where it may not be meant: the depth
  limit that is one too large (C34), the claimed parent of a root mint (C32), the freshness window
  (C25), and the scanner that compares names as they are written, escapes included (C17).

  Bounds.  \<open>MAX_LINEAGE_DEPTH\<close> is 1024, and the walk that assembles a lineage terminates by the
  number of entries left up to it, so no fuel is involved; the scanner terminates by the length of
  the text.  A task takes at most four stages, by \<open>tasks_refine_operations\<close>.  Counters and integers of the wire formats
  are words of their width; lengths and counts held in \<^verbatim>\<open>usize\<close> are natural numbers.

  Not modelled.  Message texts (a refusal is a constructor with the values it reports), \<^verbatim>\<open>Debug\<close>
  redaction, printing, overflow panics of date arithmetic outside the range of \<^verbatim>\<open>chrono\<close>, poisoned
  locks.  An issuance is one stage: what other tasks could see between the store accesses inside
  one issuance is not modelled.  The build scripts that embed the vectors are represented by the
  argument of the conformance programs.  The crate roots only re-export, and the tests exercise the
  library; the Python, TypeScript and JavaScript ports are other programs.  Unforgeability of signatures and collision
  resistance of the hash are never assumed of all inputs: a property that needs two digests to
  differ says so of the two values at hand (\<open>no_collision\<close>).
\<close>

section \<open>The mint and the verifiers\<close>

text \<open>
  C1.  End to end: in every state a reference mint can reach by root mints, delegations, refusals and
  revocations of any kind, every rooted document it has handed out, that is every document that goes back by
  delegations to a root mint that claimed no parent, verifies offline with \<^verbatim>\<open>verify_chain\<close>,
  against the issuer's public key and the rooted documents it has handed out, at every instant at which that
  document itself has not expired.  The mint starts on its in-memory lineage with a depth limit below
  \<open>MAX_LINEAGE_DEPTH\<close> (C34 is about the limit itself), and identifiers are drawn fresh.  A root mint whose seed claims a parent happens in between too, but
  its document is not covered: the mint signs the claim unchecked, and a verifier may refuse it (C32).
\<close>

theorem minted_documents_verify:
  assumes "mint_world E ms0 ms ds" and "reference_start E ms0" and "ed25519_correct E"
    and "d \<in> set ds" and "\<not> is_expired_at E d now"
  shows "verify_chain E now (kernel_public_key E (ms_issuer ms)) d (pb_new ds) = ChainVerification.Attenuated"
  unfolding verify_chain_def verify_chain_with_def
  using assms(4,5) by (intro world_chain_verifies [OF mint_world_inv [OF assms(1-3)]] single_key_resolves)

theorem minted_documents_verify_witness:
  "verify_chain demo_ext (demo_now + 60 * nanos_per_sec) (kernel_public_key demo_ext (ms_issuer demo_service2))
     demo_child (pb_new [demo_child, demo_root]) = ChainVerification.Attenuated \<and>
   (\<exists>ms' resp. mint_root demo_ext demo_claim_env demo_service1 demo_claim_request = (ms', Inr resp) \<and>
      verify_chain demo_ext (demo_now + 60 * nanos_per_sec) (kernel_public_key demo_ext (ms_issuer ms'))
        demo_root (pb_new [demo_root]) = ChainVerification.Attenuated)"
proof -
  obtain ms' resp where m: "mint_root demo_ext demo_claim_env demo_service1 demo_claim_request = (ms', Inr resp)"
    using demo_claim_mint by blast
  have "\<not> is_expired_at demo_ext demo_root (demo_now + 60 * nanos_per_sec)"
    by (simp add: is_expired_at_def expires_at_def demo_parse_expiry) (simp add: nanos_per_sec_def)
  then show ?thesis
    using minted_documents_verify [OF demo_world demo_start demo_ed25519_correct _ demo_child_alive]
      minted_documents_verify [OF demo_claim_world [OF m] demo_start demo_ed25519_correct, of demo_root] m by auto
qed

text \<open>
  C2.  A chain that verifies is contained end to end: its documents, root first, each name the one
  before as signed parent and were presented, no ancestor has expired, and the leaf's grants are
  within those of every document above it, resource by resource and capability by capability.
\<close>

theorem chain_contained_end_to_end:
  assumes "verify_chain_at E keys leaf (pb_new docs) atts now = ChainVerification.Attenuated"
  shows "\<exists>chain. presented_chain leaf (pb_new docs) chain \<and>
    list_all (\<lambda>a. \<not> is_expired_at E a now \<and> granted (vd_scope_boundary leaf) \<subseteq> granted (vd_scope_boundary a) \<and>
      set (vd_capability_set leaf) \<subseteq> set (vd_capability_set a) \<and> hop_contained E a leaf) (butlast chain)"
proof -
  from assms obtain chain where pres: "presented_chain leaf (pb_new docs) chain"
    and alive: "\<forall>d \<in> set (butlast chain). \<not> is_expired_at E d now"
    and ok: "successively (hop_ok E keys atts now) chain"
    unfolding verify_chain_at_Attenuated [OF pb_ok_new(1)] by blast
  have "hop_contained E a leaf" if "a \<in> set (butlast chain)" for a
    using chain_member_contains [OF hop_ok_contained [OF ok] _ that] pres by (auto simp: presented_chain_def)
  then have "list_all (\<lambda>a. \<not> is_expired_at E a now \<and>
      granted (vd_scope_boundary leaf) \<subseteq> granted (vd_scope_boundary a) \<and>
      set (vd_capability_set leaf) \<subseteq> set (vd_capability_set a) \<and> hop_contained E a leaf) (butlast chain)"
    using alive by (auto simp: list_all_iff hop_contained_def scope_attenuates_def caps_attenuate_def
        caps_attenuate_within_iff granted_def dest: scope_attenuates_within_sound)
  with pres show ?thesis by blast
qed

theorem chain_contained_end_to_end_witness:
  "\<exists>chain. presented_chain demo_child (pb_new [demo_child, demo_root]) chain \<and>
    list_all (\<lambda>a. granted (vd_scope_boundary demo_child) \<subseteq> granted (vd_scope_boundary a)) (butlast chain)"
  using chain_contained_end_to_end [OF demo_chain_verifies] by (auto simp: list_all_iff)

text \<open>
  C3.  What a delegation by the reference mint guarantees of the child it returns: it names the
  authenticated parent, lives in its tenant, is granted no resource and no capability the parent
  is not, and ends no later than the parent; the parent was alive and within the depth the mint
  allows, and the holder proved possession of the key in the child with a nonce never used before,
  now consumed.
\<close>

theorem mint_child_contained:
  assumes "mint_child E env ms request (Some parent) = (ms', Inr resp)"
    and "ms_issuer_ops ms = reference_issuer_ops E"
  shows "parent_vaid (mr_vaid resp) = Some (vaid_id parent) \<and>
    vd_tenant_id (mr_vaid resp) = vd_tenant_id parent \<and>
    granted (vd_scope_boundary (mr_vaid resp)) \<subseteq> granted (vd_scope_boundary parent) \<and>
    set (vd_capability_set (mr_vaid resp)) \<subseteq> set (vd_capability_set parent) \<and>
    (\<exists>tp tc. expires_at E parent = Some tp \<and> expires_at E (mr_vaid resp) = Some tc \<and> tc \<le> tp) \<and>
    \<not> is_expired_at E parent (me_expiry_clock env) \<and>
    (\<exists>ids. assemble_lineage parent (issuer_resolve_parent (ms_issuer ms)) = Complete ids \<and>
       length ids \<le> ms_max_delegation_depth ms) \<and>
    (\<exists>pop. req_pop request = Some pop \<and>
       pop_accepted E (me_pop_clock env) (req_seed request) (vd_public_key_der (mr_vaid resp)) pop
         (ms_consumed_pop_nonces ms) \<and>
       pop_nonce pop \<in> ms_consumed_pop_nonces ms')"
proof -
  from assms(1) obtain key and pop :: mint_pop where
    chk: "check_delegation E (me_expiry_clock env) ms (req_seed request) parent = Inr ()"
    and pop: "req_pop request = Some pop"
      "pop_accepted E (me_pop_clock env) (req_seed request) key pop (ms_consumed_pop_nonces ms)"
    and ic: "issue_child E env (ms\<lparr>ms_consumed_pop_nonces := insert (pop_nonce pop) (ms_consumed_pop_nonces ms)\<rparr>)
      (req_seed request) key parent = (ms', Inr resp)"
    by (cases rule: mint_child_Inr) auto
  from ic assms(2) obtain st where
    "build_and_sign_vaid E (ms_issuer ms) (me_issue env) (child_issue_args (req_seed request) parent) key
      = (st, Inr (mr_vaid resp))"
    and exp: "expiry_attenuates E parent (Some (vd_expires_at (mr_vaid resp)))"
    by (cases rule: issue_child_Inr) (auto simp: reference_issuer_ops_def issue_vaid_with_key_def)
  from this(1) have d: "issued_as (child_issue_args (req_seed request) parent) (mr_vaid resp)"
    "vd_public_key_der (mr_vaid resp) = key"
    by (auto simp: issued_as_def elim!: build_and_sign_Inr)
  have nonce: "pop_nonce pop \<in> ms_consumed_pop_nonces ms'"
    using issue_child_config [OF ic] by (auto simp: same_config_def)
  obtain ids where ids: "assemble_lineage parent (issuer_resolve_parent (ms_issuer ms)) = Complete ids"
      "length ids \<le> ms_max_delegation_depth ms"
    using chk assms(2) by (auto simp: check_delegation_Inr reference_issuer_ops_def)
  show ?thesis
    using chk d exp nonce pop ids
    by (auto simp: check_delegation_Inr issued_as_def child_issue_args_def scope_attenuates_def granted_def
          caps_attenuate_def caps_attenuate_within_iff expiry_attenuates_def expiry_attenuates_within_iff
          expires_at_def dest: scope_attenuates_within_sound)
qed

theorem mint_child_contained_witness:
  "parent_vaid demo_child = Some (vaid_id demo_root) \<and>
   granted (vd_scope_boundary demo_child) \<subseteq> granted (vd_scope_boundary demo_root)"
  using mint_child_contained [OF demo_mint_child]
  by (simp add: demo_service1_def demo_service_def)

text \<open>
  C4.  A hop that crosses kernel keys verifies only with consent: the presenter supplied an attestation
  for exactly that pair, authentic under the key that issued the parent, current at the instant,
  naming the domain and tenant the child claims, and granting at least what the child is granted
  and at most what the parent is.
\<close>

theorem cross_key_needs_consent:
  assumes "verify_chain_at E keys leaf (pb_new docs) (ab_new atts) now = ChainVerification.Attenuated"
    and "presented_chain leaf (pb_new docs) (front @ [parent, child] @ rest)"
    and "vd_kernel_key_thumbprint parent \<noteq> vd_kernel_key_thumbprint child"
  shows "\<exists>a key. a \<in> set atts \<and> att_hop a = (vaid_id parent, vaid_id child) \<and>
    keys (vd_kernel_key_thumbprint parent) = Some key \<and> verify_attestation_authenticity E key a \<and>
    is_current a now \<and>
    (att_child_trust_domain a, att_child_tenant_id a) = (vd_trust_domain child, vd_tenant_id child) \<and>
    granted (vd_scope_boundary child) \<subseteq> granted (att_scope_boundary a) \<and>
    granted (att_scope_boundary a) \<subseteq> granted (vd_scope_boundary parent) \<and>
    set (vd_capability_set child) \<subseteq> set (att_capability_set a) \<and>
    set (att_capability_set a) \<subseteq> set (vd_capability_set parent)"
proof -
  from assms(1) obtain chain where "presented_chain leaf (pb_new docs) chain"
    and ok: "successively (hop_ok E keys (ab_new atts) now) chain"
    unfolding verify_chain_at_Attenuated [OF pb_ok_new(1)] by blast
  then have "chain = front @ [parent, child] @ rest"
    using assms(2) presented_chain_unique [OF pb_ok_new(1)] by blast
  with ok have "hop_ok E keys (ab_new atts) now parent child"
    by (auto simp: successively_append_iff)
  with assms(3) have "consented E keys (ab_new atts) now parent child" by (simp add: hop_ok_def)
  then obtain a key where "ab_get (ab_new atts) (vaid_id parent) (vaid_id child) = Some a"
    and a: "keys (vd_kernel_key_thumbprint parent) = Some key" "verify_attestation_authenticity E key a"
      "is_current a now" "att_child_trust_domain a = vd_trust_domain child" "att_child_tenant_id a = vd_tenant_id child"
      "scope_attenuates_within (att_scope_boundary a) (vd_scope_boundary child)"
      "caps_attenuate_within (att_capability_set a) (vd_capability_set child)"
      "scope_attenuates parent (att_scope_boundary a)" "caps_attenuate parent (att_capability_set a)"
    unfolding consented_def by blast
  from ab_get_new [OF this(1)] ab_get_hop [OF ab_ok_new(1) this(1)] a show ?thesis
    by (intro exI [of _ a] exI [of _ key])
       (auto simp: att_hop_def granted_def scope_attenuates_def caps_attenuate_def caps_attenuate_within_iff
          dest: scope_attenuates_within_sound)
qed

theorem cross_key_needs_consent_witness:
  "\<exists>a key. a \<in> set [demo_consent] \<and> att_hop a = (1, 5) \<and>
    demo_keys (vd_kernel_key_thumbprint demo_root) = Some key \<and> verify_attestation_authenticity demo_ext key a"
  using cross_key_needs_consent [OF demo_cross_verifies, of "[]" demo_root demo_partner_child "[]"]
    demo_cross_chain demo_keys_differ by (auto simp: demo_thumbprint_inj)

text \<open>
  C5.  A proof-of-possession nonce buys one mint: over any sequence of root and child mints on a service,
  by any callers and with any outcomes between them, no two successful bring-your-own-key mints
  present the same nonce, and none presents one consumed before.
\<close>

theorem nonces_spent_once:
  "distinct (spent_nonces ops (snd (mint_run E ms ops))) \<and>
   set (spent_nonces ops (snd (mint_run E ms ops))) \<inter> ms_consumed_pop_nonces ms = {}"
  using mint_run_spends [of E ms ops "fst (mint_run E ms ops)" "snd (mint_run E ms ops)"] by simp

text \<open>
  C6.  A delegation outside the parent's authority is refused with no effect: if the parent's lineage
  cannot be assembled within the allowed depth, or tenant, parent link, scope or capabilities do
  not fit, or the parent has expired, the answer is an authorization error and the service, its
  nonces, its issuer and its audit sink are exactly as before.
\<close>

theorem refused_delegation_no_effect:
  assumes "\<not> ((\<exists>ids. assemble_lineage parent (vi_resolve_delegation_ancestor (ms_issuer_ops ms) (ms_issuer ms)) =
        Complete ids \<and> length ids \<le> ms_max_delegation_depth ms) \<and>
      seed_tenant_id (req_seed request) = vd_tenant_id parent \<and>
      seed_parent_vaid (req_seed request) = Some (vaid_id parent) \<and>
      scope_attenuates parent (seed_scope_boundary (req_seed request)) \<and>
      set (seed_capability_set (req_seed request)) \<subseteq> set (vd_capability_set parent) \<and>
      \<not> is_expired_at E parent (me_expiry_clock env))"
  shows "\<exists>why. mint_child E env ms request (Some parent) = (ms, Inl (Unauthorized why))"
proof -
  have "check_delegation E (me_expiry_clock env) ms (req_seed request) parent \<noteq> Inr ()"
    using assms by (auto simp: check_delegation_Inr caps_attenuate_def caps_attenuate_within_iff)
  then obtain e where e: "check_delegation E (me_expiry_clock env) ms (req_seed request) parent = Inl e"
    by (cases "check_delegation E (me_expiry_clock env) ms (req_seed request) parent") auto
  from check_delegation_Inl [OF e] e show ?thesis by (auto simp: mint_child_def)
qed

theorem refused_delegation_no_effect_witness:
  "\<exists>why. mint_child demo_ext demo_child_env demo_service1
     (demo_child_request\<lparr>req_seed := demo_child_seed\<lparr>seed_tenant_id := ''other''\<rparr>\<rparr>) (Some demo_root) =
     (demo_service1, Inl (Unauthorized why))"
  by (rule refused_delegation_no_effect) (simp add: demo_child_request_def)

section \<open>Revocation and lineage\<close>

text \<open>
  C12.  Revocation cascades: once any identifier of a document's lineage has been revoked in the
  issuer's own store, the document never verifies again, whatever is revoked before or after.
\<close>

theorem revocation_cascades:
  assumes "ri_revocation iss = DefaultStore"
    and "assemble_lineage d (issuer_resolve_parent iss) = Complete ids"
    and "i \<in> set ids" and "i \<in> set revoked"
  shows "revocation_status (foldl issuer_revoke iss revoked) d = RevocationStatus.Revoked \<and>
    \<not> issuer_verify_vaid E (foldl issuer_revoke iss revoked) now d"
proof -
  have keep: "issuer_resolve_parent (foldl issuer_revoke iss js) = issuer_resolve_parent iss \<and>
      ri_revocation (foldl issuer_revoke iss js) = ri_revocation iss \<and>
      ri_default_store (foldl issuer_revoke iss js) = foldl rl_revoke (ri_default_store iss) js" for js
    by (induction js rule: rev_induct) simp_all
  have "rl_check_lineage (foldl rl_revoke (ri_default_store iss) revoked) ids = RevocationStatus.Revoked"
    using assms(3,4) revocations.revoke_all by blast
  then have "revocation_status (foldl issuer_revoke iss revoked) d = RevocationStatus.Revoked"
    using assms(1,2) keep [of revoked] by (simp add: revocation_status_def issuer_check_lineage_def)
  then show ?thesis by (simp add: issuer_verify_vaid_def)
qed

theorem revocation_cascades_witness:
  "\<not> issuer_verify_vaid demo_ext (foldl issuer_revoke (ms_issuer demo_service2) [7, 1]) demo_now demo_child"
proof -
  have "assemble_lineage demo_child (issuer_resolve_parent (ms_issuer demo_service2)) = Complete [1, 2]"
    by (simp add: assemble_lineage_def issuer_resolve_parent_def demo_service2_def demo_issuer_def
          assuming_nothing_revoked_def with_key_def ml_resolve_parent_def MAX_LINEAGE_DEPTH_def)
  moreover have "ri_revocation (ms_issuer demo_service2) = DefaultStore"
    by (simp add: demo_service2_def demo_issuer_def assuming_nothing_revoked_def)
  ultimately show ?thesis using revocation_cascades [of "ms_issuer demo_service2" demo_child "[1, 2]" 1 "[7, 1]"] by simp
qed



text \<open>
  Fail closed by default: an issuer as constructed verifies no document and reports every one as
  undetermined, and after the loss of the in-memory lineage every document with a parent is
  undetermined and refused, never taken for a root.
\<close>

lemma fresh_issuer_fails_closed:
  assumes "ri_lineage iss = DefaultLineage" and "parent_vaid c = Some p"
  shows "revocation_status (with_key kp ttl td :: memory_lineage reference_issuer) d = Unavailable \<and>
    \<not> issuer_verify_vaid E (with_key kp ttl td :: memory_lineage reference_issuer) now d \<and>
    revocation_status (clear_lineage iss) c = Unavailable \<and>
    \<not> issuer_verify_vaid E (clear_lineage iss) now c"
proof -
  have one: "revocation_status (with_key kp ttl td :: memory_lineage reference_issuer) d = Unavailable"
    by (simp add: revocation_status_def issuer_check_lineage_def with_key_def rl_check_lineage_def rl_new_def
          split: LineageAssembly.splits)
  have "issuer_resolve_parent (clear_lineage iss) j = Unknown" for j
    using assms(1) by (simp add: issuer_resolve_parent_def clear_lineage_def ml_resolve_parent_def ml_clear_def)
  then have "assemble_lineage c (issuer_resolve_parent (clear_lineage iss)) = Incomplete"
    using assms(2) by (simp add: assemble_lineage_def)
  then have "revocation_status (clear_lineage iss) c = Unavailable"
    by (simp add: revocation_status_def)
  with one show ?thesis by (simp add: issuer_verify_vaid_def)
qed

section \<open>Issuance\<close>

text \<open>
  C22.  What the reference issuer signs, roots and delegated children alike, anybody can verify: an issued
  document is authentic under the issuer's public key, well formed, with timestamps of the E.6 profile,
  survives a serialization round trip, and is resolved by the issuer to the parent it names.  The issuer has a valid
  trust domain and a consistent lineage store, the scope entries asked for are validated ones, and the clock, the
  issuer's lifetime and a ceiling are within the years that the profile can write.
\<close>

theorem issued_document_authentic:
  assumes "build_and_sign_vaid E iss env a k = (iss', Inr d)"
    and "ed25519_correct E" and "uuid_text_ok E" and "rfc3339_ok E"
    and "is_valid_trust_domain (ri_trust_domain iss)" and "issuer_ok iss"
    and "list_all entry_ok (ia_scope_boundary a)"
    and "\<forall>ceiling cap. ia_not_after a = Some ceiling \<and> parse_rfc3339 E ceiling = Some cap \<longrightarrow> e6_range cap"
    and "e6_range (ie_clock env)" and "e6_range (ie_clock env + ri_vaid_ttl_hours iss * 3600 * nanos_per_sec)"
  shows "verify_vaid_authenticity E (kernel_public_key E iss) d \<and> has_conforming_timestamps E d \<and>
    de_vaid E (ser_vaid d) = Some d \<and> resolves_as (issuer_resolve_parent iss') d \<and> issued_as a d"
proof -
  from assms(1) obtain expires where
      e: "clamp_expiry E (ia_not_after a) (trunc_secs (ie_clock env) + ri_vaid_ttl_hours iss * 3600 * nanos_per_sec) = Inr expires"
    and d: "d = sign_document E iss (ie_agent_id env) (trunc_secs (ie_clock env)) expires a k"
    and rec: "issuer_try_record iss (ie_agent_id env) (ia_parent_vaid a) = (iss', Inr ())"
    by (rule build_and_sign_Inr)
  have own: "trunc_secs (ie_clock env) + ri_vaid_ttl_hours iss * 3600 * nanos_per_sec =
      trunc_secs (ie_clock env + ri_vaid_ttl_hours iss * 3600 * nanos_per_sec)"
    using trunc_secs_add_secs [of "ie_clock env" "ri_vaid_ttl_hours iss * 3600"] by simp
  from e have "e6_range expires"
    unfolding own clamp_expiry_def using assms(8) e6_range_trunc [OF assms(10)]
    by (auto simp: min_def split: option.splits if_splits)
  moreover have "e6_range (trunc_secs (ie_clock env))" using e6_range_trunc [OF assms(9)] .
  ultimately have "has_conforming_timestamps E d"
    by (simp add: d has_conforming_timestamps_def format_e6_conforms [OF assms(4)])
  moreover have "resolves_as (issuer_resolve_parent iss') d"
    using issuer_try_record_laws(2) [OF assms(6) rec] by (simp add: d resolves_as_def split: option.splits)
  ultimately show ?thesis
    using sign_document_authentic [OF assms(2,5)] de_ser_vaid [OF sign_document_ok [OF assms(3,7)]]
    by (simp add: d issued_as_def)
qed

theorem issued_document_authentic_witness:
  "verify_vaid_authenticity demo_ext (kernel_public_key demo_ext demo_issuer) demo_root \<and>
   has_conforming_timestamps demo_ext demo_root \<and> de_vaid demo_ext (ser_vaid demo_root) = Some demo_root \<and>
   verify_vaid_authenticity demo_ext (kernel_public_key demo_ext (ms_issuer demo_service1)) demo_child \<and>
   has_conforming_timestamps demo_ext demo_child \<and> de_vaid demo_ext (ser_vaid demo_child) = Some demo_child"
proof -
  have b: "build_and_sign_vaid demo_ext demo_issuer (me_issue demo_root_env) (root_issue_args demo_root_seed)
      (ext_public_key demo_ext [1]) = (ms_issuer demo_service1, Inr demo_root)"
    by (rule demo_built)
  have r: "e6_range (ie_clock (me_issue demo_root_env))"
    "e6_range (ie_clock (me_issue demo_root_env) + ri_vaid_ttl_hours demo_issuer * 3600 * nanos_per_sec)"
    using demo_range [of 0] demo_range [of 3600]
    by (simp_all add: demo_root_env_def demo_issuer_def assuming_nothing_revoked_def with_key_def)
  have b': "build_and_sign_vaid demo_ext (ms_issuer demo_service1) (me_issue demo_child_env)
      (child_issue_args demo_child_seed demo_root) (ext_public_key demo_ext demo_holder) =
      (ms_issuer demo_service2, Inr demo_child)"
    using demo_issue by (simp add: issue_vaid_with_key_def)
  have r': "e6_range (ie_clock (me_issue demo_child_env))"
    "e6_range (ie_clock (me_issue demo_child_env) + ri_vaid_ttl_hours (ms_issuer demo_service1) * 3600 * nanos_per_sec)"
    using demo_range [of 60] demo_range [of 3660]
    by (simp_all add: demo_child_env_def demo_service1_def demo_issuer_def assuming_nothing_revoked_def with_key_def add.commute)
  have n: "\<forall>ceiling cap. ia_not_after (child_issue_args demo_child_seed demo_root) = Some ceiling \<and>
      parse_rfc3339 demo_ext ceiling = Some cap \<longrightarrow> e6_range cap"
    using demo_range [of 3600] by (auto simp: child_issue_args_def demo_parse_expiry)
  show ?thesis
    using issued_document_authentic [OF b demo_ed25519_correct demo_uuid_text_ok demo_rfc3339_ok _ _ _ _ r]
      issued_document_authentic [OF b' demo_ed25519_correct demo_uuid_text_ok demo_rfc3339_ok _ _ _ n r'] demo_trust_domain
    by (simp add: demo_issuer_def demo_service1_def demo_service_def assuming_nothing_revoked_def with_key_def issuer_ok_def
          root_issue_args_def child_issue_args_def demo_root_seed_def demo_child_seed_def)
qed

text \<open>
  C29.  Every document of the program is well formed, wherever it comes from: read from any text or value,
  answered by a mint with the reference issuer in whatever state, or given another signature.  Its
  identifiers are those its presented spellings parse to, its scope entries have passed their validation,
  the members it keeps without knowing them are values under other names than its own, no member
  is repeated when it is written, and reading it back gives the same document.
\<close>

theorem program_documents_well_formed:
  assumes "program_document E ms0 d" and "ms_issuer_ops ms0 = reference_issuer_ops E" and "uuid_text_ok E"
  shows "vaid_ok E d \<and> distinct (map fst (vaid_all_members d)) \<and> de_vaid E (ser_vaid d) = Some d"
  using program_document_ok [OF assms] distinct_all_members de_ser_vaid by blast

theorem program_documents_well_formed_witness:
  "vaid_ok demo_ext (with_kernel_signature demo_child [1]) \<and>
   de_vaid demo_ext (ser_vaid (with_kernel_signature demo_child [1])) = Some (with_kernel_signature demo_child [1])"
proof -
  have "mint_apply demo_ext demo_service1 (ChildOp demo_child_env demo_child_request (Some demo_root)) =
     (demo_service2, Inr \<lparr>mr_vaid = demo_child, mr_expiry_bounded_by_parent = True,
        mr_parent_expires_at = Some (vd_expires_at demo_root)\<rparr>)"
    by (simp add: demo_mint_child)
  from document_minted [OF same_config_refl this] have "program_document demo_ext demo_service1 demo_child"
    by (simp add: demo_child_request_def demo_child_seed_def)
  from program_documents_well_formed [OF document_resigned [OF this, of "[1]"] _ demo_uuid_text_ok]
  show ?thesis by (simp add: demo_service1_def demo_service_def)
qed

text \<open>
  C23.  The expiry an issued document carries is exactly the earlier of the issuer's own lifetime and
  the ceiling, in whole seconds: it outlives neither, and the expiry check accepts it.
\<close>

theorem issued_expiry_clamped:
  assumes "build_and_sign_vaid E iss env a k = (iss', Inr d)" and "rfc3339_ok E"
    and "ia_not_after a = Some ceiling" and "parse_rfc3339 E ceiling = Some cap"
    and "e6_range cap" and "e6_range (ie_clock env + ri_vaid_ttl_hours iss * 3600 * nanos_per_sec)"
  shows "expires_at E d = Some (min (trunc_secs (ie_clock env + ri_vaid_ttl_hours iss * 3600 * nanos_per_sec)) (trunc_secs cap)) \<and>
    expiry_attenuates_within E ceiling (Some (vd_expires_at d))"
proof -
  let ?own = "ie_clock env + ri_vaid_ttl_hours iss * 3600 * nanos_per_sec"
  from assms(1) obtain expires where
      e: "clamp_expiry E (ia_not_after a) (trunc_secs (ie_clock env) + ri_vaid_ttl_hours iss * 3600 * nanos_per_sec) = Inr expires"
    and d: "d = sign_document E iss (ie_agent_id env) (trunc_secs (ie_clock env)) expires a k"
    by (rule build_and_sign_Inr)
  from e assms(3,4) have ex: "expires = min (trunc_secs ?own) cap"
    using trunc_secs_add_secs [of "ie_clock env" "ri_vaid_ttl_hours iss * 3600"] by (simp add: clamp_expiry_def)
  then have "e6_range expires" using assms(5) e6_range_trunc [OF assms(6)] by (simp add: min_def)
  then have "parse_rfc3339 E (vd_expires_at d) = Some (trunc_secs expires)"
    by (simp add: d parse_format_e6 [OF assms(2)])
  moreover have "trunc_secs expires = min (trunc_secs ?own) (trunc_secs cap)"
    using trunc_secs_le [of cap] by (auto simp: ex min_def antisym trunc_secs_mono)
  ultimately show ?thesis
    using assms(4) trunc_secs_le [of cap]
    by (simp add: expires_at_def expiry_attenuates_within_iff)
qed

theorem issued_expiry_clamped_witness:
  "expires_at demo_ext demo_child = Some (min (demo_now + 3660 * nanos_per_sec) (demo_now + 3600 * nanos_per_sec)) \<and>
   expiry_attenuates_within demo_ext (vd_expires_at demo_root) (Some (vd_expires_at demo_child))"
proof -
  have b: "build_and_sign_vaid demo_ext (ms_issuer demo_service1) (me_issue demo_child_env)
      (child_issue_args demo_child_seed demo_root) (ext_public_key demo_ext demo_holder) =
      (ms_issuer demo_service2, Inr demo_child)"
    using demo_issue by (simp add: issue_vaid_with_key_def)
  have n: "ia_not_after (child_issue_args demo_child_seed demo_root) = Some (vd_expires_at demo_root)"
    by (simp add: child_issue_args_def)
  have p: "parse_rfc3339 demo_ext (vd_expires_at demo_root) = Some (demo_now + 3600 * nanos_per_sec)"
    by (simp add: demo_parse_expiry)
  have own: "ie_clock (me_issue demo_child_env) + ri_vaid_ttl_hours (ms_issuer demo_service1) * 3600 * nanos_per_sec =
      demo_now + 3660 * nanos_per_sec"
    by (simp add: demo_child_env_def demo_service1_def demo_issuer_def assuming_nothing_revoked_def with_key_def)
  from issued_expiry_clamped [OF b demo_rfc3339_ok n p] own demo_range [of 3600] demo_range [of 3660]
  show ?thesis by (simp only: demo_trunc)
qed



text \<open>
  C33.  What an attesting issuer signs, a verifier accepts: an attestation issued under a valid trust domain, to
  end in a later second than it is issued, is authentic under the issuer's
  public key, current from its issue to its last whole second, ends no later than was asked, and is
  found in a bundle under the hop it names.
\<close>

theorem attestation_verifies:
  assumes "ed25519_correct E" and "is_valid_trust_domain (ri_trust_domain iss)"
    and "trunc_secs clock < trunc_secs expires" and "clock \<le> now" and "now \<le> trunc_secs expires"
  shows "verify_attestation_authenticity E (kernel_public_key E iss) (attest_delegation E iss clock p c td t expires b caps) \<and>
    is_current (attest_delegation E iss clock p c td t expires b caps) now \<and>
    att_expires_at (attest_delegation E iss clock p c td t expires b caps) \<le> expires \<and>
    ab_get (ab_new [attest_delegation E iss clock p c td t expires b caps]) p c =
      Some (attest_delegation E iss clock p c td t expires b caps)"
proof -
  have "is_current (attest_delegation E iss clock p c td t expires b caps) now"
    using assms(3-5) trunc_secs_le [of clock] by (simp add: is_current_iff nanos_per_sec_def)
  then show ?thesis
    using attest_delegation_authentic [OF assms(1,2)] trunc_secs_le [of expires]
    by (simp add: ab_new_def ab_get_def map_collect_def att_hop_def)
qed

theorem attestation_verifies_witness:
  "verify_attestation_authenticity demo_ext (kernel_public_key demo_ext demo_issuer) demo_consent \<and>
   is_current demo_consent (demo_now + 600 * nanos_per_sec)"
proof -
  have "is_valid_trust_domain (ri_trust_domain demo_issuer)"
    using demo_trust_domain by (simp add: demo_issuer_def assuming_nothing_revoked_def with_key_def)
  from attestation_verifies [OF demo_ed25519_correct this, of demo_now "demo_now + 600 * nanos_per_sec"
      "demo_now + 600 * nanos_per_sec"]
  show ?thesis by (simp add: demo_consent_def) (simp add: nanos_per_sec_def)
qed

section \<open>Possession and the audit trail\<close>

text \<open>
  C25.  The freshness window of a proof of possession, exactly: a proof is refused as stale just when its
  timestamp is 301 seconds or more away from the mint's clock, in either direction.  The skew is
  counted in truncated seconds, so the constant 300 admits everything below 301.
\<close>

theorem pop_freshness_window:
  "(\<exists>s. verify_pop_at_mint E clock ms seed key (Some pop) = (ms, Inl (Identity (PopStale s)))) \<longleftrightarrow>
     (MINT_POP_FRESHNESS_SECS + 1) * nanos_per_sec \<le> \<bar>clock - pop_issued_at pop\<bar>"
proof -
  have "(\<exists>s. verify_pop_at_mint E clock ms seed key (Some pop) = (ms, Inl (Identity (PopStale s)))) \<longleftrightarrow>
      pop_skew clock pop > MINT_POP_FRESHNESS_SECS"
    by (auto simp: verify_pop_at_mint_def Let_def)
  also have "\<dots> \<longleftrightarrow> (MINT_POP_FRESHNESS_SECS + 1) * nanos_per_sec \<le> \<bar>clock - pop_issued_at pop\<bar>"
    unfolding pop_skew_def abs_num_seconds by (simp add: MINT_POP_FRESHNESS_SECS_def nanos_per_sec_def) linarith
  finally show ?thesis .
qed

text \<open>
  C26.  A bad signature burns its nonce: the refusal consumes it, and after any further sequence of root and
  child mints on the service, whatever their requests and outcomes, a proof with that nonce is refused,
  with any seed, key, clock and signature.
\<close>

theorem bad_signature_burns_nonce:
  assumes "verify_pop_at_mint E clock ms seed key (Some pop) = (ms1, Inl (Identity PopBadSignature))"
    and "pop_nonce later = pop_nonce pop"
  shows "pop_nonce pop \<notin> ms_consumed_pop_nonces ms \<and>
    ms1 = ms\<lparr>ms_consumed_pop_nonces := insert (pop_nonce pop) (ms_consumed_pop_nonces ms)\<rparr> \<and>
    (\<exists>why. verify_pop_at_mint E clock' (fst (mint_run E ms1 ops)) seed' key' (Some later) =
       (fst (mint_run E ms1 ops), Inl (Identity why)))"
proof -
  from assms(1) have m: "pop_nonce pop \<notin> ms_consumed_pop_nonces ms"
      "ms1 = ms\<lparr>ms_consumed_pop_nonces := insert (pop_nonce pop) (ms_consumed_pop_nonces ms)\<rparr>"
    by (auto simp: verify_pop_at_mint_def Let_def split: if_splits)
  have "same_config ms1 (fst (mint_run E ms1 ops))" by (rule mint_run_config [OF prod.collapse [symmetric]])
  with m(2) assms(2) have "pop_nonce later \<in> ms_consumed_pop_nonces (fst (mint_run E ms1 ops))"
    by (auto simp: same_config_def)
  with m show ?thesis by (simp add: verify_pop_at_mint_def)
qed

theorem bad_signature_burns_nonce_witness:
  "\<exists>why. verify_pop_at_mint demo_ext demo_now
     (fst (mint_run demo_ext (demo_service1\<lparr>ms_consumed_pop_nonces := {''n1''}\<rparr>)
       [RootOp demo_claim_env demo_claim_request, ChildOp demo_child_env demo_child_request None]))
     demo_child_seed (ext_public_key demo_ext demo_holder) (req_pop demo_child_request) =
     (fst (mint_run demo_ext (demo_service1\<lparr>ms_consumed_pop_nonces := {''n1''}\<rparr>)
       [RootOp demo_claim_env demo_claim_request, ChildOp demo_child_env demo_child_request None]), Inl (Identity why))"
proof -
  have "verify_pop_at_mint demo_ext demo_now demo_service1 demo_child_seed (ext_public_key demo_ext demo_holder)
      (Some \<lparr>pop_nonce = ''n1'', pop_issued_at = demo_now, pop_signature = []\<rparr>) =
      (demo_service1\<lparr>ms_consumed_pop_nonces := {''n1''}\<rparr>, Inl (Identity PopBadSignature))"
    by (simp add: verify_pop_at_mint_def pop_skew_def num_seconds_def MINT_POP_FRESHNESS_SECS_def Let_def
          demo_service1_def demo_service_def verify_signed_payload_def demo_ext_def)
  moreover have "req_pop demo_child_request = Some (the (req_pop demo_child_request))"
    "pop_nonce (the (req_pop demo_child_request)) = ''n1''" by (simp_all add: demo_child_request_def)
  ultimately show ?thesis using bad_signature_burns_nonce by (metis mint_pop.select_convs(1))
qed

text \<open>
  C27.  No document without its audit entry: over any sequence of mints with the in-memory sink, with any
  mixture of outcomes, the trail grows by exactly the number of documents handed out.
\<close>

theorem success_is_audited:
  assumes "mint_run E ms ops = (ms', rs)" and "ms_audit_ops ms = ma_record"
  shows "ma_len (ms_audit ms') = ma_len (ms_audit ms) + sum_list (map success_count rs)"
  using assms by (rule mint_run_audit)

theorem success_is_audited_witness:
  "ma_len (ms_audit demo_service2) = ma_len (ms_audit demo_service) + 2"
  using success_is_audited [of demo_ext demo_service
      "[RootOp demo_root_env demo_root_request, ChildOp demo_child_env demo_child_request (Some demo_root)]"
      demo_service2] demo_mint_root demo_mint_child
  by (simp add: demo_service_def [THEN arg_cong [of _ _ ms_audit_ops]])

section \<open>Verifiers and limits\<close>

text \<open>A hop under one key, to the one document presented, is contained when the chain verifies.\<close>

lemma claimed_hop_contained:
  assumes "parent_vaid d = Some (vaid_id parent)" and "verify_chain E now pk d (pb_new [parent]) = ChainVerification.Attenuated"
  shows "good_hop E parent d"
proof -
  let ?keys = "sk_resolve_key (sk_new E pk)"
  from assms(2) obtain chain where pres: "presented_chain d (pb_new [parent]) chain"
    and ok: "successively (hop_ok E ?keys ab_empty now) chain"
    and auth: "authenticate E ?keys d" "\<forall>x \<in> snd ` set (pb_documents (pb_new [parent])). authenticate E ?keys x"
    unfolding verify_chain_def verify_chain_with_def verify_chain_at_Attenuated [OF pb_ok_new(1)] by blast
  have get: "pb_get (pb_new [parent]) i = (if i = vaid_id parent then Some parent else None)" for i
    by (simp add: pb_get_def pb_new_def map_collect_def)
  have "butlast chain \<noteq> []"
  proof
    assume "butlast chain = []"
    with pres have "chain = [d]" by (metis append_butlast_last_id append_Nil presented_chain_def)
    with pres assms(1) show False by (simp add: presented_chain_def pinned_def)
  qed
  then obtain front p where front: "butlast chain = front @ [p]" by (metis append_butlast_last_id)
  with pres have chain: "chain = front @ [p, d]"
    by (metis append_assoc append_butlast_last_id append_Cons append_Nil presented_chain_def)
  have "pb_get (pb_new [parent]) (vaid_id p) = Some p" using pres front by (simp add: presented_chain_def)
  then have "p = parent" by (simp add: get split: if_splits)
  with ok chain have hop: "hop_ok E ?keys ab_empty now parent d" by (auto simp: successively_append_iff)
  then show ?thesis by (auto simp: hop_ok_def good_hop_def no_consent split: if_splits)
qed

text \<open>
  A trust bundle is the whole of what is trusted: a chain that verifies against the map of a list of
  kernel keys consists of documents each authentic under one of the listed keys.
\<close>

lemma trust_bundle_accepts_only:
  assumes "verify_chain_at E (km_resolve_key (km_new E ks)) leaf (pb_new docs) atts now = ChainVerification.Attenuated"
  shows "\<exists>chain. presented_chain leaf (pb_new docs) chain \<and>
    list_all (\<lambda>d. \<exists>k \<in> set ks. verify_vaid_authenticity E k d) chain"
  using trust_bundle.chain_accepted [OF pb_ok_new(1) assms] by (auto simp: list_all_iff)

lemma demo_trust_bundle:
  "\<exists>chain. presented_chain demo_partner_child (pb_new [demo_root]) chain \<and>
    list_all (\<lambda>d. \<exists>k \<in> {kernel_public_key demo_ext demo_issuer, kernel_public_key demo_ext demo_partner}.
      verify_vaid_authenticity demo_ext k d) chain"
  using trust_bundle_accepts_only [OF demo_cross_verifies [unfolded demo_keys_def]] by simp

text \<open>
  C34.  The largest depth the mint accepts is one too large.  A reference mint configured with it, asked for a child
  of a parent it knows whose lineage has the maximal length, in order otherwise, hands the child out once the
  possession check and the issuance under a fresh identifier succeed; and the lineage of that child can not be assembled, so the
  issuer itself refuses the document from the start.
\<close>

theorem depth_bound_off_by_one:
  assumes "ms_issuer_ops ms = reference_issuer_ops E" and "issuer_ok (ms_issuer ms)"
    and "ms_max_delegation_depth ms = MAX_LINEAGE_DEPTH"
    and "assemble_lineage parent (issuer_resolve_parent (ms_issuer ms)) = Complete ids" and "length ids = MAX_LINEAGE_DEPTH"
    and "resolves_as (issuer_resolve_parent (ms_issuer ms)) parent"
    and "vd_tenant_id parent = seed_tenant_id (req_seed request)"
    and "seed_parent_vaid (req_seed request) = Some (vaid_id parent)"
    and "scope_attenuates parent (seed_scope_boundary (req_seed request))"
    and "caps_attenuate parent (seed_capability_set (req_seed request))"
    and "\<not> is_expired_at E parent (me_expiry_clock env)"
    and "seed_public_key_der (req_seed request) = Some key"
    and "verify_pop_at_mint E (me_pop_clock env) ms (req_seed request) key (req_pop request) = (ms1, Inr ())"
    and "issue_child E env ms1 (req_seed request) key parent = (ms', Inr resp)"
    and "ie_agent_id (me_issue env) \<notin> set ids"
  shows "validate_max_delegation_depth MAX_LINEAGE_DEPTH = Inr MAX_LINEAGE_DEPTH \<and>
    mint_child E env ms request (Some parent) = (ms', Inr resp) \<and>
    assemble_lineage (mr_vaid resp) (issuer_resolve_parent (ms_issuer ms')) = Incomplete \<and>
    \<not> issuer_verify_vaid E (ms_issuer ms') now (mr_vaid resp)"
proof -
  have "check_delegation E (me_expiry_clock env) ms (req_seed request) parent = Inr ()"
    using assms(1-11) by (simp add: check_delegation_Inr reference_issuer_ops_def)
  then have mint: "mint_child E env ms request (Some parent) = (ms', Inr resp)"
    using assms(12-14) by (simp add: mint_child_def Let_def)
  from mint_child_builds(1) [OF this assms(1)] obtain k where
    b: "build_and_sign_vaid E (ms_issuer ms) (me_issue env) (child_issue_args (req_seed request) parent) k
      = (ms_issuer ms', Inr (mr_vaid resp))" by blast
  then obtain expires where d: "mr_vaid resp = sign_document E (ms_issuer ms) (ie_agent_id (me_issue env))
        (trunc_secs (ie_clock (me_issue env))) expires (child_issue_args (req_seed request) parent) k"
    and rec: "issuer_try_record (ms_issuer ms) (ie_agent_id (me_issue env)) (seed_parent_vaid (req_seed request)) = (ms_issuer ms', Inr ())"
    by (rule build_and_sign_Inr) (simp add: child_issue_args_def)
  have same: "\<forall>x \<in> set ids. issuer_resolve_parent (ms_issuer ms) x = issuer_resolve_parent (ms_issuer ms') x"
    using issuer_try_record_laws(3) [OF assms(2) rec] assms(15) by metis
  have "vaid_id parent \<in> set ids" using assemble_lineage_nonempty [OF assms(4)] by (metis last_in_set)
  with same assms(6) have "resolves_as (issuer_resolve_parent (ms_issuer ms')) parent" by (simp add: resolves_as_def)
  moreover have "parent_vaid (mr_vaid resp) = Some (vaid_id parent)" using assms(8) by (simp add: d child_issue_args_def)
  ultimately have deep: "assemble_lineage (mr_vaid resp) (issuer_resolve_parent (ms_issuer ms')) = Incomplete"
    using assemble_too_deep [OF assemble_same [OF assms(4) same]] assms(5) by blast
  then have "\<not> issuer_verify_vaid E (ms_issuer ms') now (mr_vaid resp)"
    by (simp add: issuer_verify_vaid_def revocation_status_def)
  with mint deep show ?thesis by (simp add: validate_depth_Inr MAX_LINEAGE_DEPTH_def)
qed

theorem depth_bound_off_by_one_witness:
  "\<exists>ms' resp. mint_child demo_ext deep_env deep_service deep_request (Some deep_parent) = (ms', Inr resp) \<and>
     assemble_lineage (mr_vaid resp) (issuer_resolve_parent (ms_issuer ms')) = Incomplete"
proof -
  obtain ms' resp where issue: "issue_child demo_ext deep_env (deep_service\<lparr>ms_consumed_pop_nonces := {''n1''}\<rparr>)
      (req_seed deep_request) (ext_public_key demo_ext demo_holder) deep_parent = (ms', Inr resp)" using deep_issue by blast
  have "\<not> is_expired_at demo_ext deep_parent (me_expiry_clock deep_env)"
    by (simp add: is_expired_at_def expires_at_def demo_parse_expiry deep_env_def demo_child_env_def) (simp add: nanos_per_sec_def)
  moreover have "scope_attenuates deep_parent [prefix_entry ''data/a'']"
    using demo_scope by (simp add: scope_attenuates_def)
  moreover have "ie_agent_id (me_issue deep_env) \<notin> set (map word_of_nat [0..<1024])"
  proof
    assume "ie_agent_id (me_issue deep_env) \<in> set (map word_of_nat [0..<1024])"
    then obtain n where n: "n < 1024" "(5000 :: uuid) = word_of_nat n" by (auto simp: deep_env_def)
    have "n mod 2 ^ 128 = 5000" using arg_cong [OF n(2), of unat] by (simp add: unat_of_nat)
    moreover have "n mod 2 ^ 128 = n" using n(1) by simp
    ultimately show False using n(1) by simp
  qed
  ultimately show ?thesis
    using depth_bound_off_by_one [OF _ deep_lineage(3) _ deep_lineage(1) _ deep_lineage(2) _ _ _ _ _ _ deep_pop issue]
    by (simp add: deep_service_def caps_attenuate_def caps_attenuate_within_iff MAX_LINEAGE_DEPTH_def)
qed

text \<open>
  C32.  A root mint of a reference mint with a valid trust domain signs whatever parent the seed claims: the document it returns is authentic under the
  issuer's key and names that parent, with the scope and the capabilities of the seed, though no
  parent was presented and nothing was compared with one.  Offline the claim is held against the document
  it names: presented with it, the chain verifies only if tenant, scope and capabilities are within it.
\<close>

theorem root_mint_keeps_claimed_parent:
  assumes "mint_root E env ms request = (ms', Inr resp)" and "ms_issuer_ops ms = reference_issuer_ops E"
    and "ed25519_correct E" and "is_valid_trust_domain (ri_trust_domain (ms_issuer ms))"
  shows "parent_vaid (mr_vaid resp) = seed_parent_vaid (req_seed request) \<and>
    vd_scope_boundary (mr_vaid resp) = seed_scope_boundary (req_seed request) \<and>
    vd_capability_set (mr_vaid resp) = seed_capability_set (req_seed request) \<and>
    verify_vaid_authenticity E (kernel_public_key E (ms_issuer ms)) (mr_vaid resp) \<and>
    (\<forall>parent now. seed_parent_vaid (req_seed request) = Some (vaid_id parent) \<and>
       verify_chain E now (kernel_public_key E (ms_issuer ms)) (mr_vaid resp) (pb_new [parent]) = ChainVerification.Attenuated \<longrightarrow>
       vd_tenant_id parent = seed_tenant_id (req_seed request) \<and>
       scope_attenuates parent (seed_scope_boundary (req_seed request)) \<and>
       set (seed_capability_set (req_seed request)) \<subseteq> set (vd_capability_set parent))"
proof -
  let ?d = "mr_vaid resp" and ?pk = "kernel_public_key E (ms_issuer ms)"
  from mint_root_builds [OF assms(1,2)] obtain k where
    "build_and_sign_vaid E (ms_issuer ms) (me_issue env) (root_issue_args (req_seed request)) k
      = (ms_issuer ms', Inr ?d)" by blast
  then have d: "parent_vaid ?d = seed_parent_vaid (req_seed request)" "vd_tenant_id ?d = seed_tenant_id (req_seed request)"
    "vd_scope_boundary ?d = seed_scope_boundary (req_seed request)" "vd_capability_set ?d = seed_capability_set (req_seed request)"
    "verify_vaid_authenticity E ?pk ?d"
    using sign_document_authentic [OF assms(3,4)]
    by (auto simp: root_issue_args_def elim!: build_and_sign_Inr)
  have "good_hop E parent ?d"
    if "parent_vaid ?d = Some (vaid_id parent)" "verify_chain E now ?pk ?d (pb_new [parent]) = ChainVerification.Attenuated"
    for parent now by (rule claimed_hop_contained [OF that])
  then show ?thesis
    using d by (auto simp: good_hop_def hop_contained_def tenant_attenuates_def caps_attenuate_def caps_attenuate_within_iff)
qed

theorem root_mint_keeps_claimed_parent_witness:
  "\<exists>ms' resp. mint_root demo_ext demo_claim_env demo_service1 demo_claim_request = (ms', Inr resp) \<and>
     parent_vaid (mr_vaid resp) = Some (vaid_id demo_root) \<and>
     verify_chain demo_ext demo_now (kernel_public_key demo_ext (ms_issuer demo_service1)) (mr_vaid resp) (pb_new [demo_root])
       \<noteq> ChainVerification.Attenuated"
proof -
  obtain ms' resp where m: "mint_root demo_ext demo_claim_env demo_service1 demo_claim_request = (ms', Inr resp)"
    using demo_claim_mint by blast
  have "ms_issuer_ops demo_service1 = reference_issuer_ops demo_ext"
    and "is_valid_trust_domain (ri_trust_domain (ms_issuer demo_service1))"
    using demo_trust_domain
    by (simp_all add: demo_service1_def demo_service_def demo_issuer_def assuming_nothing_revoked_def with_key_def)
  note claim = root_mint_keeps_claimed_parent [OF m this(1) demo_ed25519_correct this(2)]
  have seed: "seed_parent_vaid (req_seed demo_claim_request) = Some (vaid_id demo_root)"
    "vd_tenant_id demo_root \<noteq> seed_tenant_id (req_seed demo_claim_request)" by (simp_all add: demo_claim_request_def)
  with claim m show ?thesis by metis
qed

section \<open>Many callers at once\<close>





text \<open>
  C40.  Under every interleaving the nonces stay single use: the tasks that hold an accepted proof at any
  moment, finished or not, hold pairwise different nonces, all of them consumed since the start.
\<close>

theorem interleaved_nonces:
  "let (ms', tasks) = run_schedule E ms (map start_task ops) schedule;
       held = List.map_filter held_nonce tasks
   in distinct held \<and> set held \<subseteq> ms_consumed_pop_nonces ms' - ms_consumed_pop_nonces ms"
proof -
  obtain ms' tasks where run: "run_schedule E ms (map start_task ops) schedule = (ms', tasks)" by force
  have inv: "nonces_ok (ms_consumed_pop_nonces ms) (ms', tasks)"
    using run_schedule_nonces [of ms E ops schedule] by (simp add: run)
  then have "distinct (List.map_filter held_nonce tasks)"
    by (intro held_distinct) (auto simp: nonces_ok_def)
  moreover have "set (List.map_filter held_nonce tasks) \<subseteq> ms_consumed_pop_nonces ms' - ms_consumed_pop_nonces ms"
    using inv by (auto simp: nonces_ok_def List.map_filter_def in_set_conv_nth)
  ultimately show ?thesis by (simp add: run)
qed

section \<open>The conformance programs\<close>

text \<open>
  C35.  A conformance program exits with 0 exactly when it has checked everything: the embedded vectors
  are those of its table, neither fewer nor more, every one of them parses, and the check the
  table has for it accepts it.
\<close>

theorem firewall_pass_complete:
  "(firewall_exit (mint_firewall E clock vs) = 0 \<longleftrightarrow>
      set (map fst vs) = set (map fst (mint_vector_checks clock E)) \<and>
      list_all (vector_passes E (mint_vector_checks clock E)) vs) \<and>
   (firewall_exit (pop_firewall E vs) = 0 \<longleftrightarrow>
      set (map fst vs) = set (map fst (pop_vector_checks E)) \<and>
      list_all (vector_passes E (pop_vector_checks E)) vs)"
proof -
  have exit: "firewall_exit r = 0 \<longleftrightarrow> (\<exists>checked. r = Inr checked)" for r
    by (auto simp: firewall_exit_def split: sum.splits conformance_error.splits)
  show ?thesis
    unfolding exit mint_firewall_def pop_firewall_def
    by (simp only: mint_vectors.run_passes_iff pop_vectors.run_passes_iff) simp
qed

section \<open>A caller that binds keys to trust domains\<close>

text \<open>
  C37.  A chain that the interop harness permits with its map from keys to trust domains is safe to act on:
  it is pinned from a root to the presented leaf within one tenant and one trust domain, and every
  document of it is unexpired, grants the invoked tool, and is authentic under an accepted kernel
  key that the map binds to that very trust domain.
\<close>

theorem interop_permit_sound:
  assumes "chain_verdict_with_binding E (tim_new entries) leaf ancestors now tool = Permit"
    and "\<forall>(k, domain) \<in> set entries. kernel_ok E k"
  shows "\<exists>docs. presented_chain leaf (pb_new ancestors) docs \<and>
     (\<forall>d \<in> set docs. has_capability d tool \<and> \<not> is_expired_at E d now \<and>
        vd_tenant_id d = vd_tenant_id leaf \<and> vd_trust_domain d = vd_trust_domain leaf \<and>
        (\<exists>k. (k, vd_trust_domain leaf) \<in> set entries \<and> verify_vaid_authenticity E (kn_public_key k) d))"
proof -
  from bound_permit [OF assms] obtain docs where "presented_chain leaf (pb_new ancestors) docs"
    and "\<forall>d \<in> set docs. has_capability d tool \<and> \<not> is_expired_at E d now \<and> vd_tenant_id d = vd_tenant_id leaf \<and>
        (\<exists>k. (k, vd_trust_domain leaf) \<in> set entries \<and> vd_trust_domain d = vd_trust_domain leaf \<and>
           verify_vaid_authenticity E (kn_public_key k) d)" by blast
  then show ?thesis by (intro exI [of _ docs] conjI ballI) blast+
qed

definition demo_harness_kernel :: "u8 \<Rightarrow> kernel" where
  "demo_harness_kernel byte = \<lparr>kn_key_pair = replicate 32 byte, kn_public_key = 80 # replicate 32 byte,
     kn_thumbprint = kernel_key_thumbprint demo_ext (80 # replicate 32 byte)\<rparr>"

definition demo_harness :: harness where
  "demo_harness = \<lparr>hn_kernel = demo_harness_kernel 0x51, hn_untrusted = demo_harness_kernel 0x52,
     hn_kernel2 = demo_harness_kernel 0x53\<rparr>"

lemma demo_harness_ready: "harness_ready demo_ext demo_harness word_of_nat 1704067500"
proof -
  have seed: "ext_from_seed demo_ext (replicate 32 byte) = Some (replicate 32 byte)"
    and pk: "ext_public_key demo_ext kp = 80 # kp" for byte kp by (simp_all add: demo_ext_def)
  have "harness_new demo_ext = Some demo_harness"
    unfolding harness_new_def kernel_new_def kernel_from_seed_def seed pk demo_harness_def demo_harness_kernel_def
    by simp
  then show ?thesis by (simp add: harness_ready_def demo_laws secs_ok_def)
qed

lemma demo_harness_apart:
  "kn_thumbprint (hn_untrusted demo_harness) \<noteq> kn_thumbprint (hn_kernel demo_harness)"
  "kn_thumbprint (hn_kernel2 demo_harness) \<noteq> kn_thumbprint (hn_kernel demo_harness)"
  by (simp_all add: demo_harness_def demo_harness_kernel_def demo_thumbprint_inj)

theorem interop_permit_sound_witness:
  "\<exists>leaf docs. presented_chain leaf (pb_new []) docs \<and> vd_trust_domain leaf = TRUST_DOMAIN_2 \<and>
     (\<forall>d \<in> set docs. has_capability d ''read_file'' \<and> vd_trust_domain d = vd_trust_domain leaf)"
proof -
  let ?leaf = "build_doc_ex demo_ext (hn_kernel2 demo_harness) (word_of_nat 0) None (ts (1704067500 - 300))
      (ts (1704067500 + 3600)) [''read_file''] [] TRUST_DOMAIN_2"
  have "second_anchor_verdict demo_ext demo_harness word_of_nat 1704067500 ''read_file'' TRUST_DOMAIN_2 = Permit"
    using second_anchor_iff [OF demo_harness_ready demo_harness_apart(2) harness_domains(2)] by simp
  then have permit: "chain_verdict_with_binding demo_ext (trust_map demo_harness) ?leaf [] (ts 1704067500) ''read_file'' = Permit"
    by (simp add: second_anchor_verdict_def)
  have "\<forall>(k, domain) \<in> set [(hn_kernel demo_harness, TRUST_DOMAIN), (hn_kernel2 demo_harness, TRUST_DOMAIN_2)]. kernel_ok demo_ext k"
    using harness_readyD(4,6) [OF demo_harness_ready] by simp
  from interop_permit_sound [OF permit [unfolded trust_map_def] this] obtain docs where
    "presented_chain ?leaf (pb_new []) docs" "\<forall>d \<in> set docs. has_capability d ''read_file'' \<and>
      vd_trust_domain d = vd_trust_domain ?leaf" by blast
  then show ?thesis by (intro exI [of _ ?leaf] exI [of _ docs]) simp
qed

lemma write_members_ok: "vd_unknown_fields d = [] \<Longrightarrow> writes_members write_members (vaid_all_members d)"
  unfolding writes_members_def
proof (intro exI conjI)
  assume "vd_unknown_fields d = []"
  then have "\<forall>k \<in> set (map fst (vaid_all_members d)). escape_text k = k"
    by (simp add: vaid_all_members_def vaid_members_def escape_text_def split: option.splits)
  then show "map fst (map (map_prod escape_text written_tree) (vaid_all_members d)) = map fst (vaid_all_members d)"
    by simp
  show "jvalue (TObj (map (map_prod escape_text written_tree) (vaid_all_members d))) (write_members (vaid_all_members d))"
    using jvalue_compact [OF written_tree_ok, of "JObject (vaid_all_members d)"] by (simp add: write_members_def)
qed

text \<open>
  C21.  The verifier separates the chains of the interop suite that are good from those that are not, on every
  vector that the harness does not skip and for every tool: over any libraries that keep their laws and
  any three distinct keys, a well-formed chain is permitted (a lone root, three levels, an inner document
  as leaf, an unknown signed member, a second anchor in its own domain), and each single fault is denied:
  expiry, a child that outlives its parent or has lapsed, a flipped bit in the signature, a foreign key, a key
  outside its domain, a member given twice in the text, an unknown scope kind, a wider or an unrestricted
  scope; and a tool that the leaf or its parent was never granted is denied exactly when it is another than
  the one that was.  That the flipped signature does not verify, and that the writer of JSON writes the
  members of the document by their names, is said of the one document at hand.
\<close>

theorem interop_answers:
  assumes "harness_ready E h fresh secs"
    and "kn_thumbprint (hn_untrusted h) \<noteq> kn_thumbprint (hn_kernel h)"
    and "kn_thumbprint (hn_kernel2 h) \<noteq> kn_thumbprint (hn_kernel h)"
    and "flip_refused E h (fresh 0) secs tool"
    and "writes_members to_text (vaid_all_members (root_doc E h (fresh 0) secs (-300) 3600 [tool]))"
  shows "list_all (\<lambda>(grp, vid, good). vector_entry E to_text wall h fresh grp vid secs tool = Some (if good then Permit else Deny))
      [(''1'', ''J.1'', True), (''3'', ''J.3'', True), (''9'', ''J.9.4'', True), (''27'', ''J.27.1'', True), (''21'', ''J.21.23'', True),
       (''5'', ''J.5'', False), (''13'', ''J.13'', False), (''13'', ''J.13.c'', False), (''14'', ''J.14'', False), (''14'', ''J.14.c'', False),
       (''23'', ''J.23.1'', False), (''23'', ''J.23.4'', False), (''21'', ''J.21.22'', False), (''8'', ''J.8.3'', False), (''8'', ''J.8.5'', False),
       (''11'', ''J.11'', False), (''19'', ''J.19.11'', False), (''19'', ''J.19.15'', False),
       (''9'', ''J.9.3'', tool = ''other_tool''), (''11'', ''J.11.b'', tool = ''other_tool''), (''26'', ''J.26.1'', tool = ''other_tool''),
       (''9'', ''J.9.6'', tool = ''read_file'')]"
  unfolding list.pred_inject case_prod_conv using harness_answers [OF assms] by simp

theorem interop_answers_witness:
  "vector_entry demo_ext write_members 0 demo_harness word_of_nat ''3'' ''J.3'' 1704067500 ''run_query'' = Some Permit \<and>
   vector_entry demo_ext write_members 0 demo_harness word_of_nat ''14'' ''J.14'' 1704067500 ''run_query'' = Some Deny \<and>
   vector_entry demo_ext write_members 0 demo_harness word_of_nat ''23'' ''J.23.4'' 1704067500 ''run_query'' = Some Deny"
proof -
  let ?root = "root_doc demo_ext demo_harness (word_of_nat 0) 1704067500 (-300) 3600 [''run_query'']"
  have unknown: "vd_unknown_fields ?root = []"
    by (simp add: root_doc_def build_doc_def build_doc_ex_def with_lineage_def with_kernel_signature_def Let_def)
  obtain m where "vd_kernel_signature ?root = 80 # replicate 32 0x51 @ m"
    by (simp add: root_doc_def build_doc_def build_doc_ex_def with_lineage_def with_kernel_signature_def kernel_sign_def
        demo_harness_def demo_harness_kernel_def demo_ext_def Let_def)
  then have "flip_refused demo_ext demo_harness (word_of_nat 0) 1704067500 ''run_query''"
    by (simp add: flip_refused_def Let_def) (simp add: demo_ext_def demo_harness_def demo_harness_kernel_def)
  from interop_answers [OF demo_harness_ready demo_harness_apart this write_members_ok [OF unknown], of 0]
  show ?thesis by simp
qed

end
